(* ===== verification/Tools_Prelude.thy ===== *)
theory Tools_Prelude
  imports Main "HOL-Library.Word" "HOL-Library.Multiset" "HOL-Library.Sublist"
    "HOL-Library.Char_ord"
begin

text \<open>
  Shared vocabulary of the development: Go errors as a datatype with
  \<^verbatim>\<open>errors.Is\<close> and \<^verbatim>\<open>Error()\<close>, times and durations in nanoseconds, the fact
  collections the component theories extend, and generic lemmas on lists, sums and sorting.
\<close>

section \<open>Fact collections\<close>

named_theorems frame "which part of the world an operation leaves alone"
named_theorems go_string "facts on the modelled part of package strings"
named_theorems sql_stmt "effect of a single SQL statement on the tables"

section \<open>Errors\<close>

text \<open>
  The sentinel errors of packages \<^verbatim>\<open>webhook\<close> and \<^verbatim>\<open>user\<close>, the one sentinel
  of \<^verbatim>\<open>pgx\<close> the code tests for, \<^verbatim>\<open>errors.New\<close>/\<^verbatim>\<open>fmt.Errorf\<close>
  with a text, and \<^verbatim>\<open>fmt.Errorf\<close> with a \<^verbatim>\<open>%w\<close> operand.
\<close>

datatype go_error =
    ErrNotFound | ErrForbidden | ErrLimitBins | ErrExpired | ErrBodyTooLarge
  | ErrUserNotFound | ErrBanned
  | ErrNoRows
  | Errorf string
  | Wrap string go_error

fun error_text :: "go_error \<Rightarrow> string" where
  "error_text ErrNotFound = ''not found''"
| "error_text ErrForbidden = ''forbidden''"
| "error_text ErrLimitBins = ''bin limit reached''"
| "error_text ErrExpired = ''bin expired''"
| "error_text ErrBodyTooLarge = ''body too large''"
| "error_text ErrUserNotFound = ''user not found''"
| "error_text ErrBanned = ''user banned''"
| "error_text ErrNoRows = ''no rows in result set''"
| "error_text (Errorf s) = s"
| "error_text (Wrap p e) = p @ '': '' @ error_text e"

fun errors_Is :: "go_error \<Rightarrow> go_error \<Rightarrow> bool" where
  "errors_Is (Wrap p e) t \<longleftrightarrow> Wrap p e = t \<or> errors_Is e t"
| "errors_Is e t \<longleftrightarrow> e = t"

section \<open>Time\<close>

text \<open>Instants are nanoseconds since the epoch, \<^verbatim>\<open>time.Duration\<close> is nanoseconds.\<close>

type_synonym time = int
type_synonym duration = int

definition Second :: duration where "Second = 1000000000"
definition Minute :: duration where "Minute = 60 * Second"
definition Hour :: duration where "Hour = 60 * Minute"

text \<open>\<^verbatim>\<open>int(d.Seconds())\<close> truncates towards zero.\<close>

definition int_Seconds :: "duration \<Rightarrow> int" where
  "int_Seconds d = (if 0 \<le> d then d div Second else - ((- d) div Second))"

lemma Second_pos [simp]: "0 < Second" "0 \<le> Second"
  by (simp_all add: Second_def)

lemma int_Seconds_nonneg: "0 \<le> d \<Longrightarrow> 0 \<le> int_Seconds d"
  by (simp add: int_Seconds_def pos_imp_zdiv_nonneg_iff)

text \<open>\<^verbatim>\<open>t.After(u)\<close>.\<close>

definition After :: "time \<Rightarrow> time \<Rightarrow> bool" where
  "After t u \<longleftrightarrow> u < t"

section \<open>Generic lemmas\<close>

lemma fst_eq_Inr_split:
  "fst p = Inr a \<longleftrightarrow> (\<exists>s. p = (Inr a, s))"
  by (cases p) auto

lemma distinct_map_filter_inj:
  "distinct (map f xs) \<Longrightarrow> distinct (map f (filter P xs))"
  by (induction xs) auto

lemma distinct_map_unique:
  assumes "distinct (map f xs)" "x \<in> set xs" "y \<in> set xs" "f x = f y"
  shows "x = y"
  using assms by (auto simp: distinct_map dest: inj_onD)

lemma find_filter: "find P xs = (case filter P xs of [] \<Rightarrow> None | x # _ \<Rightarrow> Some x)"
  by (induction xs) auto

lemma find_key_Some_iff:
  assumes "distinct (map f xs)"
  shows "find (\<lambda>x. f x = k) xs = Some y \<longleftrightarrow> y \<in> set xs \<and> f y = k"
  using assms by (induction xs) (auto simp: image_iff)

lemma find_Some_mem: "find P xs = Some y \<Longrightarrow> y \<in> set xs \<and> P y"
  by (induction xs) (auto split: if_splits)

lemma find_None_all: "find P xs = None \<longleftrightarrow> (\<forall>x \<in> set xs. \<not> P x)"
  by (induction xs) auto

lemma length_filter_mset:
  "mset xs = mset ys \<Longrightarrow> length (filter P xs) = length (filter P ys)"
  by (metis mset_filter size_mset)

lemma filter_map_key:
  "(\<And>x. P (g x) = P x) \<Longrightarrow> filter P (map g xs) = map g (filter P xs)"
  by (induction xs) auto

lemma length_filter_split:
  "length (filter P xs) + length (filter (\<lambda>x. \<not> P x) xs) = length xs"
  by (induction xs) auto

end
