(* ===== verification/Go_Strings.thy ===== *)
theory Go_Strings
  imports Tools_Prelude
begin

text \<open>
  The part of Go's standard library on strings the program uses. A Go string is a sequence
  of bytes, so it is a \<^typ>\<open>string\<close> (8-bit characters): \<^verbatim>\<open>len\<close> is
  \<^const>\<open>length\<close> and \<^verbatim>\<open>s[:n]\<close> is \<^const>\<open>take\<close>. White space and case follow
  Unicode over the UTF-8 bytes: white space is spelled out, the case tables outside ASCII
  are an argument of the functions.
\<close>

section \<open>strings.TrimSpace\<close>

text \<open>
  The UTF-8 encodings of the runes \<^verbatim>\<open>unicode.IsSpace\<close> accepts: tab, newline,
  vertical tab, form feed, return, space, U+0085, U+00A0, U+1680, U+2000 to U+200A, U+2028,
  U+2029, U+202F, U+205F, U+3000.
\<close>

definition space_runes :: "string list" where
  "space_runes =
     [[CHR 0x09], [CHR 0x0A], [CHR 0x0B], [CHR 0x0C], [CHR 0x0D], [CHR 0x20],
      [CHR 0xC2, CHR 0x85], [CHR 0xC2, CHR 0xA0], [CHR 0xE1, CHR 0x9A, CHR 0x80],
      [CHR 0xE2, CHR 0x80, CHR 0x80], [CHR 0xE2, CHR 0x80, CHR 0x81],
      [CHR 0xE2, CHR 0x80, CHR 0x82], [CHR 0xE2, CHR 0x80, CHR 0x83],
      [CHR 0xE2, CHR 0x80, CHR 0x84], [CHR 0xE2, CHR 0x80, CHR 0x85],
      [CHR 0xE2, CHR 0x80, CHR 0x86], [CHR 0xE2, CHR 0x80, CHR 0x87],
      [CHR 0xE2, CHR 0x80, CHR 0x88], [CHR 0xE2, CHR 0x80, CHR 0x89],
      [CHR 0xE2, CHR 0x80, CHR 0x8A], [CHR 0xE2, CHR 0x80, CHR 0xA8],
      [CHR 0xE2, CHR 0x80, CHR 0xA9], [CHR 0xE2, CHR 0x80, CHR 0xAF],
      [CHR 0xE2, CHR 0x81, CHR 0x9F], [CHR 0xE3, CHR 0x80, CHR 0x80]]"

text \<open>Drop leading members of a list of words as long as one of them is a prefix.\<close>

function strip_prefixes :: "string list \<Rightarrow> string \<Rightarrow> string" where
  "strip_prefixes ws s =
     (case find (\<lambda>w. w \<noteq> [] \<and> prefix w s) ws of
        None \<Rightarrow> s
      | Some w \<Rightarrow> strip_prefixes ws (drop (length w) s))"
  by pat_completeness auto
termination
  by (relation "measure (\<lambda>(ws, s). length s)")
    (auto dest!: find_Some_mem simp: prefix_def)

declare strip_prefixes.simps [simp del]

definition trim_left :: "string \<Rightarrow> string" where
  "trim_left s = strip_prefixes space_runes s"

definition trim_right :: "string \<Rightarrow> string" where
  "trim_right s = rev (strip_prefixes (map rev space_runes) (rev s))"

definition TrimSpace :: "string \<Rightarrow> string" where
  "TrimSpace s = trim_right (trim_left s)"

lemma strip_prefixes_suffix: "suffix (strip_prefixes ws s) s"
proof (induction ws s rule: strip_prefixes.induct)
  case (1 ws s)
  show ?case
  proof (cases "find (\<lambda>w. w \<noteq> [] \<and> prefix w s) ws")
    case None
    then show ?thesis by (simp add: strip_prefixes.simps [of ws s])
  next
    case (Some w)
    have "suffix (strip_prefixes ws (drop (length w) s)) (drop (length w) s)"
      using 1 Some by blast
    also have "suffix (drop (length w) s) s" by (rule suffix_drop)
    finally show ?thesis using Some by (simp add: strip_prefixes.simps [of ws s])
  qed
qed

lemma strip_prefixes_none:
  "find (\<lambda>w. w \<noteq> [] \<and> prefix w (strip_prefixes ws s)) ws = None"
proof (induction ws s rule: strip_prefixes.induct)
  case (1 ws s)
  then show ?case
    by (cases "find (\<lambda>w. w \<noteq> [] \<and> prefix w s) ws")
      (simp_all add: strip_prefixes.simps [of ws s])
qed

lemma strip_prefixes_id:
  "find (\<lambda>w. w \<noteq> [] \<and> prefix w s) ws = None \<Longrightarrow> strip_prefixes ws s = s"
  by (simp add: strip_prefixes.simps [of ws s])

lemma strip_prefixes_idem [simp]: "strip_prefixes ws (strip_prefixes ws s) = strip_prefixes ws s"
  by (rule strip_prefixes_id, rule strip_prefixes_none)

lemma strip_prefixes_of_prefix:
  assumes "prefix t s" "strip_prefixes ws s = s"
  shows "strip_prefixes ws t = t"
proof (rule strip_prefixes_id)
  have "find (\<lambda>w. w \<noteq> [] \<and> prefix w s) ws = None"
    using strip_prefixes_none [of ws s] assms(2) by simp
  then show "find (\<lambda>w. w \<noteq> [] \<and> prefix w t) ws = None"
    using assms(1) by (auto simp: find_None_all dest: prefix_order.trans)
qed

lemma trim_left_suffix: "suffix (trim_left s) s"
  by (simp add: trim_left_def strip_prefixes_suffix)

lemma trim_right_prefix: "prefix (trim_right s) s"
  using strip_prefixes_suffix [of "map rev space_runes" "rev s"]
  by (simp add: trim_right_def suffix_to_prefix)

lemma trim_right_idem [simp]: "trim_right (trim_right s) = trim_right s"
  by (simp add: trim_right_def)

lemma TrimSpace_idem [simp, go_string]: "TrimSpace (TrimSpace s) = TrimSpace s"
proof -
  have "trim_left (TrimSpace s) = TrimSpace s"
    unfolding TrimSpace_def trim_left_def
    by (rule strip_prefixes_of_prefix [OF trim_right_prefix]) simp
  then show ?thesis by (simp add: TrimSpace_def)
qed

lemma TrimSpace_sublist: "sublist (TrimSpace s) s"
proof -
  have "sublist (TrimSpace s) (trim_left s)"
    unfolding TrimSpace_def by (rule prefix_imp_sublist, rule trim_right_prefix)
  also have "sublist (trim_left s) s"
    by (rule suffix_imp_sublist, rule trim_left_suffix)
  finally show ?thesis .
qed

lemma set_TrimSpace: "set (TrimSpace s) \<subseteq> set s"
  by (rule set_mono_sublist, rule TrimSpace_sublist)

lemma length_TrimSpace: "length (TrimSpace s) \<le> length s"
  by (rule sublist_length_le, rule TrimSpace_sublist)

lemma TrimSpace_Nil [simp]: "TrimSpace [] = []"
  using length_TrimSpace [of "[]"] by simp

text \<open>A string that starts and ends with bytes that open or close no space rune is kept.\<close>

lemma TrimSpace_id:
  assumes "\<forall>w \<in> set space_runes. \<not> prefix w s"
    and "\<forall>w \<in> set space_runes. \<not> suffix w s"
  shows "TrimSpace s = s"
proof -
  have l: "trim_left s = s"
    unfolding trim_left_def by (rule strip_prefixes_id) (use assms(1) in \<open>auto simp: find_None_all\<close>)
  have "strip_prefixes (map rev space_runes) (rev s) = rev s"
    by (rule strip_prefixes_id) (use assms(2) in \<open>auto simp: find_None_all suffix_to_prefix\<close>)
  then show ?thesis by (simp add: TrimSpace_def l trim_right_def)
qed

text \<open>
  An ASCII fast path: with no space byte and no byte that can open or close a multi-byte
  space rune at its ends, a string is its own trim.
\<close>

definition plain_byte :: "char \<Rightarrow> bool" where
  "plain_byte c \<longleftrightarrow> 32 < (of_char c :: nat) \<and> (of_char c :: nat) < 128"

lemma TrimSpace_plain_ends:
  assumes "s = [] \<or> plain_byte (hd s) \<and> plain_byte (last s)"
  shows "TrimSpace s = s"
proof (cases "s = []")
  case False
  have h1: "hd w = hd s" if "prefix w s" "w \<noteq> []" for w
    using that by (auto simp: prefix_def)
  have h2: "last v = last s" if "suffix v s" "v \<noteq> []" for v
    using that by (auto simp: suffix_def)
  have b: "w \<noteq> [] \<and> \<not> plain_byte (hd w) \<and> \<not> plain_byte (last w)" if "w \<in> set space_runes" for w
    using that by (auto simp: space_runes_def plain_byte_def)
  show ?thesis
  proof (rule TrimSpace_id)
    show "\<forall>w \<in> set space_runes. \<not> prefix w s"
      using b h1 assms False by metis
    show "\<forall>w \<in> set space_runes. \<not> suffix w s"
      using b h2 assms False by metis
  qed
qed simp

lemma TrimSpace_prefix:
  assumes "s \<noteq> []" "plain_byte (hd s)"
  shows "prefix (TrimSpace s) s"
proof -
  have h: "hd w = hd s" if "prefix w s" "w \<noteq> []" for w
    using that by (auto simp: prefix_def)
  have b: "\<not> plain_byte (hd w)" if "w \<in> set space_runes" for w
    using that by (auto simp: space_runes_def plain_byte_def)
  have "\<forall>w \<in> set space_runes. \<not> (w \<noteq> [] \<and> prefix w s)"
    using h b assms(2) by metis
  then have "find (\<lambda>w. w \<noteq> [] \<and> prefix w s) space_runes = None" by (simp only: find_None_all)
  then have "trim_left s = s" by (simp add: trim_left_def strip_prefixes_id)
  then show ?thesis by (simp add: TrimSpace_def trim_right_prefix)
qed

section \<open>Trimming a cutset, splitting, joining, searching\<close>

text \<open>\<^verbatim>\<open>strings.TrimRight(s, cutset)\<close> for an ASCII cutset.\<close>

definition TrimRight :: "string \<Rightarrow> string \<Rightarrow> string" where
  "TrimRight s cutset = rev (dropWhile (\<lambda>c. c \<in> set cutset) (rev s))"

lemma TrimRight_idem [simp]: "TrimRight (TrimRight s cs) cs = TrimRight s cs"
  by (simp add: TrimRight_def)

lemma TrimRight_prefix: "prefix (TrimRight s cs) s"
  by (simp add: TrimRight_def prefix_def)
    (metis rev_append rev_rev_ident takeWhile_dropWhile_id)

lemma TrimRight_last: "TrimRight s cs \<noteq> [] \<Longrightarrow> last (TrimRight s cs) \<notin> set cs"
  by (metis TrimRight_def hd_dropWhile last_rev rev_is_Nil_conv)

text \<open>\<^verbatim>\<open>strings.Split(s, sep)\<close> with a one-byte separator.\<close>

fun Split :: "string \<Rightarrow> char \<Rightarrow> string list" where
  "Split [] sep = [[]]"
| "Split (c # s) sep =
     (if c = sep then [] # Split s sep
      else (case Split s sep of [] \<Rightarrow> [[c]] | p # ps \<Rightarrow> (c # p) # ps))"

fun Join :: "string list \<Rightarrow> string \<Rightarrow> string" where
  "Join [] sep = []"
| "Join [p] sep = p"
| "Join (p # q # ps) sep = p @ sep @ Join (q # ps) sep"

lemma Split_not_Nil [simp]: "Split s sep \<noteq> []"
  by (cases s) (auto split: list.splits)

lemma Split_hd: "hd (Split s sep) = takeWhile (\<lambda>c. c \<noteq> sep) s"
  by (induction s) (auto split: list.splits)

lemma Split_no_sep: "p \<in> set (Split s sep) \<Longrightarrow> sep \<notin> set p"
  by (induction s arbitrary: p) (fastforce split: list.splits if_splits)+

lemma Join_Split [simp]: "Join (Split s sep) [sep] = s"
proof (induction s)
  case (Cons c s)
  then show ?case
    by (cases "Split s sep"; cases "tl (Split s sep)") (auto split: list.splits)
qed simp

lemma Split_append_sep:
  "sep \<notin> set p \<Longrightarrow> Split (p @ sep # s) sep = p # Split s sep"
  by (induction p) auto

lemma Split_single: "sep \<notin> set p \<Longrightarrow> Split p sep = [p]"
  by (induction p) auto

lemma Split_Join:
  "ps \<noteq> [] \<Longrightarrow> \<forall>p \<in> set ps. sep \<notin> set p \<Longrightarrow> Split (Join ps [sep]) sep = ps"
proof (induction ps "[sep]" rule: Join.induct)
  case (3 p q ps)
  then show ?case using Split_append_sep [of sep p "Join (q # ps) [sep]"] by simp
qed (auto simp: Split_single)

text \<open>\<^verbatim>\<open>strings.LastIndex\<close> and \<^verbatim>\<open>Contains\<close> of a one-byte string; -1 is absent.\<close>

fun LastIndex :: "string \<Rightarrow> char \<Rightarrow> int" where
  "LastIndex [] c = -1"
| "LastIndex (x # s) c =
     (let i = LastIndex s c in if 0 \<le> i then i + 1 else if x = c then 0 else -1)"

definition HasPrefix :: "string \<Rightarrow> string \<Rightarrow> bool" where
  "HasPrefix s p \<longleftrightarrow> prefix p s"

definition ContainsAny :: "string \<Rightarrow> string \<Rightarrow> bool" where
  "ContainsAny s cs \<longleftrightarrow> list_ex (\<lambda>c. c \<in> set cs) s"

lemma ContainsAny_iff: "ContainsAny s cs \<longleftrightarrow> set s \<inter> set cs \<noteq> {}"
  by (auto simp: ContainsAny_def list_ex_iff)

lemma LastIndex_bound: "-1 \<le> LastIndex s c \<and> LastIndex s c < int (length s)"
  by (induction s) (auto simp: Let_def)

lemma LastIndex_absent: "LastIndex s c = -1 \<longleftrightarrow> c \<notin> set s"
  using LastIndex_bound by (induction s) (auto simp: Let_def, smt (verit, ccfv_threshold))

lemma LastIndex_split:
  "0 \<le> LastIndex s c \<Longrightarrow>
     s = take (nat (LastIndex s c)) s @ c # drop (nat (LastIndex s c) + 1) s
     \<and> c \<notin> set (drop (nat (LastIndex s c) + 1) s)"
proof (induction s)
  case (Cons x s)
  show ?case
  proof (cases "0 \<le> LastIndex s c")
    case True
    with Cons.IH show ?thesis by (simp add: nat_add_distrib)
  next
    case False
    then have "LastIndex s c = -1" using LastIndex_bound [of s c] by linarith
    then have "c \<notin> set s" by (simp add: LastIndex_absent)
    with False Cons.prems show ?thesis by (auto simp: Let_def split: if_splits)
  qed
qed simp

section \<open>Case\<close>

text \<open>
  \<^verbatim>\<open>strings.ToLower\<close> maps ASCII strings byte by byte; any other string goes through
  the Unicode tables, the argument \<open>uni\<close>.
\<close>

definition is_ascii :: "string \<Rightarrow> bool" where
  "is_ascii s \<longleftrightarrow> list_all (\<lambda>c. (of_char c :: nat) < 128) s"

definition ascii_lower :: "char \<Rightarrow> char" where
  "ascii_lower c = (let n = (of_char c :: nat) in if 65 \<le> n \<and> n \<le> 90 then char_of (n + 32) else c)"

definition ascii_upper :: "char \<Rightarrow> char" where
  "ascii_upper c = (let n = (of_char c :: nat) in if 97 \<le> n \<and> n \<le> 122 then char_of (n - 32) else c)"

definition ToLower :: "(string \<Rightarrow> string) \<Rightarrow> string \<Rightarrow> string" where
  "ToLower uni s = (if is_ascii s then map ascii_lower s else uni s)"

definition ToUpper :: "(string \<Rightarrow> string) \<Rightarrow> string \<Rightarrow> string" where
  "ToUpper uni s = (if is_ascii s then map ascii_upper s else uni s)"

text \<open>
  \<^verbatim>\<open>strings.EqualFold(s, "XX")\<close>: the letter X folds with x only, so no rune outside
  ASCII is equal to it under folding.
\<close>

definition EqualFold_XX :: "string \<Rightarrow> bool" where
  "EqualFold_XX s \<longleftrightarrow> s \<in> {''XX'', ''Xx'', ''xX'', ''xx''}"

section \<open>Numbers and bytes\<close>

fun dec_digits :: "nat \<Rightarrow> string" where
  "dec_digits n =
     (if n < 10 then [char_of (48 + n)] else dec_digits (n div 10) @ [char_of (48 + n mod 10)])"

declare dec_digits.simps [simp del]

text \<open>\<^verbatim>\<open>fmt.Sprintf("%d", n)\<close>.\<close>

definition Itoa :: "int \<Rightarrow> string" where
  "Itoa i = (if i < 0 then CHR ''-'' # dec_digits (nat (- i)) else dec_digits (nat i))"

definition hex_digit :: "nat \<Rightarrow> char" where
  "hex_digit n = ''0123456789abcdef'' ! (n mod 16)"

text \<open>\<^verbatim>\<open>hex.EncodeToString\<close>.\<close>

definition hex_encode :: "8 word list \<Rightarrow> string" where
  "hex_encode bs = concat (map (\<lambda>b. [hex_digit (unat b div 16), hex_digit (unat b mod 16)]) bs)"

lemma length_hex_encode [simp]: "length (hex_encode bs) = 2 * length bs"
  by (induction bs) (auto simp: hex_encode_def)

lemma hex_encode_inj: "hex_encode xs = hex_encode ys \<longleftrightarrow> xs = ys"
proof (induction xs arbitrary: ys)
  case Nil
  show ?case by (cases ys) (simp_all add: hex_encode_def)
next
  case (Cons x xs)
  have dig: "hex_digit a = hex_digit b \<Longrightarrow> a < 16 \<Longrightarrow> b < 16 \<Longrightarrow> a = b" for a b
  proof -
    have "\<forall>a \<in> set [0..<16]. \<forall>b \<in> set [0..<16]. hex_digit a = hex_digit b \<longrightarrow> a = b" by code_simp
    then show "hex_digit a = hex_digit b \<Longrightarrow> a < 16 \<Longrightarrow> b < 16 \<Longrightarrow> a = b" by simp
  qed
  have byte: "x = y" if "hex_digit (unat x div 16) = hex_digit (unat y div 16)"
      "hex_digit (unat x mod 16) = hex_digit (unat y mod 16)" for y :: "8 word"
  proof -
    have "unat z div 16 < 16" for z :: "8 word" using unsigned_less [of z, where 'a = nat] by (simp add: less_mult_imp_div_less)
    then have "unat x div 16 = unat y div 16" "unat x mod 16 = unat y mod 16" using dig that by simp_all
    then have "unat x = unat y" by (metis div_mult_mod_eq)
    then show ?thesis by (rule unsigned_word_eqI)
  qed
  show ?case
    using Cons byte by (cases ys) (auto simp: hex_encode_def)
qed

definition is_hex_lower :: "char \<Rightarrow> bool" where
  "is_hex_lower c \<longleftrightarrow> CHR ''0'' \<le> c \<and> c \<le> CHR ''9'' \<or> CHR ''a'' \<le> c \<and> c \<le> CHR ''f''"

text \<open>\<^verbatim>\<open>base64.StdEncoding\<close> (padded) and \<^verbatim>\<open>base64.RawURLEncoding\<close>, on byte values.\<close>

fun base64 :: "string \<Rightarrow> bool \<Rightarrow> nat list \<Rightarrow> string" where
  "base64 alph pad [] = []"
| "base64 alph pad [a] =
     [alph ! (a div 4), alph ! ((a mod 4) * 16)] @ (if pad then ''=='' else [])"
| "base64 alph pad [a, b] =
     [alph ! (a div 4), alph ! ((a mod 4) * 16 + b div 16), alph ! ((b mod 16) * 4)] @
     (if pad then ''='' else [])"
| "base64 alph pad (a # b # c # bs) =
     [alph ! (a div 4), alph ! ((a mod 4) * 16 + b div 16), alph ! ((b mod 16) * 4 + c div 64),
      alph ! (c mod 64)] @ base64 alph pad bs"

definition b64_alphabet :: string where
  "b64_alphabet = ''ABCDEFGHIJKLMNOPQRSTUVWXYZabcdefghijklmnopqrstuvwxyz0123456789''"

definition StdEncoding :: "string \<Rightarrow> string" where
  "StdEncoding s = base64 (b64_alphabet @ ''+/'') True (map of_char s)"

definition RawURLEncoding :: "8 word list \<Rightarrow> string" where
  "RawURLEncoding bs = base64 (b64_alphabet @ ''-_'') False (map unat bs)"

text \<open>\<^verbatim>\<open>utf8.ValidString\<close>: shortest forms, no surrogates, up to U+10FFFF.\<close>

definition byte_in :: "char \<Rightarrow> nat \<Rightarrow> nat \<Rightarrow> bool" where
  "byte_in c lo hi \<longleftrightarrow> lo \<le> of_char c \<and> of_char c \<le> hi"

fun utf8_tail :: "(nat \<times> nat) list \<Rightarrow> string \<Rightarrow> string option" where
  "utf8_tail [] s = Some s"
| "utf8_tail (r # rs) [] = None"
| "utf8_tail (r # rs) (c # s) = (if byte_in c (fst r) (snd r) then utf8_tail rs s else None)"

text \<open>The bytes that may follow a first byte.\<close>

definition utf8_ranges :: "char \<Rightarrow> (nat \<times> nat) list option" where
  "utf8_ranges c =
     (let any = (0x80, 0xBF) in
      if byte_in c 0 0x7F then Some []
      else if byte_in c 0xC2 0xDF then Some [any]
      else if byte_in c 0xE0 0xE0 then Some [(0xA0, 0xBF), any]
      else if byte_in c 0xED 0xED then Some [(0x80, 0x9F), any]
      else if byte_in c 0xE1 0xEF then Some [any, any]
      else if byte_in c 0xF0 0xF0 then Some [(0x90, 0xBF), any, any]
      else if byte_in c 0xF1 0xF3 then Some [any, any, any]
      else if byte_in c 0xF4 0xF4 then Some [(0x80, 0x8F), any, any]
      else None)"

lemma utf8_tail_length: "utf8_tail rs s = Some t \<Longrightarrow> length t \<le> length s"
  by (induction rs s rule: utf8_tail.induct) (auto split: if_splits)

function utf8_valid :: "string \<Rightarrow> bool" where
  "utf8_valid [] = True"
| "utf8_valid (c # s) =
     (case utf8_ranges c of
        None \<Rightarrow> False
      | Some rs \<Rightarrow> (case utf8_tail rs s of None \<Rightarrow> False | Some t \<Rightarrow> utf8_valid t))"
  by pat_completeness auto

termination utf8_valid
  by (relation "measure length") (auto simp: less_Suc_eq_le utf8_tail_length)

lemma utf8_valid_ascii [simp]: "is_ascii s \<Longrightarrow> utf8_valid s"
  by (induction s) (auto simp: is_ascii_def utf8_ranges_def byte_in_def)

lemma utf8_valid_ascii_append: "is_ascii s \<Longrightarrow> utf8_valid (s @ t) = utf8_valid t"
  by (induction s) (auto simp: is_ascii_def utf8_ranges_def byte_in_def)

declare utf8_valid.simps(2) [simp del]

lemma base64_chars: "\<forall>b \<in> set bs. b < 256 \<Longrightarrow> 64 \<le> length alph \<Longrightarrow> set (base64 alph pad bs) \<subseteq> insert (CHR ''='') (set alph)"
proof (induction alph pad bs rule: base64.induct)
  case (4 alph pad a b c bs)
  have "a div 4 < 64" "(a mod 4) * 16 + b div 16 < 64" "(b mod 16) * 4 + c div 64 < 64" "c mod 64 < 64"
    using 4(2) by (auto simp: less_mult_imp_div_less)
  then show ?case using 4 by auto
qed (auto simp: less_mult_imp_div_less)

lemma RawURLEncoding_ascii: "is_ascii (RawURLEncoding bs)"
proof -
  have "\<forall>b \<in> set (map unat bs). b < 256"
    using unsigned_less [where 'b = 8 and 'a = nat] by auto
  moreover have "64 \<le> length (b64_alphabet @ ''-_'')" by (simp add: b64_alphabet_def)
  ultimately have "set (RawURLEncoding bs) \<subseteq> insert (CHR ''='') (set (b64_alphabet @ ''-_''))"
    unfolding RawURLEncoding_def by (rule base64_chars)
  moreover have "list_all (\<lambda>c. (of_char c :: nat) < 128) (CHR ''='' # b64_alphabet @ ''-_'')" by code_simp
  ultimately show ?thesis unfolding is_ascii_def list_all_iff by auto
qed

lemma RawURLEncoding_Nil: "RawURLEncoding bs = [] \<longleftrightarrow> bs = []"
proof (cases bs)
  case (Cons a cs)
  then show ?thesis
    by (cases cs; cases "tl cs") (auto simp: RawURLEncoding_def neq_Nil_conv)
qed (simp add: RawURLEncoding_def)

end
