(* ===== verification/Schema.thy ===== *)
theory Schema
  imports Go_Strings
begin

text \<open>
  The Postgres schema of \<^verbatim>\<open>internal/db/migrations\<close>: one record per table row, the
  database as the list of rows of each table, keyed-table operations with the primary key
  constraint, cascading deletion of bins, and the constraints the engine enforces.
  A column of type TIMESTAMPTZ keeps microseconds (\<open>pg_time\<close>), JSONB columns keep text.
\<close>

section \<open>Rows\<close>

text \<open>\<^verbatim>\<open>webhook.Bin\<close>, also the row of table \<^verbatim>\<open>webhook_bins\<close>.\<close>

record bin =
  b_id :: string
  b_user :: string
  b_name :: string
  b_created :: time
  b_expires :: time
  b_hits :: int
  b_last :: "time option"

text \<open>
  \<^verbatim>\<open>webhook.Hit\<close> has its two string maps as association lists; the row of table
  \<^verbatim>\<open>webhook_hits\<close> has them as JSONB text.
\<close>

type_synonym str_map = "(string \<times> string) list"

record 'm hit =
  h_id :: string
  h_bin :: string
  h_received :: time
  h_method :: string
  h_path :: string
  h_query :: string
  h_params :: 'm
  h_headers :: 'm
  h_ctype :: string
  h_body :: string
  h_trunc :: bool
  h_bytes :: int
  h_ip :: string
  h_agent :: string

type_synonym hit_row = "string hit"
type_synonym go_hit = "str_map hit"

text \<open>\<^verbatim>\<open>user.User\<close>, also the row of table \<^verbatim>\<open>users\<close>.\<close>

record user_row =
  u_id :: string
  u_email :: string
  u_name :: string
  u_picture :: string
  u_status :: string
  u_created :: time
  u_login :: time
  u_login_ip :: string

record visitor_row =
  v_fp :: string
  v_visitor :: string
  v_session :: string
  v_ip :: string
  v_agent :: string
  v_referer :: string
  v_origin :: string
  v_country :: string
  v_city :: string
  v_user :: "string option"
  v_first_seen :: time
  v_last_seen :: time
  v_path :: string

record db =
  webhook_bins :: "bin list"
  webhook_hits :: "hit_row list"
  users :: "user_row list"
  visitors :: "visitor_row list"

definition empty_db :: db where
  "empty_db = \<lparr>webhook_bins = [], webhook_hits = [], users = [], visitors = []\<rparr>"

text \<open>What a TIMESTAMPTZ column keeps of an instant.\<close>

definition pg_time :: "time \<Rightarrow> time" where
  "pg_time t = t - t mod 1000"

lemma pg_time_le: "pg_time t \<le> t"
  by (simp add: pg_time_def)

lemma pg_time_gt: "t - 1000 < pg_time t"
  using pos_mod_bound [of 1000 t] by (simp add: pg_time_def)

lemma pg_time_idem [simp]: "pg_time (pg_time t) = pg_time t"
proof -
  have "1000 dvd t - t mod 1000" by (rule dvd_minus_mod)
  then have "(t - t mod 1000) mod 1000 = 0" by (simp only: dvd_eq_mod_eq_0)
  then show ?thesis by (simp add: pg_time_def)
qed

lemma pg_time_mono: "s \<le> t \<Longrightarrow> pg_time s \<le> pg_time t"
proof -
  assume "s \<le> t"
  then have "s div 1000 \<le> t div 1000" by (rule zdiv_mono1) simp
  then show ?thesis by (simp add: pg_time_def minus_mod_eq_mult_div)
qed

lemma pg_time_add: "pg_time (t + 1000 * k) = pg_time t + 1000 * k"
  by (simp add: pg_time_def)

section \<open>Keyed tables\<close>

definition tbl_lookup :: "('r \<Rightarrow> string) \<Rightarrow> string \<Rightarrow> 'r list \<Rightarrow> 'r option" where
  "tbl_lookup pk k rows = find (\<lambda>r. pk r = k) rows"

text \<open>INSERT: \<^const>\<open>None\<close> is a violation of the primary key.\<close>

definition tbl_insert :: "('r \<Rightarrow> string) \<Rightarrow> 'r \<Rightarrow> 'r list \<Rightarrow> 'r list option" where
  "tbl_insert pk r rows =
     (if pk r \<in> set (map pk rows) then None else Some (rows @ [r]))"

definition tbl_delete :: "('r \<Rightarrow> string) \<Rightarrow> string \<Rightarrow> 'r list \<Rightarrow> 'r list" where
  "tbl_delete pk k rows = filter (\<lambda>r. pk r \<noteq> k) rows"

definition tbl_update :: "('r \<Rightarrow> string) \<Rightarrow> string \<Rightarrow> ('r \<Rightarrow> 'r) \<Rightarrow> 'r list \<Rightarrow> 'r list" where
  "tbl_update pk k f rows = map (\<lambda>r. if pk r = k then f r else r) rows"

text \<open>INSERT ... ON CONFLICT (pk) DO UPDATE.\<close>

definition tbl_upsert :: "('r \<Rightarrow> string) \<Rightarrow> 'r \<Rightarrow> ('r \<Rightarrow> 'r) \<Rightarrow> 'r list \<Rightarrow> 'r list" where
  "tbl_upsert pk r f rows =
     (case tbl_insert pk r rows of Some rows' \<Rightarrow> rows' | None \<Rightarrow> tbl_update pk (pk r) f rows)"

definition tbl_ok :: "('r \<Rightarrow> string) \<Rightarrow> 'r list \<Rightarrow> bool" where
  "tbl_ok pk rows \<longleftrightarrow> distinct (map pk rows)"

text \<open>The contract of a keyed table: what a lookup sees after each write.\<close>

locale keyed_table =
  fixes pk :: "'r \<Rightarrow> string"
    and lookup :: "string \<Rightarrow> 't \<Rightarrow> 'r option"
    and insert_row :: "'r \<Rightarrow> 't \<Rightarrow> 't option"
    and delete_row :: "string \<Rightarrow> 't \<Rightarrow> 't"
    and update_row :: "string \<Rightarrow> ('r \<Rightarrow> 'r) \<Rightarrow> 't \<Rightarrow> 't"
    and ok :: "'t \<Rightarrow> bool"
  assumes lookup_pk: "lookup k t = Some r \<Longrightarrow> pk r = k"
    and insert_conflict: "insert_row r t = None \<longleftrightarrow> lookup (pk r) t \<noteq> None"
    and lookup_insert: "insert_row r t = Some t' \<Longrightarrow>
          lookup k t' = (if k = pk r then Some r else lookup k t)"
    and lookup_delete: "lookup k (delete_row j t) = (if k = j then None else lookup k t)"
    and lookup_update: "(\<And>r. pk (f r) = pk r) \<Longrightarrow>
          lookup k (update_row j f t) = (if k = j then map_option f (lookup k t) else lookup k t)"
    and ok_insert: "ok t \<Longrightarrow> insert_row r t = Some t' \<Longrightarrow> ok t'"
    and ok_delete: "ok t \<Longrightarrow> ok (delete_row j t)"
    and ok_update: "ok t \<Longrightarrow> (\<And>r. pk (f r) = pk r) \<Longrightarrow> ok (update_row j f t)"
begin

lemma insert_fresh: "lookup (pk r) t = None \<Longrightarrow> \<exists>t'. insert_row r t = Some t'"
  using insert_conflict by (cases "insert_row r t") auto

lemma insert_delete:
  "insert_row r t = Some t' \<Longrightarrow> lookup k (delete_row (pk r) t') = lookup k t"
  using insert_conflict [of r t] by (auto simp: lookup_delete lookup_insert)

lemma upsert_lookup:
  assumes "\<And>r. pk (f r) = pk r"
  shows "lookup k (case insert_row r t of Some t' \<Rightarrow> t' | None \<Rightarrow> update_row (pk r) f t) =
    (if k = pk r then (case lookup k t of None \<Rightarrow> Some r | Some r0 \<Rightarrow> Some (f r0)) else lookup k t)"
proof (cases "insert_row r t")
  case None
  then obtain r0 where "lookup (pk r) t = Some r0" using insert_conflict [of r t] by auto
  with None assms show ?thesis by (auto simp: lookup_update)
next
  case (Some t')
  then have "lookup (pk r) t = None" using insert_conflict [of r t] by auto
  with Some show ?thesis by (auto simp: lookup_insert)
qed

lemma upsert_ok:
  "ok t \<Longrightarrow> (\<And>r. pk (f r) = pk r) \<Longrightarrow>
     ok (case insert_row r t of Some t' \<Rightarrow> t' | None \<Rightarrow> update_row (pk r) f t)"
  by (auto split: option.split intro: ok_insert ok_update)

end

lemma find_append: "find P (xs @ ys) = (case find P xs of None \<Rightarrow> find P ys | Some x \<Rightarrow> Some x)"
  by (induction xs) auto

lemma tbl_lookup_mem: "tbl_lookup pk k rows = Some r \<Longrightarrow> r \<in> set rows \<and> pk r = k"
  by (auto simp: tbl_lookup_def dest: find_Some_mem)

lemma tbl_lookup_None: "tbl_lookup pk k rows = None \<longleftrightarrow> k \<notin> set (map pk rows)"
  by (auto simp: tbl_lookup_def find_None_all)

lemma tbl_lookup_mem_iff:
  "tbl_ok pk rows \<Longrightarrow> tbl_lookup pk k rows = Some r \<longleftrightarrow> r \<in> set rows \<and> pk r = k"
  by (simp add: tbl_ok_def tbl_lookup_def find_key_Some_iff)

lemma tbl_lookup_delete:
  "tbl_lookup pk k (tbl_delete pk j rows) = (if k = j then None else tbl_lookup pk k rows)"
  by (induction rows) (auto simp: tbl_lookup_def tbl_delete_def find_None_all)

lemma tbl_lookup_update:
  "(\<And>r. pk (f r) = pk r) \<Longrightarrow>
     tbl_lookup pk k (tbl_update pk j f rows) =
       (if k = j then map_option f (tbl_lookup pk k rows) else tbl_lookup pk k rows)"
  by (induction rows) (auto simp: tbl_lookup_def tbl_update_def)

lemma map_pk_update: "(\<And>r. pk (f r) = pk r) \<Longrightarrow> map pk (tbl_update pk j f rows) = map pk rows"
  by (simp add: tbl_update_def)

lemma distinct_map_delete: "distinct (map pk rows) \<Longrightarrow> distinct (map pk (tbl_delete pk j rows))"
  by (simp add: tbl_delete_def distinct_map_filter_inj)

lemma keyed_table_list:
  "keyed_table pk (tbl_lookup pk) (tbl_insert pk) (tbl_delete pk) (tbl_update pk) (tbl_ok pk)"
proof
  show "tbl_insert pk r t = None \<longleftrightarrow> tbl_lookup pk (pk r) t \<noteq> None" for r t
    by (simp add: tbl_insert_def tbl_lookup_None)
  show "tbl_lookup pk k t' = (if k = pk r then Some r else tbl_lookup pk k t)"
    if "tbl_insert pk r t = Some t'" for r t t' k
    using that tbl_lookup_None [of pk k t]
    by (auto simp: tbl_insert_def tbl_lookup_def find_append image_iff
        split: if_splits option.splits)
  show "tbl_ok pk t'" if "tbl_ok pk t" "tbl_insert pk r t = Some t'" for r t t'
    using that by (auto simp: tbl_ok_def tbl_insert_def split: if_splits)
qed (auto simp: tbl_lookup_delete tbl_lookup_update tbl_ok_def map_pk_update
    dest: tbl_lookup_mem intro: distinct_map_delete)

interpretation bins_tbl: keyed_table b_id "tbl_lookup b_id" "tbl_insert b_id" "tbl_delete b_id"
    "tbl_update b_id" "tbl_ok b_id"
  by (rule keyed_table_list)

interpretation hits_tbl: keyed_table h_id "tbl_lookup h_id" "tbl_insert h_id" "tbl_delete h_id"
    "tbl_update h_id" "tbl_ok h_id"
  by (rule keyed_table_list)

interpretation users_tbl: keyed_table u_id "tbl_lookup u_id" "tbl_insert u_id" "tbl_delete u_id"
    "tbl_update u_id" "tbl_ok u_id"
  by (rule keyed_table_list)

interpretation visitors_tbl: keyed_table v_fp "tbl_lookup v_fp" "tbl_insert v_fp" "tbl_delete v_fp"
    "tbl_update v_fp" "tbl_ok v_fp"
  by (rule keyed_table_list)

section \<open>Constraints the engine keeps\<close>

text \<open>
  Primary keys, \<^verbatim>\<open>webhook_hits.bin_id REFERENCES webhook_bins(id)\<close> and
  \<^verbatim>\<open>visitors.user_id REFERENCES users(id)\<close>.
\<close>

definition hits_fk :: "db \<Rightarrow> bool" where
  "hits_fk d \<longleftrightarrow> (\<forall>h \<in> set (webhook_hits d). h_bin h \<in> b_id ` set (webhook_bins d))"

definition visitors_fk :: "db \<Rightarrow> bool" where
  "visitors_fk d \<longleftrightarrow> (\<forall>v \<in> set (visitors d). set_option (v_user v) \<subseteq> u_id ` set (users d))"

definition db_ok :: "db \<Rightarrow> bool" where
  "db_ok d \<longleftrightarrow>
     tbl_ok b_id (webhook_bins d) \<and> tbl_ok h_id (webhook_hits d) \<and>
     tbl_ok u_id (users d) \<and> tbl_ok v_fp (visitors d) \<and> hits_fk d \<and> visitors_fk d"

text \<open>DELETE FROM webhook_bins WHERE ..., with ON DELETE CASCADE on the hits.\<close>

definition delete_bins :: "(bin \<Rightarrow> bool) \<Rightarrow> db \<Rightarrow> db" where
  "delete_bins P d =
     d\<lparr>webhook_bins := filter (\<lambda>b. \<not> P b) (webhook_bins d),
       webhook_hits := filter (\<lambda>h. h_bin h \<notin> set (map b_id (filter P (webhook_bins d))))
                         (webhook_hits d)\<rparr>"

definition bins_of :: "string \<Rightarrow> db \<Rightarrow> bin list" where
  "bins_of u d = filter (\<lambda>b. b_user b = u) (webhook_bins d)"

definition hits_of :: "string \<Rightarrow> db \<Rightarrow> hit_row list" where
  "hits_of b d = filter (\<lambda>h. h_bin h = b) (webhook_hits d)"

definition get_bin :: "db \<Rightarrow> string \<Rightarrow> bin option" where
  "get_bin d b = tbl_lookup b_id b (webhook_bins d)"

lemma delete_bins_frame [simp]:
  "users (delete_bins P d) = users d" "visitors (delete_bins P d) = visitors d"
  by (simp_all add: delete_bins_def)

lemma bins_of_delete [simp]: "bins_of u (delete_bins P d) = filter (\<lambda>b. \<not> P b) (bins_of u d)"
  by (auto simp: bins_of_def delete_bins_def intro: filter_cong)

lemma get_bin_mem: "get_bin d k = Some b \<Longrightarrow> b \<in> set (webhook_bins d) \<and> b_id b = k"
  by (auto simp: get_bin_def dest: tbl_lookup_mem)

lemma get_bin_None: "get_bin d k = None \<longleftrightarrow> k \<notin> set (map b_id (webhook_bins d))"
  by (simp add: get_bin_def tbl_lookup_None)

lemma get_bin_iff: "db_ok d \<Longrightarrow> get_bin d k = Some b \<longleftrightarrow> b \<in> set (webhook_bins d) \<and> b_id b = k"
  by (simp add: get_bin_def db_ok_def tbl_lookup_mem_iff)

lemma get_bin_delete:
  "db_ok d \<Longrightarrow> get_bin (delete_bins P d) k =
     (case get_bin d k of None \<Rightarrow> None | Some b \<Rightarrow> if P b then None else Some b)"
  by (auto simp: get_bin_def delete_bins_def db_ok_def tbl_ok_def tbl_lookup_def find_None_all
      find_key_Some_iff distinct_map_filter_inj split: option.split dest: find_Some_mem
      distinct_map_unique)

lemma hits_of_delete:
  "db_ok d \<Longrightarrow> get_bin d k = Some b \<Longrightarrow>
     hits_of k (delete_bins P d) = (if P b then [] else hits_of k d)"
  by (auto simp: hits_of_def delete_bins_def get_bin_iff db_ok_def tbl_ok_def filter_empty_conv
      intro!: filter_cong dest: distinct_map_unique)

lemma hits_fk_delete: "hits_fk d \<Longrightarrow> hits_fk (delete_bins P d)"
  by (fastforce simp: hits_fk_def delete_bins_def image_iff)

lemma db_ok_delete: "db_ok d \<Longrightarrow> db_ok (delete_bins P d)"
  using hits_fk_delete [of d P] by (auto simp: db_ok_def tbl_ok_def visitors_fk_def delete_bins_def
      distinct_map_filter_inj)

end
