(* ===== verification/Valkey.thy ===== *)
theory Valkey
  imports Schema
begin

text \<open>
  The Valkey (Redis) service as the program sees it through \<^verbatim>\<open>go-redis\<close>: neither is
  under \<^verbatim>\<open>src/\<close>, so the client is a record of command functions, an argument of
  every definition that talks to it. \<open>valkey_spec\<close> states the documented behaviour of the
  commands the program sends; \<open>mem_valkey\<close> is a concrete client that satisfies it.
\<close>

section \<open>The client\<close>

text \<open>
  Each command gets the number of the interaction, the key, its operands and the state of
  the service; it returns an error text or a result. \<open>kv_clock\<close> is the service's clock at
  an interaction.
\<close>

record 'k valkey =
  kv_clock :: "nat \<Rightarrow> time"
  kv_Incr :: "nat \<Rightarrow> string \<Rightarrow> 'k \<Rightarrow> (string + int) \<times> 'k"
  kv_Expire :: "nat \<Rightarrow> string \<Rightarrow> duration \<Rightarrow> 'k \<Rightarrow> (string + bool) \<times> 'k"
  kv_TTL :: "nat \<Rightarrow> string \<Rightarrow> 'k \<Rightarrow> (string + duration) \<times> 'k"
  kv_Set :: "nat \<Rightarrow> string \<Rightarrow> string \<Rightarrow> duration \<Rightarrow> 'k \<Rightarrow> (string + unit) \<times> 'k"
  kv_Del :: "nat \<Rightarrow> string \<Rightarrow> 'k \<Rightarrow> (string + int) \<times> 'k"
  kv_Exists :: "nat \<Rightarrow> string \<Rightarrow> 'k \<Rightarrow> (string + int) \<times> 'k"
  kv_SetNX :: "nat \<Rightarrow> string \<Rightarrow> string \<Rightarrow> duration \<Rightarrow> 'k \<Rightarrow> (string + bool) \<times> 'k"
  kv_Ping :: "nat \<Rightarrow> 'k \<Rightarrow> (string + unit) \<times> 'k"

section \<open>Documented behaviour\<close>

text \<open>
  An entry is an integer value with an optional deadline (the program stores counters and
  the value 1 only); it is live while the clock is before the deadline.
\<close>

type_synonym kv_entry = "int \<times> time option"
type_synonym kv_map = "string \<rightharpoonup> kv_entry"

definition live :: "time \<Rightarrow> string \<Rightarrow> kv_map \<Rightarrow> kv_entry option" where
  "live t key m =
     (case m key of
        Some (v, Some d) \<Rightarrow> if t < d then Some (v, Some d) else None
      | e \<Rightarrow> e)"

definition kv_incr_spec :: "time \<Rightarrow> string \<Rightarrow> kv_map \<Rightarrow> int \<times> kv_map" where
  "kv_incr_spec t key m =
     (case live t key m of
        None \<Rightarrow> (1, m(key \<mapsto> (1, None)))
      | Some (v, d) \<Rightarrow> (v + 1, m(key \<mapsto> (v + 1, d))))"

definition kv_expire_spec :: "time \<Rightarrow> string \<Rightarrow> duration \<Rightarrow> kv_map \<Rightarrow> kv_map" where
  "kv_expire_spec t key d m =
     (case live t key m of None \<Rightarrow> m | Some (v, _) \<Rightarrow> m(key \<mapsto> (v, Some (t + d))))"

definition kv_ttl_spec :: "time \<Rightarrow> string \<Rightarrow> kv_map \<Rightarrow> duration \<Rightarrow> bool" where
  "kv_ttl_spec t key m r \<longleftrightarrow>
     (case live t key m of
        None \<Rightarrow> r = -2
      | Some (v, None) \<Rightarrow> r = -1
      | Some (v, Some d) \<Rightarrow> 0 \<le> r \<and> r \<le> d - t + Second)"

text \<open>Lifetimes of SET are kept to the millisecond, at least one; 0 is no deadline.\<close>

definition kv_px :: "duration \<Rightarrow> duration" where
  "kv_px d = (if d < 1000000 then 1000000 else d - d mod 1000000)"

definition kv_set_spec :: "time \<Rightarrow> string \<Rightarrow> duration \<Rightarrow> kv_map \<Rightarrow> kv_map" where
  "kv_set_spec t key d m = m(key \<mapsto> (1, if d = 0 then None else Some (t + kv_px d)))"

text \<open>
  A command that reports success had its effect; one that reports an error may or may not
  have had it (a timeout says nothing); reads change nothing.
\<close>

definition kv_effect :: "('e + 'a) \<Rightarrow> kv_map \<Rightarrow> kv_map \<Rightarrow> kv_map \<Rightarrow> bool" where
  "kv_effect r m m' m'' \<longleftrightarrow> m' = m'' \<or> (\<exists>e. r = Inl e) \<and> m' = m"

definition spec_Incr :: "'k valkey \<Rightarrow> ('k \<Rightarrow> kv_map) \<Rightarrow> bool" where
  "spec_Incr kv view \<longleftrightarrow>
     (\<forall>n key k r k'. kv_Incr kv n key k = (r, k') \<longrightarrow>
        kv_effect r (view k) (view k') (snd (kv_incr_spec (kv_clock kv n) key (view k))) \<and>
        (\<forall>v. r = Inr v \<longrightarrow> v = fst (kv_incr_spec (kv_clock kv n) key (view k))))"

definition spec_Expire :: "'k valkey \<Rightarrow> ('k \<Rightarrow> kv_map) \<Rightarrow> bool" where
  "spec_Expire kv view \<longleftrightarrow>
     (\<forall>n key d k r k'. kv_Expire kv n key d k = (r, k') \<longrightarrow>
        kv_effect r (view k) (view k') (kv_expire_spec (kv_clock kv n) key d (view k)))"

definition spec_TTL :: "'k valkey \<Rightarrow> ('k \<Rightarrow> kv_map) \<Rightarrow> bool" where
  "spec_TTL kv view \<longleftrightarrow>
     (\<forall>n key k r k'. kv_TTL kv n key k = (r, k') \<longrightarrow>
        view k' = view k \<and> (\<forall>v. r = Inr v \<longrightarrow> kv_ttl_spec (kv_clock kv n) key (view k) v))"

definition spec_Set :: "'k valkey \<Rightarrow> ('k \<Rightarrow> kv_map) \<Rightarrow> bool" where
  "spec_Set kv view \<longleftrightarrow>
     (\<forall>n key d k r k'. kv_Set kv n key ''1'' d k = (r, k') \<longrightarrow>
        kv_effect r (view k) (view k') (kv_set_spec (kv_clock kv n) key d (view k)))"

definition spec_Del :: "'k valkey \<Rightarrow> ('k \<Rightarrow> kv_map) \<Rightarrow> bool" where
  "spec_Del kv view \<longleftrightarrow>
     (\<forall>n key k r k'. kv_Del kv n key k = (r, k') \<longrightarrow>
        kv_effect r (view k) (view k') ((view k)(key := None)))"

definition spec_Exists :: "'k valkey \<Rightarrow> ('k \<Rightarrow> kv_map) \<Rightarrow> bool" where
  "spec_Exists kv view \<longleftrightarrow>
     (\<forall>n key k r k'. kv_Exists kv n key k = (r, k') \<longrightarrow>
        view k' = view k \<and>
        (\<forall>v. r = Inr v \<longrightarrow> v = (if live (kv_clock kv n) key (view k) = None then 0 else 1)))"

definition spec_SetNX :: "'k valkey \<Rightarrow> ('k \<Rightarrow> kv_map) \<Rightarrow> bool" where
  "spec_SetNX kv view \<longleftrightarrow>
     (\<forall>n key d k r k'. kv_SetNX kv n key ''1'' d k = (r, k') \<longrightarrow>
        (if live (kv_clock kv n) key (view k) = None
         then kv_effect r (view k) (view k') (kv_set_spec (kv_clock kv n) key d (view k)) \<and>
           (\<forall>b. r = Inr b \<longrightarrow> b)
         else view k' = view k \<and> (\<forall>b. r = Inr b \<longrightarrow> \<not> b)))"

definition valkey_spec :: "'k valkey \<Rightarrow> ('k \<Rightarrow> kv_map) \<Rightarrow> bool" where
  "valkey_spec kv view \<longleftrightarrow>
     spec_Incr kv view \<and> spec_Expire kv view \<and> spec_TTL kv view \<and> spec_Set kv view \<and>
     spec_Del kv view \<and> spec_Exists kv view \<and> spec_SetNX kv view"

text \<open>The clauses one by one, for the components that use them.\<close>

lemma valkey_Incr:
  "valkey_spec kv view \<Longrightarrow> kv_Incr kv n key k = (r, k') \<Longrightarrow>
     kv_effect r (view k) (view k') (snd (kv_incr_spec (kv_clock kv n) key (view k))) \<and>
     (\<forall>v. r = Inr v \<longrightarrow> v = fst (kv_incr_spec (kv_clock kv n) key (view k)))"
  by (simp add: valkey_spec_def spec_Incr_def)

lemma valkey_Expire:
  "valkey_spec kv view \<Longrightarrow> kv_Expire kv n key d k = (r, k') \<Longrightarrow>
     kv_effect r (view k) (view k') (kv_expire_spec (kv_clock kv n) key d (view k))"
  by (simp add: valkey_spec_def spec_Expire_def)

lemma valkey_TTL:
  "valkey_spec kv view \<Longrightarrow> kv_TTL kv n key k = (r, k') \<Longrightarrow>
     view k' = view k \<and> (\<forall>v. r = Inr v \<longrightarrow> kv_ttl_spec (kv_clock kv n) key (view k) v)"
  by (simp add: valkey_spec_def spec_TTL_def)

lemma valkey_Set:
  "valkey_spec kv view \<Longrightarrow> kv_Set kv n key ''1'' d k = (r, k') \<Longrightarrow>
     kv_effect r (view k) (view k') (kv_set_spec (kv_clock kv n) key d (view k))"
  by (simp add: valkey_spec_def spec_Set_def)

lemma valkey_Del:
  "valkey_spec kv view \<Longrightarrow> kv_Del kv n key k = (r, k') \<Longrightarrow>
     kv_effect r (view k) (view k') ((view k)(key := None))"
  by (simp add: valkey_spec_def spec_Del_def)

lemma valkey_Exists:
  "valkey_spec kv view \<Longrightarrow> kv_Exists kv n key k = (r, k') \<Longrightarrow>
     view k' = view k \<and>
     (\<forall>v. r = Inr v \<longrightarrow> v = (if live (kv_clock kv n) key (view k) = None then 0 else 1))"
  by (simp add: valkey_spec_def spec_Exists_def)

lemma valkey_SetNX:
  "valkey_spec kv view \<Longrightarrow> kv_SetNX kv n key ''1'' d k = (r, k') \<Longrightarrow>
     (if live (kv_clock kv n) key (view k) = None
      then kv_effect r (view k) (view k') (kv_set_spec (kv_clock kv n) key d (view k)) \<and>
        (\<forall>b. r = Inr b \<longrightarrow> b)
      else view k' = view k \<and> (\<forall>b. r = Inr b \<longrightarrow> \<not> b))"
  unfolding valkey_spec_def spec_SetNX_def by blast

lemma kv_effect_Inr [simp]: "kv_effect (Inr v) m m' m'' \<longleftrightarrow> m' = m''"
  by (simp add: kv_effect_def)

lemma live_upd_same [simp]:
  "live t key (m(key \<mapsto> (v, None))) = Some (v, None)"
  "live t key (m(key \<mapsto> (v, Some d))) = (if t < d then Some (v, Some d) else None)"
  by (simp_all add: live_def)

lemma live_upd_other [simp]: "key \<noteq> key' \<Longrightarrow> live t key (m(key' := e)) = live t key m"
  by (simp add: live_def)

lemma live_Some: "live t key m = Some (v, d) \<Longrightarrow> m key = Some (v, d)"
  by (auto simp: live_def split: option.splits if_splits prod.splits)

section \<open>An in-memory client\<close>

text \<open>A service that never fails, for a given clock and lists of failing interactions.\<close>

definition kv_reply :: "(nat \<Rightarrow> bool) \<Rightarrow> nat \<Rightarrow> 'a \<Rightarrow> string + 'a" where
  "kv_reply down n v = (if down n then Inl ''i/o timeout'' else Inr v)"

definition kv_apply :: "(nat \<Rightarrow> bool) \<Rightarrow> nat \<Rightarrow> kv_map \<Rightarrow> kv_map \<Rightarrow> kv_map" where
  "kv_apply down n m m' = (if down n then m else m')"

definition mem_valkey :: "(nat \<Rightarrow> time) \<Rightarrow> (nat \<Rightarrow> bool) \<Rightarrow> kv_map valkey" where
  "mem_valkey clk down =
     \<lparr>kv_clock = clk,
      kv_Incr = (\<lambda>n key m. (kv_reply down n (fst (kv_incr_spec (clk n) key m)),
                             kv_apply down n m (snd (kv_incr_spec (clk n) key m)))),
      kv_Expire = (\<lambda>n key d m. (kv_reply down n (live (clk n) key m \<noteq> None),
                             kv_apply down n m (kv_expire_spec (clk n) key d m))),
      kv_TTL = (\<lambda>n key m. (kv_reply down n
                             (case live (clk n) key m of None \<Rightarrow> -2 | Some (_, None) \<Rightarrow> -1
                                | Some (_, Some d) \<Rightarrow> d - clk n), m)),
      kv_Set = (\<lambda>n key v d m. (kv_reply down n (), kv_apply down n m (kv_set_spec (clk n) key d m))),
      kv_Del = (\<lambda>n key m. (kv_reply down n (if m key = None then 0 else 1),
                             kv_apply down n m (m(key := None)))),
      kv_Exists = (\<lambda>n key m. (kv_reply down n (if live (clk n) key m = None then 0 else 1), m)),
      kv_SetNX = (\<lambda>n key v d m.
         if live (clk n) key m = None
         then (kv_reply down n True, kv_apply down n m (kv_set_spec (clk n) key d m))
         else (kv_reply down n False, m)),
      kv_Ping = (\<lambda>n m. (kv_reply down n (), m))\<rparr>"

lemma mem_effect: "kv_effect (kv_reply down n v) m (kv_apply down n m m') m'"
  by (simp add: kv_effect_def kv_reply_def kv_apply_def)

lemma mem_valkey_spec: "valkey_spec (mem_valkey clk down) id"
proof -
  have live_lt: "t < d" if "live t key m = Some (v, Some d)" for t key m v d
    using that by (auto simp: live_def split: option.splits if_splits prod.splits)
  have ttl: "kv_ttl_spec t key m
      (case live t key m of None \<Rightarrow> -2 | Some (_, None) \<Rightarrow> -1 | Some (_, Some d) \<Rightarrow> d - t)" for t key m
    using live_lt [of t key m] by (auto simp: kv_ttl_spec_def Second_def split: option.splits prod.splits)
  show ?thesis
    unfolding valkey_spec_def
  proof (intro conjI)
    show "spec_TTL (mem_valkey clk down) id"
      using ttl by (auto simp: spec_TTL_def mem_valkey_def kv_reply_def split: if_splits)
    show "spec_SetNX (mem_valkey clk down) id"
      by (auto simp: spec_SetNX_def mem_valkey_def mem_effect kv_reply_def split: if_splits)
        (auto simp: kv_effect_def kv_apply_def)
  qed (auto simp: spec_Incr_def spec_Expire_def spec_Set_def spec_Del_def spec_Exists_def
      mem_valkey_def mem_effect, auto simp: kv_reply_def split: if_splits)
qed

end
