(* ===== verification/Effects.thy ===== *)
theory Effects
  imports Valkey
begin

text \<open>
  The effects of the program: SQL statements on the tables, transactions, Valkey commands,
  clock readings and random bytes. Every interaction with the outside takes one tick; what
  the outside answers at a tick (a failure of the database, a clock value, a byte) is read
  from the record \<open>env\<close>, so a theorem for all \<open>env\<close> covers every schedule of
  failures. SQL is the language of the embedded statements and is modelled on the tables;
  the engine's freedom (when it fails, its messages, its clock, ties of ORDER BY, which
  texts and JSON documents it accepts) is the environment's.
\<close>

section \<open>Environment and world\<close>

text \<open>
  A statement runs (\<open>PgOk\<close>), fails without effect (\<open>PgFail\<close>), or runs but its answer
  is lost after some rows (\<open>PgLost\<close>): the caller sees an error.
\<close>

datatype pg_outcome = PgOk | PgFail string | PgLost nat string

datatype pg_violation = UniqueViolation | ForeignKeyViolation | BadText | BadJson

record env =
  pg_outcome_at :: "nat \<Rightarrow> pg_outcome"
  pg_message :: "pg_violation \<Rightarrow> string"
  pg_NOW :: "nat \<Rightarrow> time"
  pg_tie :: "nat \<Rightarrow> string \<Rightarrow> int"
  pg_text_ok :: "string \<Rightarrow> bool"
  pg_jsonb :: "string \<Rightarrow> string option"
  go_Now :: "nat \<Rightarrow> time"
  rand_byte :: "nat \<Rightarrow> nat \<Rightarrow> 8 word"
  rand_error :: "nat \<Rightarrow> string option"
  uni_lower :: "string \<Rightarrow> string"
  uni_upper :: "string \<Rightarrow> string"
  json_Marshal :: "str_map \<Rightarrow> string"
  json_Unmarshal :: "string \<Rightarrow> str_map option"

text \<open>
  The world: the tables, the Valkey service, the tick counter and the structured log
  (message and attributes).
\<close>

record 'k world =
  db :: db
  vk :: 'k
  tick :: nat
  logs :: "(string \<times> str_map) list"

definition bump :: "'k world \<Rightarrow> 'k world" where
  "bump w = w\<lparr>tick := Suc (tick w)\<rparr>"

lemma bump_frame [simp, frame]:
  "db (bump w) = db w" "vk (bump w) = vk w" "logs (bump w) = logs w" "tick (bump w) = Suc (tick w)"
  by (simp_all add: bump_def)

section \<open>SQL statements\<close>

text \<open>
  A statement gets the database clock and the tables. Text parameters the server's encoding
  refuses (a zero byte, malformed UTF-8) fail it.
\<close>

type_synonym 'a stmt = "time \<Rightarrow> db \<Rightarrow> (pg_violation + 'a) \<times> db"

definition sql_run :: "env \<Rightarrow> string list \<Rightarrow> 'a stmt \<Rightarrow> 'k world \<Rightarrow> (pg_violation + 'a) \<times> db" where
  "sql_run e ps stmt w =
     (if list_all (pg_text_ok e) ps then stmt (pg_NOW e (tick w)) (db w) else (Inl BadText, db w))"

text \<open>\<^verbatim>\<open>pool.Exec\<close> and \<^verbatim>\<open>pool.QueryRow(...).Scan\<close>.\<close>

definition sql_exec :: "env \<Rightarrow> string list \<Rightarrow> 'a stmt \<Rightarrow> 'k world \<Rightarrow> (go_error + 'a) \<times> 'k world" where
  "sql_exec e ps stmt w =
     (case pg_outcome_at e (tick w) of
        PgFail m \<Rightarrow> (Inl (Errorf m), bump w)
      | PgOk \<Rightarrow>
          (case sql_run e ps stmt w of
             (Inl v, d) \<Rightarrow> (Inl (Errorf (pg_message e v)), bump w)
           | (Inr a, d) \<Rightarrow> (Inr a, bump (w\<lparr>db := d\<rparr>)))
      | PgLost k m \<Rightarrow>
          (case sql_run e ps stmt w of
             (Inl v, d) \<Rightarrow> (Inl (Errorf m), bump w)
           | (Inr a, d) \<Rightarrow> (Inl (Errorf m), bump (w\<lparr>db := d\<rparr>))))"

text \<open>A QueryRow whose query yields no row: \<^verbatim>\<open>Scan\<close> returns \<^verbatim>\<open>pgx.ErrNoRows\<close>.\<close>

definition sql_row :: "env \<Rightarrow> string list \<Rightarrow> 'a option stmt \<Rightarrow> 'k world \<Rightarrow> (go_error + 'a) \<times> 'k world" where
  "sql_row e ps stmt w =
     (case sql_exec e ps stmt w of
        (Inl er, w') \<Rightarrow> (Inl er, w')
      | (Inr None, w') \<Rightarrow> (Inl ErrNoRows, w')
      | (Inr (Some a), w') \<Rightarrow> (Inr a, w'))"

text \<open>
  \<^verbatim>\<open>pool.Query\<close> with its rows: the rows that arrive and what \<^verbatim>\<open>rows.Err()\<close>
  says after the loop.
\<close>

definition sql_query :: "env \<Rightarrow> string list \<Rightarrow> 'r list stmt \<Rightarrow> 'k world
    \<Rightarrow> (go_error + 'r list \<times> go_error option) \<times> 'k world" where
  "sql_query e ps stmt w =
     (case pg_outcome_at e (tick w) of
        PgFail m \<Rightarrow> (Inl (Errorf m), bump w)
      | PgOk \<Rightarrow>
          (case sql_run e ps stmt w of
             (Inl v, d) \<Rightarrow> (Inl (Errorf (pg_message e v)), bump w)
           | (Inr rs, d) \<Rightarrow> (Inr (rs, None), bump (w\<lparr>db := d\<rparr>)))
      | PgLost k m \<Rightarrow>
          (case sql_run e ps stmt w of
             (Inl v, d) \<Rightarrow> (Inl (Errorf m), bump w)
           | (Inr rs, d) \<Rightarrow> (Inr (take k rs, Some (Errorf m)), bump (w\<lparr>db := d\<rparr>))))"

text \<open>
  A transaction: \<^verbatim>\<open>Begin\<close>, the body, \<^verbatim>\<open>Commit\<close>, with the deferred
  \<^verbatim>\<open>Rollback\<close> on every error return. A lost answer to \<^verbatim>\<open>Commit\<close> leaves the
  effects in place although the caller sees an error.
\<close>

definition sql_tx :: "env \<Rightarrow> ('k world \<Rightarrow> (go_error + 'a) \<times> 'k world)
    \<Rightarrow> 'k world \<Rightarrow> (go_error + 'a) \<times> 'k world" where
  "sql_tx e body w =
     (case pg_outcome_at e (tick w) of
        PgFail m \<Rightarrow> (Inl (Errorf m), bump w)
      | PgLost _ m \<Rightarrow> (Inl (Errorf m), bump w)
      | PgOk \<Rightarrow>
          (case body (bump w) of
             (Inl er, w1) \<Rightarrow> (Inl er, w1\<lparr>db := db w\<rparr>)
           | (Inr a, w1) \<Rightarrow>
               (case pg_outcome_at e (tick w1) of
                  PgOk \<Rightarrow> (Inr a, bump w1)
                | PgFail m \<Rightarrow> (Inl (Errorf m), bump (w1\<lparr>db := db w\<rparr>))
                | PgLost _ m \<Rightarrow> (Inl (Errorf m), bump w1))))"

section \<open>Valkey commands, clock, randomness, log\<close>

definition kv_do :: "(nat \<Rightarrow> 'k \<Rightarrow> (string + 'a) \<times> 'k) \<Rightarrow> 'k world \<Rightarrow> (go_error + 'a) \<times> 'k world" where
  "kv_do cmd w =
     (case cmd (tick w) (vk w) of (r, k) \<Rightarrow> (map_sum Errorf id r, bump (w\<lparr>vk := k\<rparr>)))"

definition time_Now :: "env \<Rightarrow> 'k world \<Rightarrow> time \<times> 'k world" where
  "time_Now e w = (go_Now e (tick w), bump w)"

definition rand_Read :: "env \<Rightarrow> nat \<Rightarrow> 'k world \<Rightarrow> (go_error + 8 word list) \<times> 'k world" where
  "rand_Read e n w =
     (case rand_error e (tick w) of
        Some m \<Rightarrow> (Inl (Errorf m), bump w)
      | None \<Rightarrow> (Inr (map (rand_byte e (tick w)) [0..<n]), bump w))"

definition log_line :: "string \<Rightarrow> str_map \<Rightarrow> 'k world \<Rightarrow> 'k world" where
  "log_line msg attrs w = w\<lparr>logs := logs w @ [(msg, attrs)]\<rparr>"

section \<open>Frame facts\<close>

lemma sql_exec_frame [simp, frame]:
  "vk (snd (sql_exec e ps stmt w)) = vk w" "logs (snd (sql_exec e ps stmt w)) = logs w"
  "tick (snd (sql_exec e ps stmt w)) = Suc (tick w)"
  by (auto simp: sql_exec_def split: pg_outcome.split sum.split prod.split)

lemma snd_sql_row: "snd (sql_row e ps stmt w) = snd (sql_exec e ps stmt w)"
  by (auto simp: sql_row_def split: prod.split sum.split option.split)

lemma sql_row_frame [simp, frame]:
  "vk (snd (sql_row e ps stmt w)) = vk w" "logs (snd (sql_row e ps stmt w)) = logs w"
  "tick (snd (sql_row e ps stmt w)) = Suc (tick w)"
  by (simp_all add: snd_sql_row)

lemma sql_query_frame [simp, frame]:
  "vk (snd (sql_query e ps stmt w)) = vk w" "logs (snd (sql_query e ps stmt w)) = logs w"
  "tick (snd (sql_query e ps stmt w)) = Suc (tick w)"
  by (auto simp: sql_query_def split: pg_outcome.split sum.split prod.split)

lemma kv_do_frame [simp, frame]:
  "db (snd (kv_do cmd w)) = db w" "logs (snd (kv_do cmd w)) = logs w"
  "tick (snd (kv_do cmd w)) = Suc (tick w)"
  by (auto simp: kv_do_def split: prod.split)

lemma time_Now_frame [simp, frame]:
  "db (snd (time_Now e w)) = db w" "vk (snd (time_Now e w)) = vk w"
  "logs (snd (time_Now e w)) = logs w" "tick (snd (time_Now e w)) = Suc (tick w)"
  "fst (time_Now e w) = go_Now e (tick w)"
  by (simp_all add: time_Now_def)

lemma rand_Read_frame [simp, frame]:
  "db (snd (rand_Read e n w)) = db w" "vk (snd (rand_Read e n w)) = vk w"
  "logs (snd (rand_Read e n w)) = logs w" "tick (snd (rand_Read e n w)) = Suc (tick w)"
  by (auto simp: rand_Read_def split: option.split)

lemma log_line_frame [simp, frame]:
  "db (log_line m a w) = db w" "vk (log_line m a w) = vk w" "tick (log_line m a w) = tick w"
  by (simp_all add: log_line_def)

text \<open>The same facts on the results of calls, for use as destruction rules.\<close>

lemma sql_exec_eqD:
  "sql_exec e ps stmt w = (r, w') \<Longrightarrow> vk w' = vk w \<and> logs w' = logs w \<and> tick w' = Suc (tick w)"
  using sql_exec_frame [of e ps stmt w] by simp

lemma sql_query_eqD:
  "sql_query e ps stmt w = (r, w') \<Longrightarrow> vk w' = vk w \<and> logs w' = logs w \<and> tick w' = Suc (tick w)"
  using sql_query_frame [of e ps stmt w] by simp

lemma sql_row_eqD:
  "sql_row e ps stmt w = (r, w') \<Longrightarrow> vk w' = vk w \<and> logs w' = logs w \<and> tick w' = Suc (tick w)"
  using sql_row_frame [of e ps stmt w] by simp

lemma kv_do_eqD:
  "kv_do cmd w = (r, w') \<Longrightarrow> db w' = db w \<and> logs w' = logs w \<and> tick w' = Suc (tick w)"
  using kv_do_frame [of cmd w] by simp

lemma rand_Read_eqD:
  "rand_Read e n w = (r, w') \<Longrightarrow>
     db w' = db w \<and> vk w' = vk w \<and> logs w' = logs w \<and> tick w' = Suc (tick w)"
  using rand_Read_frame [of e n w] by simp

lemma rand_Read_length: "rand_Read e n w = (Inr bs, w') \<Longrightarrow> length bs = n"
  by (auto simp: rand_Read_def split: option.splits)

section \<open>Reasoning rules\<close>

text \<open>A statement either leaves the tables alone or has its effect.\<close>

definition stmt_effect :: "'a stmt \<Rightarrow> db \<Rightarrow> db \<Rightarrow> bool" where
  "stmt_effect stmt d d' \<longleftrightarrow> d' = d \<or> (\<exists>t a. stmt t d = (Inr a, d'))"

lemma sql_exec_effect: "stmt_effect stmt (db w) (db (snd (sql_exec e ps stmt w)))"
  by (auto simp: sql_exec_def sql_run_def stmt_effect_def
      split: pg_outcome.split sum.split prod.split if_split)

lemma sql_query_effect: "stmt_effect stmt (db w) (db (snd (sql_query e ps stmt w)))"
  by (auto simp: sql_query_def sql_run_def stmt_effect_def
      split: pg_outcome.split sum.split prod.split if_split)

lemma sql_row_effect: "stmt_effect stmt (db w) (db (snd (sql_row e ps stmt w)))"
  by (simp add: snd_sql_row sql_exec_effect)

lemma stmt_effect_inv:
  "stmt_effect stmt d d' \<Longrightarrow> P d \<Longrightarrow> (\<And>t a d''. stmt t d = (Inr a, d'') \<Longrightarrow> P d'') \<Longrightarrow> P d'"
  by (auto simp: stmt_effect_def)

lemma stmt_effect_snd:
  "stmt_effect stmt d d' \<Longrightarrow> P d \<Longrightarrow> (\<And>t. P (snd (stmt t d))) \<Longrightarrow> P d'"
  by (auto simp: stmt_effect_def) (metis snd_conv)

lemmas sql_exec_inv = stmt_effect_inv [OF sql_exec_effect]
lemmas sql_query_inv = stmt_effect_inv [OF sql_query_effect]

text \<open>Statements that only read.\<close>

definition reads :: "'a stmt \<Rightarrow> bool" where
  "reads stmt \<longleftrightarrow> (\<forall>t d. snd (stmt t d) = d)"

lemma stmt_effect_reads: "reads stmt \<Longrightarrow> stmt_effect stmt d d' \<Longrightarrow> d' = d"
  by (auto simp: reads_def stmt_effect_def) (metis snd_conv)

lemma reads_db:
  assumes "reads stmt"
  shows "db (snd (sql_exec e ps stmt w)) = db w"
  by (rule stmt_effect_reads [OF assms sql_exec_effect])

lemma reads_row_db:
  assumes "reads stmt"
  shows "db (snd (sql_row e ps stmt w)) = db w"
  by (rule stmt_effect_reads [OF assms sql_row_effect])

lemma reads_query_db:
  assumes "reads stmt"
  shows "db (snd (sql_query e ps stmt w)) = db w"
  by (rule stmt_effect_reads [OF assms sql_query_effect])

lemma reads_eqD:
  "sql_exec e ps stmt w = (r, w') \<Longrightarrow> reads stmt \<Longrightarrow> db w' = db w"
  using reads_db [of stmt e ps w] by simp

lemma reads_row_eqD:
  "sql_row e ps stmt w = (r, w') \<Longrightarrow> reads stmt \<Longrightarrow> db w' = db w"
  using reads_row_db [of stmt e ps w] by simp

lemma reads_query_eqD:
  "sql_query e ps stmt w = (q, w') \<Longrightarrow> reads stmt \<Longrightarrow> db w' = db w"
  using reads_query_db [of stmt e ps w] by simp

text \<open>A statement that reports success ran at the database clock of its tick.\<close>

lemma sql_exec_Inr:
  assumes "sql_exec e ps stmt w = (Inr a, w')"
  shows "pg_outcome_at e (tick w) = PgOk" "list_all (pg_text_ok e) ps"
    "stmt (pg_NOW e (tick w)) (db w) = (Inr a, db w')" "w' = bump (w\<lparr>db := db w'\<rparr>)"
  using assms
  by (auto simp: sql_exec_def sql_run_def split: pg_outcome.splits sum.splits prod.splits if_splits)

lemma sql_row_Inr:
  assumes "sql_row e ps stmt w = (Inr a, w')"
  shows "sql_exec e ps stmt w = (Inr (Some a), w')"
  using assms by (auto simp: sql_row_def split: prod.splits sum.splits option.splits)

lemma sql_exec_ok:
  assumes "pg_outcome_at e (tick w) = PgOk" "list_all (pg_text_ok e) ps"
    "stmt (pg_NOW e (tick w)) (db w) = (Inr a, d)"
  shows "sql_exec e ps stmt w = (Inr a, bump (w\<lparr>db := d\<rparr>))"
  using assms by (simp add: sql_exec_def sql_run_def)

lemma sql_row_ok:
  assumes "pg_outcome_at e (tick w) = PgOk" "list_all (pg_text_ok e) ps"
    "stmt (pg_NOW e (tick w)) (db w) = (Inr r, d)"
  shows "sql_row e ps stmt w =
    (case r of None \<Rightarrow> Inl ErrNoRows | Some a \<Rightarrow> Inr a, bump (w\<lparr>db := d\<rparr>))"
  using assms by (simp add: sql_row_def sql_exec_ok split: option.split)

lemma sql_query_ok:
  assumes "pg_outcome_at e (tick w) = PgOk" "list_all (pg_text_ok e) ps"
    "stmt (pg_NOW e (tick w)) (db w) = (Inr rs, d)"
  shows "sql_query e ps stmt w = (Inr (rs, None), bump (w\<lparr>db := d\<rparr>))"
  using assms by (simp add: sql_query_def sql_run_def)

text \<open>A transaction keeps what its body keeps, and has no effect unless the body succeeds.\<close>

lemma sql_tx_effect:
  "db (snd (sql_tx e body w)) = db w \<or>
   (\<exists>a w1. body (bump w) = (Inr a, w1) \<and> db (snd (sql_tx e body w)) = db w1)"
  by (auto simp: sql_tx_def split: pg_outcome.split sum.split prod.split)

lemma sql_tx_Inr:
  assumes "sql_tx e body w = (Inr a, w')"
  shows "\<exists>w1. body (bump w) = (Inr a, w1) \<and> w' = bump w1"
  using assms by (auto simp: sql_tx_def split: pg_outcome.splits sum.splits prod.splits)

lemma sql_tx_ok:
  assumes "pg_outcome_at e (tick w) = PgOk" "body (bump w) = (Inr a, w1)"
    "pg_outcome_at e (tick w1) = PgOk"
  shows "sql_tx e body w = (Inr a, bump w1)"
  using assms by (simp add: sql_tx_def)

text \<open>A database without failures, with text parameters it accepts.\<close>

definition pg_healthy :: "env \<Rightarrow> bool" where
  "pg_healthy e \<longleftrightarrow> (\<forall>n. pg_outcome_at e n = PgOk) \<and> (\<forall>n. rand_error e n = None)"

lemma pg_healthyD [dest]: "pg_healthy e \<Longrightarrow> pg_outcome_at e n = PgOk"
  by (simp add: pg_healthy_def)

section \<open>A concrete environment\<close>

text \<open>
  A healthy environment for closed examples: both clocks advance one second per tick from
  \<open>t0\<close>, the random bytes are the tick, texts and JSON are taken as they are.
\<close>

definition demo_field :: "string \<Rightarrow> string" where
  "demo_field s = replicate (length s) (CHR ''n'') @ CHR '':'' # s"

definition demo_take_field :: "string \<Rightarrow> string \<times> string" where
  "demo_take_field s =
     (let n = length (takeWhile (\<lambda>c. c = CHR ''n'') s); r = drop (Suc n) s in (take n r, drop n r))"

lemma demo_take_field [simp]: "demo_take_field (demo_field s @ r) = (s, r)"
  by (simp add: demo_take_field_def demo_field_def takeWhile_tail Let_def)

fun demo_marshal :: "str_map \<Rightarrow> string" where
  "demo_marshal [] = []"
| "demo_marshal ((k, v) # m) = demo_field k @ demo_field v @ demo_marshal m"

fun demo_dec :: "nat \<Rightarrow> string \<Rightarrow> str_map" where
  "demo_dec 0 s = []"
| "demo_dec (Suc n) s =
     (if s = [] then []
      else let (k, r) = demo_take_field s; (v, r) = demo_take_field r in (k, v) # demo_dec n r)"

definition demo_unmarshal :: "string \<Rightarrow> str_map option" where
  "demo_unmarshal s = Some (demo_dec (length s) s)"

lemma demo_dec_marshal: "length (demo_marshal m) \<le> n \<Longrightarrow> demo_dec n (demo_marshal m) = m"
proof (induction m arbitrary: n rule: demo_marshal.induct)
  case 1
  show ?case by (cases n) simp_all
next
  case (2 k v m)
  then obtain n' where n: "n = Suc n'" "length (demo_marshal m) \<le> n'"
    by (cases n) (auto simp: demo_field_def)
  have "demo_field k @ demo_field v @ demo_marshal m \<noteq> []" by (simp add: demo_field_def)
  then show ?case using 2(1) [OF n(2)] n(1) by simp
qed

lemma demo_round_trip [simp]: "demo_unmarshal (demo_marshal m) = Some m"
  by (simp add: demo_unmarshal_def demo_dec_marshal)

definition demo_env :: "time \<Rightarrow> env" where
  "demo_env t0 =
     \<lparr>pg_outcome_at = (\<lambda>_. PgOk), pg_message = (\<lambda>_. ''constraint violation''),
      pg_NOW = (\<lambda>n. t0 + int n * Second), pg_tie = (\<lambda>_ _. 0),
      pg_text_ok = (\<lambda>_. True), pg_jsonb = Some,
      go_Now = (\<lambda>n. t0 + int n * Second),
      rand_byte = (\<lambda>n i. word_of_nat (n + i)), rand_error = (\<lambda>_. None),
      uni_lower = id, uni_upper = id,
      json_Marshal = demo_marshal, json_Unmarshal = demo_unmarshal\<rparr>"

definition demo_world :: "db \<Rightarrow> kv_map world" where
  "demo_world d = \<lparr>db = d, vk = Map.empty, tick = 0, logs = []\<rparr>"

lemma demo_env_simps [simp]:
  "pg_outcome_at (demo_env t0) n = PgOk" "pg_text_ok (demo_env t0) s" "pg_jsonb (demo_env t0) s = Some s"
  "pg_NOW (demo_env t0) n = t0 + int n * Second" "go_Now (demo_env t0) n = t0 + int n * Second"
  "pg_tie (demo_env t0) n s = 0" "rand_byte (demo_env t0) n i = word_of_nat (n + i)"
  "rand_error (demo_env t0) n = None" "uni_lower (demo_env t0) = id" "uni_upper (demo_env t0) = id"
  "json_Marshal (demo_env t0) = demo_marshal" "json_Unmarshal (demo_env t0) = demo_unmarshal"
  by (simp_all add: demo_env_def)

lemma demo_world_simps [simp]:
  "db (demo_world d) = d" "vk (demo_world d) = Map.empty" "tick (demo_world d) = 0" "logs (demo_world d) = []"
  by (simp_all add: demo_world_def)

lemma demo_env_healthy [simp]: "pg_healthy (demo_env t0)"
  by (simp add: pg_healthy_def demo_env_def)

end
