(* ===== verification/Http_Model.thy ===== *)
theory Http_Model
  imports Effects
begin

text \<open>
  The part of \<^verbatim>\<open>net/http\<close> the server uses (requests, response writers, cookies) and
  \<^verbatim>\<open>internal/httpapi/middleware.go\<close>: the chain of recover, access log, security headers
  and CORS around the multiplexer.
\<close>

section \<open>Requests\<close>

type_synonym header = "(string \<times> string list) list"

text \<open>\<^verbatim>\<open>auth.User\<close>.\<close>

record session_user =
  ID :: string
  Email :: string
  Name :: string
  Picture :: string

text \<open>
  A request as the handlers see it: header keys are canonical, the query is the parsed map,
  \<open>segs\<close> are the decoded segments of the path, \<open>body_err\<close> is what reading the body ends
  with after its bytes, \<open>ctx_user\<close> is the user of the context.
\<close>

record request =
  r_method :: string
  url_path :: string
  raw_query :: string
  query :: "(string \<times> string list) list"
  segs :: "string list"
  r_header :: header
  cookies :: "(string \<times> string) list"
  remote_addr :: string
  body :: string
  body_err :: "string option"
  path_vals :: str_map
  ctx_user :: "session_user option"

definition values_Get :: "(string \<times> string list) list \<Rightarrow> string \<Rightarrow> string" where
  "values_Get h k = (case map_of h k of Some (v # _) \<Rightarrow> v | _ \<Rightarrow> '''')"

definition header_Get :: "request \<Rightarrow> string \<Rightarrow> string" where
  "header_Get r k = values_Get (r_header r) k"

definition query_Get :: "request \<Rightarrow> string \<Rightarrow> string" where
  "query_Get r k = values_Get (query r) k"

definition PathValue :: "request \<Rightarrow> string \<Rightarrow> string" where
  "PathValue r k = (case map_of (path_vals r) k of Some v \<Rightarrow> v | None \<Rightarrow> '''')"

text \<open>\<^verbatim>\<open>io.ReadAll(io.LimitReader(r.Body, n))\<close>.\<close>

definition read_limited :: "nat \<Rightarrow> request \<Rightarrow> go_error + string" where
  "read_limited n r =
     (if n \<le> length (body r) then Inr (take n (body r))
      else case body_err r of None \<Rightarrow> Inr (body r) | Some m \<Rightarrow> Inl (Errorf m))"

section \<open>Response writers\<close>

datatype json =
    JNull | JBool bool | JInt int | JStr string | JTime time
  | JArr "json list" | JObj "(string \<times> json) list"

datatype payload = Json json | Text string

datatype same_site = SameSiteLax

record cookie =
  ck_name :: string
  ck_value :: string
  ck_path :: string
  ck_http_only :: bool
  ck_secure :: bool
  ck_same_site :: same_site
  ck_max_age :: int

text \<open>
  The header map and the cookies set so far; what went out with the first
  \<^verbatim>\<open>WriteHeader\<close>; the body; the status the access log's wrapper remembers.
\<close>

record sent =
  sent_status :: int
  sent_header :: str_map
  sent_cookies :: "cookie list"

record writer =
  w_header :: str_map
  w_cookies :: "cookie list"
  w_sent :: "sent option"
  w_body :: "payload list"
  w_last :: int

definition new_writer :: writer where
  "new_writer = \<lparr>w_header = [], w_cookies = [], w_sent = None, w_body = [], w_last = 200\<rparr>"

definition Header_Set :: "string \<Rightarrow> string \<Rightarrow> writer \<Rightarrow> writer" where
  "Header_Set k v wr = wr\<lparr>w_header := (k, v) # filter (\<lambda>p. fst p \<noteq> k) (w_header wr)\<rparr>"

definition SetCookie :: "cookie \<Rightarrow> writer \<Rightarrow> writer" where
  "SetCookie c wr = wr\<lparr>w_cookies := w_cookies wr @ [c]\<rparr>"

text \<open>Only the first call has an effect on the response; the wrapper keeps the last status.\<close>

definition WriteHeader :: "int \<Rightarrow> writer \<Rightarrow> writer" where
  "WriteHeader status wr =
     wr\<lparr>w_last := status,
        w_sent := (case w_sent wr of
                     Some s \<Rightarrow> Some s
                   | None \<Rightarrow> Some \<lparr>sent_status = status, sent_header = w_header wr, sent_cookies = w_cookies wr\<rparr>)\<rparr>"

text \<open>A write without a header sends status 200 first (not through the wrapper).\<close>

definition write_out :: "payload \<Rightarrow> writer \<Rightarrow> writer" where
  "write_out p wr =
     (let wr = (case w_sent wr of Some _ \<Rightarrow> wr | None \<Rightarrow> (WriteHeader 200 wr)\<lparr>w_last := w_last wr\<rparr>)
      in wr\<lparr>w_body := w_body wr @ [p]\<rparr>)"

definition writeJSON :: "int \<Rightarrow> json \<Rightarrow> writer \<Rightarrow> writer" where
  "writeJSON status v wr =
     write_out (Json v) (WriteHeader status
       (Header_Set ''Cache-Control'' ''no-store''
         (Header_Set ''Content-Type'' ''application/json; charset=utf-8'' wr)))"

definition err_obj :: "string \<Rightarrow> json" where
  "err_obj m = JObj [(''error'', JStr m)]"

definition http_Error :: "string \<Rightarrow> int \<Rightarrow> writer \<Rightarrow> writer" where
  "http_Error msg status wr =
     write_out (Text (msg @ [CHR 0x0A])) (WriteHeader status
       (Header_Set ''X-Content-Type-Options'' ''nosniff''
         (Header_Set ''Content-Type'' ''text/plain; charset=utf-8''
           (wr\<lparr>w_header := filter (\<lambda>p. fst p \<notin> {''Content-Length''}) (w_header wr)\<rparr>))))"

text \<open>
  \<^verbatim>\<open>http.Redirect\<close> to an absolute URL or path, without the HTML body it adds for GET.
\<close>

definition hexEscapeNonASCII :: "string \<Rightarrow> string" where
  "hexEscapeNonASCII s =
     concat (map (\<lambda>c. if of_char c < (128 :: nat) then [c]
                      else [CHR ''%'', hex_digit (of_char c div 16), hex_digit (of_char c mod 16)]) s)"

definition http_Redirect :: "request \<Rightarrow> string \<Rightarrow> int \<Rightarrow> writer \<Rightarrow> writer" where
  "http_Redirect r url status wr =
     (let located = Header_Set ''Location'' (hexEscapeNonASCII url) wr in
      WriteHeader status
        (if map_of (w_header wr) ''Content-Type'' = None \<and> r_method r \<in> {''GET'', ''HEAD''}
         then Header_Set ''Content-Type'' ''text/html; charset=utf-8'' located else located))"

text \<open>The end of a request: a handler that wrote nothing answers 200.\<close>

definition finish_writer :: "writer \<Rightarrow> writer" where
  "finish_writer wr = (if w_sent wr = None then WriteHeader 200 wr else wr)"

definition status_of :: "writer \<Rightarrow> int" where
  "status_of wr = (case w_sent wr of None \<Rightarrow> 200 | Some s \<Rightarrow> sent_status s)"

section \<open>Handlers and middleware\<close>

text \<open>A handler ends with a response and a world, or panics with a value after some effects.\<close>

type_synonym 'k handler = "request \<Rightarrow> writer \<times> 'k world \<Rightarrow> string option \<times> writer \<times> 'k world"

definition withRecover :: "'k handler \<Rightarrow> 'k handler" where
  "withRecover next r s =
     (case next r s of
        (None, wr, w) \<Rightarrow> (None, wr, w)
      | (Some m, wr, w) \<Rightarrow>
          (None, http_Error ''internal server error'' 500 wr,
           log_line ''panic recovered'' [(''err'', m), (''path'', url_path r)] w))"

definition withSecurityHeaders :: "'k handler \<Rightarrow> 'k handler" where
  "withSecurityHeaders next r s =
     (case s of (wr, w) \<Rightarrow>
        next r (Header_Set ''Cache-Control'' ''no-store''
                 (Header_Set ''Referrer-Policy'' ''strict-origin-when-cross-origin''
                   (Header_Set ''X-Frame-Options'' ''DENY''
                     (Header_Set ''X-Content-Type-Options'' ''nosniff'' wr))), w))"

definition cors_headers :: "string \<Rightarrow> writer \<Rightarrow> writer" where
  "cors_headers origin wr =
     Header_Set ''Access-Control-Allow-Methods'' ''GET, POST, PUT, PATCH, DELETE, OPTIONS''
      (Header_Set ''Access-Control-Allow-Headers'' ''Content-Type, Authorization''
        (Header_Set ''Access-Control-Allow-Credentials'' ''true''
          (Header_Set ''Vary'' ''Origin''
            (Header_Set ''Access-Control-Allow-Origin'' origin wr))))"

definition withCORS :: "string list \<Rightarrow> 'k handler \<Rightarrow> 'k handler" where
  "withCORS origins next r s =
     (case s of (wr, w) \<Rightarrow>
        let allowed = map (\<lambda>o'. TrimRight o' ''/'') origins;
            origin = TrimRight (header_Get r ''Origin'') ''/'';
            wr = (if origin \<noteq> '''' \<and> origin \<in> set allowed then cors_headers origin wr else wr)
        in if r_method r = ''OPTIONS'' then (None, WriteHeader 204 wr, w)
           else next r (wr, w))"

definition clientIP :: "request \<Rightarrow> string" where
  "clientIP r =
     (if header_Get r ''X-Forwarded-For'' \<noteq> '''' then TrimSpace (hd (Split (header_Get r ''X-Forwarded-For'') (CHR '','')))
      else if header_Get r ''X-Real-Ip'' \<noteq> '''' then header_Get r ''X-Real-Ip''
      else remote_addr r)"

text \<open>\<^verbatim>\<open>d.Milliseconds()\<close> truncates towards zero.\<close>

definition Milliseconds :: "duration \<Rightarrow> int" where
  "Milliseconds d = (if 0 \<le> d then d div 1000000 else - ((- d) div 1000000))"

text \<open>The wrapper's status starts at 200; a panic passes the log line by.\<close>

definition withAccessLog :: "env \<Rightarrow> 'k handler \<Rightarrow> 'k handler" where
  "withAccessLog e next r s =
     (case s of (wr, w) \<Rightarrow>
        let (start, w) = time_Now e w in
        case next r (wr\<lparr>w_last := 200\<rparr>, w) of
          (Some m, wr, w) \<Rightarrow> (Some m, wr, w)
        | (None, wr, w) \<Rightarrow>
            (let (now, w) = time_Now e w in
             (None, wr,
              log_line ''request''
                [(''method'', r_method r), (''path'', url_path r), (''status'', Itoa (w_last wr)),
                 (''duration_ms'', Itoa (Milliseconds (now - start))), (''ip'', clientIP r)] w)))"

text \<open>\<^verbatim>\<open>chain\<close>: the first middleware is the outermost.\<close>

fun chain :: "'k handler \<Rightarrow> ('k handler \<Rightarrow> 'k handler) list \<Rightarrow> 'k handler" where
  "chain h [] = h"
| "chain h (m # ms) = m (chain h ms)"

definition middlewares :: "env \<Rightarrow> string list \<Rightarrow> ('k handler \<Rightarrow> 'k handler) list" where
  "middlewares e origins = [withRecover, withAccessLog e, withSecurityHeaders, withCORS origins]"

section \<open>What the middleware guarantees\<close>

text \<open>The headers of the response: those sent, or those set so far.\<close>

definition head_of :: "writer \<Rightarrow> str_map" where
  "head_of wr = (case w_sent wr of Some s \<Rightarrow> sent_header s | None \<Rightarrow> w_header wr)"

lemma map_of_filter_key: "map_of (filter (\<lambda>p. fst p \<noteq> k) m) j = (if j = k then None else map_of m j)"
  by (induction m) auto

lemma head_Header_Set [simp]:
  "w_sent wr = None \<Longrightarrow> map_of (head_of (Header_Set k v wr)) j = (if j = k then Some v else map_of (head_of wr) j)"
  "w_sent (Header_Set k v wr) = w_sent wr"
  by (auto simp: head_of_def Header_Set_def map_of_filter_key)

lemma head_WriteHeader [simp]:
  "head_of (WriteHeader st wr) = head_of wr"
  "w_sent (WriteHeader st wr) \<noteq> None" "w_sent (WriteHeader st wr) = None \<longleftrightarrow> False"
  by (auto simp: head_of_def WriteHeader_def split: option.split)

lemma head_write_out [simp]: "head_of (write_out p wr) = head_of wr" "w_sent (write_out p wr) \<noteq> None"
  by (auto simp: write_out_def Let_def head_of_def WriteHeader_def split: option.split)

lemma head_SetCookie [simp]: "head_of (SetCookie c wr) = head_of wr" "w_sent (SetCookie c wr) = w_sent wr"
  by (auto simp: SetCookie_def head_of_def split: option.split)

lemma head_last [simp]: "head_of (wr\<lparr>w_last := n\<rparr>) = head_of wr"
  by (simp add: head_of_def split: option.split)

lemma head_sent_Header_Set: "w_sent wr \<noteq> None \<Longrightarrow> head_of (Header_Set k v wr) = head_of wr"
  by (auto simp: head_of_def Header_Set_def)

definition own_keys :: "string set" where
  "own_keys = {''Allow'', ''Content-Type'', ''Cache-Control'', ''Content-Length'', ''X-Content-Type-Options'', ''Retry-After'', ''Location''}"

lemma head_writeJSON [simp]:
  "k \<notin> own_keys \<Longrightarrow> map_of (head_of (writeJSON st v wr)) k = map_of (head_of wr) k"
  by (cases "w_sent wr") (auto simp: writeJSON_def own_keys_def head_sent_Header_Set)

lemma head_http_Error [simp]:
  "k \<notin> own_keys \<Longrightarrow> map_of (head_of (http_Error m st wr)) k = map_of (head_of wr) k"
  by (cases "w_sent wr")
    (auto simp: http_Error_def own_keys_def head_sent_Header_Set, auto simp: head_of_def map_of_filter_key)

lemma head_http_Redirect [simp]:
  "k \<notin> own_keys \<Longrightarrow> map_of (head_of (http_Redirect r u st wr)) k = map_of (head_of wr) k"
  by (cases "w_sent wr") (auto simp: http_Redirect_def Let_def own_keys_def head_sent_Header_Set)

text \<open>The origin is one of the configured ones, up to slashes at the end.\<close>

definition cors_allowed :: "string list \<Rightarrow> request \<Rightarrow> bool" where
  "cors_allowed origins r \<longleftrightarrow>
     TrimRight (header_Get r ''Origin'') ''/'' \<noteq> [] \<and>
     TrimRight (header_Get r ''Origin'') ''/'' \<in> (\<lambda>o'. TrimRight o' ''/'') ` set origins"

end
