(* ===== verification/User_Store.thy ===== *)
theory User_Store
  imports Effects
begin

text \<open>
  \<^verbatim>\<open>internal/user/store.go\<close>: the \<^verbatim>\<open>users\<close> table, the login upsert that
  keeps a ban, and the ban check.
\<close>

section \<open>Statements and operations\<close>

definition StatusActive :: string where "StatusActive = ''active''"
definition StatusBanned :: string where "StatusBanned = ''banned''"

definition login_row :: "string \<Rightarrow> string \<Rightarrow> string \<Rightarrow> string \<Rightarrow> time \<Rightarrow> string \<Rightarrow> user_row" where
  "login_row uid email name picture now ip =
     \<lparr>u_id = uid, u_email = email, u_name = name, u_picture = picture, u_status = StatusActive,
      u_created = pg_time now, u_login = pg_time now, u_login_ip = ip\<rparr>"

text \<open>DO UPDATE SET of the columns of \<open>EXCLUDED\<close>, all but status and creation time.\<close>

definition relogin :: "user_row \<Rightarrow> user_row \<Rightarrow> user_row" where
  "relogin ex r =
     r\<lparr>u_email := u_email ex, u_name := u_name ex, u_picture := u_picture ex,
       u_login := u_login ex, u_login_ip := u_login_ip ex\<rparr>"

definition stmt_upsert_user :: "user_row \<Rightarrow> user_row option stmt" where
  "stmt_upsert_user r t d =
     (let us = tbl_upsert u_id r (relogin r) (users d)
      in (Inr (tbl_lookup u_id (u_id r) us), d\<lparr>users := us\<rparr>))"

definition stmt_select_user :: "string \<Rightarrow> user_row option stmt" where
  "stmt_select_user uid t d = (Inr (tbl_lookup u_id uid (users d)), d)"

definition UpsertLogin :: "env \<Rightarrow> string \<Rightarrow> string \<Rightarrow> string \<Rightarrow> string \<Rightarrow> string \<Rightarrow> 'k world
    \<Rightarrow> (user_row option \<times> go_error option) \<times> 'k world" where
  "UpsertLogin e uid email name picture ip w =
     (let (now, w) = time_Now e w in
      case sql_row e [uid, email, name, picture, StatusActive, ip]
             (stmt_upsert_user (login_row uid email name picture now ip)) w of
        (Inl er, w) \<Rightarrow> ((None, Some er), w)
      | (Inr u, w) \<Rightarrow>
          if u_status u = StatusBanned then ((Some u, Some ErrBanned), w) else ((Some u, None), w))"

definition Get_user :: "env \<Rightarrow> string \<Rightarrow> 'k world \<Rightarrow> (go_error + user_row) \<times> 'k world" where
  "Get_user e uid w =
     (case sql_row e [uid] (stmt_select_user uid) w of
        (Inl er, w) \<Rightarrow> (Inl (if errors_Is er ErrNoRows then ErrUserNotFound else er), w)
      | (Inr u, w) \<Rightarrow> (Inr u, w))"

definition IsBanned :: "env \<Rightarrow> string \<Rightarrow> 'k world \<Rightarrow> (go_error + bool) \<times> 'k world" where
  "IsBanned e uid w =
     (case sql_row e [uid] (stmt_select_user uid) w of
        (Inl er, w) \<Rightarrow> (if errors_Is er ErrNoRows then (Inr False, w) else (Inl er, w))
      | (Inr u, w) \<Rightarrow> (Inr (u_status u = StatusBanned), w))"

text \<open>The status of a user in the table.\<close>

definition user_status :: "db \<Rightarrow> string \<Rightarrow> string option" where
  "user_status d uid = map_option u_status (tbl_lookup u_id uid (users d))"

section \<open>What the statements do\<close>

lemma relogin_id [simp]: "u_id (relogin ex r) = u_id r"
  by (simp add: relogin_def)

lemma relogin_keeps [simp]: "u_status (relogin ex r) = u_status r" "u_created (relogin ex r) = u_created r"
  by (simp_all add: relogin_def)

lemma upsert_user_lookup:
  "tbl_lookup u_id k (users (snd (stmt_upsert_user r t d))) =
     (if k = u_id r then (case tbl_lookup u_id k (users d) of None \<Rightarrow> Some r | Some r0 \<Rightarrow> Some (relogin r r0))
      else tbl_lookup u_id k (users d))"
  using users_tbl.upsert_lookup [of "relogin r" k r "users d"]
  by (simp add: stmt_upsert_user_def tbl_upsert_def Let_def)

lemma upsert_user_frame [simp]:
  "webhook_bins (snd (stmt_upsert_user r t d)) = webhook_bins d"
  "webhook_hits (snd (stmt_upsert_user r t d)) = webhook_hits d"
  "visitors (snd (stmt_upsert_user r t d)) = visitors d"
  by (simp_all add: stmt_upsert_user_def Let_def)

lemma upsert_user_result:
  "fst (stmt_upsert_user r t d) = Inr (tbl_lookup u_id (u_id r) (users (snd (stmt_upsert_user r t d))))"
  by (simp add: stmt_upsert_user_def Let_def)

lemma upsert_user_ids: "u_id ` set (users d) \<subseteq> u_id ` set (users (snd (stmt_upsert_user r t d)))"
proof
  fix x assume "x \<in> u_id ` set (users d)"
  then have "tbl_lookup u_id x (users d) \<noteq> None" by (simp add: tbl_lookup_None)
  then have "tbl_lookup u_id x (users (snd (stmt_upsert_user r t d))) \<noteq> None"
    by (auto simp: upsert_user_lookup split: option.splits)
  then show "x \<in> u_id ` set (users (snd (stmt_upsert_user r t d)))" by (simp add: tbl_lookup_None)
qed

lemma db_ok_upsert_user: "db_ok d \<Longrightarrow> db_ok (snd (stmt_upsert_user r t d))"
proof -
  assume ok: "db_ok d"
  have "tbl_ok u_id (users (snd (stmt_upsert_user r t d)))"
    using ok users_tbl.upsert_ok [of "users d" "relogin r" r]
    by (simp add: stmt_upsert_user_def Let_def tbl_upsert_def db_ok_def)
  then show ?thesis
    using ok upsert_user_ids [of d r t] by (fastforce simp: db_ok_def hits_fk_def visitors_fk_def)
qed

lemma reads_select_user [simp]: "reads (stmt_select_user uid)"
  by (simp add: reads_def stmt_select_user_def)

lemma upsert_keeps_status:
  "user_status d k = Some s \<Longrightarrow> user_status (snd (stmt_upsert_user r t d)) k = Some s"
  by (auto simp: user_status_def upsert_user_lookup split: option.splits)

section \<open>Operations\<close>

lemma UpsertLogin_world:
  "snd (UpsertLogin e uid email name picture ip w) =
     snd (sql_row e [uid, email, name, picture, StatusActive, ip]
       (stmt_upsert_user (login_row uid email name picture (go_Now e (tick w)) ip)) (snd (time_Now e w)))"
  by (auto simp: UpsertLogin_def time_Now_def split: prod.split sum.split)

lemma UpsertLogin_inv:
  "P (db w) \<Longrightarrow> (\<And>r t d. P d \<Longrightarrow> P (snd (stmt_upsert_user r t d))) \<Longrightarrow>
     P (db (snd (UpsertLogin e uid email name picture ip w)))"
  unfolding UpsertLogin_world
  by (rule stmt_effect_snd [OF sql_row_effect]) auto

lemma IsBanned_db [simp, frame]: "db (snd (IsBanned e uid w)) = db w"
  using reads_row_db [OF reads_select_user, of e "[uid]" uid w]
  by (auto simp: IsBanned_def split: prod.splits sum.splits)

lemma Get_user_db [simp, frame]: "db (snd (Get_user e uid w)) = db w"
  using reads_row_db [OF reads_select_user, of e "[uid]" uid w]
  by (auto simp: Get_user_def split: prod.splits sum.splits)

lemma UpsertLogin_tables [simp, frame]:
  "webhook_bins (db (snd (UpsertLogin e uid email name picture ip w))) = webhook_bins (db w)"
  "webhook_hits (db (snd (UpsertLogin e uid email name picture ip w))) = webhook_hits (db w)"
  "visitors (db (snd (UpsertLogin e uid email name picture ip w))) = visitors (db w)"
  by (rule UpsertLogin_inv [of "\<lambda>d. webhook_bins d = webhook_bins (db w)"], auto)
    (rule UpsertLogin_inv [of "\<lambda>d. webhook_hits d = webhook_hits (db w)"], auto,
     rule UpsertLogin_inv [of "\<lambda>d. visitors d = visitors (db w)"], auto)

lemma UpsertLogin_db_ok: "db_ok (db w) \<Longrightarrow> db_ok (db (snd (UpsertLogin e uid email name picture ip w)))"
  by (rule UpsertLogin_inv) (auto intro: db_ok_upsert_user)

text \<open>No call made with the row of a banned user in the table reports a clean login.\<close>

lemma UpsertLogin_result:
  assumes "UpsertLogin e uid email name picture ip w = ((Some u, er), w')"
  shows "tbl_lookup u_id uid (users (db w')) = Some u"
    and "er = (if u_status u = StatusBanned then Some ErrBanned else None)"
proof -
  let ?r = "login_row uid email name picture (go_Now e (tick w)) ip"
  let ?ps = "[uid, email, name, picture, StatusActive, ip]"
  have row: "sql_row e ?ps (stmt_upsert_user ?r) (bump w) = (Inr u, w')"
    and er: "er = (if u_status u = StatusBanned then Some ErrBanned else None)"
    using assms by (auto simp: UpsertLogin_def time_Now_def split: prod.splits sum.splits if_splits)
  from er show "er = (if u_status u = StatusBanned then Some ErrBanned else None)" .
  have "stmt_upsert_user ?r (pg_NOW e (tick (bump w))) (db (bump w)) = (Inr (Some u), db w')"
    using sql_exec_Inr(3) [OF sql_row_Inr [OF row]] .
  then show "tbl_lookup u_id uid (users (db w')) = Some u"
    using upsert_user_result [of ?r "pg_NOW e (tick (bump w))" "db (bump w)"]
    by (simp add: login_row_def)
qed

lemma UpsertLogin_status:
  "user_status (db w) k = Some s \<Longrightarrow>
     user_status (db (snd (UpsertLogin e uid email name picture ip w))) k = Some s"
  by (rule UpsertLogin_inv) (auto intro: upsert_keeps_status)

text \<open>A list of logins, each with its own environment.\<close>

type_synonym login = "env \<times> string \<times> string \<times> string \<times> string \<times> string"

fun logins :: "login list \<Rightarrow> 'k world \<Rightarrow> (user_row option \<times> go_error option) list \<times> 'k world" where
  "logins [] w = ([], w)"
| "logins ((e, uid, email, name, picture, ip) # ls) w =
     (case UpsertLogin e uid email name picture ip w of
        (r, w1) \<Rightarrow> (case logins ls w1 of (rs, w2) \<Rightarrow> (r # rs, w2)))"

lemma logins_status:
  "user_status (db w) k = Some s \<Longrightarrow> user_status (db (snd (logins ls w))) k = Some s"
proof (induction ls w rule: logins.induct)
  case (2 e uid email name picture ip ls w)
  then show ?case
    using UpsertLogin_status [of w k s e uid email name picture ip]
    by (auto split: prod.splits)
qed simp

section \<open>Properties\<close>

text \<open>
  C15. A ban survives logins: whatever logins are made, with whatever failures of the
  database, a banned user stays banned and none of their logins reports success.
\<close>

theorem ban_survives_logins:
  assumes "user_status (db w) uid = Some StatusBanned"
  shows "user_status (db (snd (logins ls w))) uid = Some StatusBanned \<and>
    snd (fst (UpsertLogin e uid email name picture ip (snd (logins ls w)))) \<noteq> None"
proof -
  let ?w = "snd (logins ls w)"
  have b: "user_status (db ?w) uid = Some StatusBanned" by (rule logins_status [OF assms])
  obtain uo er w' where u: "UpsertLogin e uid email name picture ip ?w = ((uo, er), w')"
    by (metis surj_pair)
  have "er \<noteq> None"
  proof (cases uo)
    case None
    then show ?thesis
      using u by (auto simp: UpsertLogin_def split: prod.splits sum.splits if_splits)
  next
    case (Some r)
    have "user_status (db w') uid = Some StatusBanned"
      using UpsertLogin_status [OF b, of e uid email name picture ip] u by simp
    then show ?thesis
      using UpsertLogin_result [of e uid email name picture ip ?w r er w'] u Some
      by (auto simp: user_status_def)
  qed
  then show ?thesis using b u by simp
qed

lemmas user_eval = UpsertLogin_def stmt_upsert_user_def login_row_def relogin_def time_Now_def
  sql_row_def sql_exec_def sql_run_def tbl_upsert_def tbl_insert_def tbl_update_def tbl_lookup_def
  bump_def StatusActive_def StatusBanned_def

definition banned_db :: db where
  "banned_db = empty_db\<lparr>users := [(login_row ''u1'' ''a@b.c'' ''A'' [] 0 ''1.2.3.4'')\<lparr>u_status := StatusBanned\<rparr>]\<rparr>"

theorem ban_survives_logins_witness:
  "user_status (db (snd (logins [(demo_env 0, ''u1'', ''x@y.z'', ''B'', [], ''5.6.7.8'')] (demo_world banned_db)))) ''u1''
     = Some StatusBanned"
  using ban_survives_logins [of "demo_world banned_db" "''u1''"
      "[(demo_env 0, ''u1'', ''x@y.z'', ''B'', [], ''5.6.7.8'')]" "demo_env 0" "[]" "[]" "[]" "[]"]
  by (simp add: banned_db_def user_status_def tbl_lookup_def login_row_def)

text \<open>
  A login that reports success is read back: on a healthy database \<^verbatim>\<open>Get\<close>
  returns the row the login returned and \<^verbatim>\<open>IsBanned\<close> says no.
\<close>

theorem login_then_get:
  assumes "UpsertLogin e uid email name picture ip w = ((Some u, None), w')"
    and "pg_healthy e'" and "pg_text_ok e' uid"
  shows "fst (Get_user e' uid w') = Inr u \<and> fst (IsBanned e' uid w') = Inr False"
proof -
  have l: "tbl_lookup u_id uid (users (db w')) = Some u" and "u_status u \<noteq> StatusBanned"
    using UpsertLogin_result [OF assms(1)] by (auto split: if_splits)
  moreover have "sql_row e' [uid] (stmt_select_user uid) w' = (Inr u, bump w')"
    using sql_row_ok [of e' w' "[uid]" "stmt_select_user uid" "Some u" "db w'"] assms(2,3) l
    by (auto simp: stmt_select_user_def)
  ultimately show ?thesis by (simp add: Get_user_def IsBanned_def)
qed

theorem login_then_get_witness:
  "let w' = snd (UpsertLogin (demo_env 0) ''u1'' ''a@b.c'' ''A'' [] ''1.2.3.4'' (demo_world empty_db))
   in fst (IsBanned (demo_env 0) ''u1'' w') = Inr False"
  using login_then_get [of "demo_env 0" "''u1''" "''a@b.c''" "''A''" "[]" "''1.2.3.4''"
      "demo_world empty_db" _ _ "demo_env 0"]
  by (simp add: user_eval empty_db_def)

end
