(* ===== verification/Auth.thy ===== *)
theory Auth
  imports Http_Model User_Store
begin

text \<open>
  \<^verbatim>\<open>internal/auth\<close>: sessions (\<^verbatim>\<open>session.go\<close>, \<^verbatim>\<open>middleware.go\<close>) and the
  Google login (\<^verbatim>\<open>google.go\<close>). The JWT library, the OAuth client, Google's user info
  service and the JSON decoder of its answer are arguments.
\<close>

section \<open>Sessions\<close>

text \<open>\<^verbatim>\<open>auth.Claims\<close> with its registered claims.\<close>

record claims =
  cl_uid :: string
  cl_email :: string
  cl_name :: string
  cl_picture :: string
  cl_subject :: string
  cl_issuer :: string
  cl_issued :: "time option"
  cl_expires :: "time option"

text \<open>
  \<^verbatim>\<open>golang-jwt\<close>: signing with an algorithm and a key; parsing at a time, with the
  valid methods and the key function, gives the claims of a valid token.
\<close>

record jwt_lib =
  jwt_Sign :: "string \<Rightarrow> string \<Rightarrow> claims \<Rightarrow> string + string"
  jwt_Parse :: "time \<Rightarrow> string list \<Rightarrow> (string \<Rightarrow> string option) \<Rightarrow> string \<Rightarrow> claims option"

record session_manager =
  sm_secret :: string
  sm_cookie :: string
  sm_secure :: bool
  sm_ttl :: duration

definition NewSessionManager :: "string \<Rightarrow> string \<Rightarrow> bool \<Rightarrow> duration \<Rightarrow> session_manager" where
  "NewSessionManager secret cookieName secure ttl =
     \<lparr>sm_secret = secret, sm_cookie = cookieName, sm_secure = secure, sm_ttl = ttl\<rparr>"

text \<open>\<^verbatim>\<open>jwt.NewNumericDate\<close> keeps seconds.\<close>

definition NumericDate :: "time \<Rightarrow> time" where
  "NumericDate t = t - t mod Second"

definition session_claims :: "session_manager \<Rightarrow> session_user \<Rightarrow> time \<Rightarrow> claims" where
  "session_claims sm u now =
     \<lparr>cl_uid = ID u, cl_email = Email u, cl_name = Name u, cl_picture = Picture u,
      cl_subject = ID u, cl_issuer = ''tools-api.riyanathariq.space'',
      cl_issued = Some (NumericDate now), cl_expires = Some (NumericDate (now + sm_ttl sm))\<rparr>"

definition session_cookie :: "session_manager \<Rightarrow> string \<Rightarrow> int \<Rightarrow> cookie" where
  "session_cookie sm val age =
     \<lparr>ck_name = sm_cookie sm, ck_value = val, ck_path = ''/'', ck_http_only = True,
      ck_secure = sm_secure sm, ck_same_site = SameSiteLax, ck_max_age = age\<rparr>"

type_synonym 'k hstate = "writer \<times> 'k world"

definition Issue :: "env \<Rightarrow> jwt_lib \<Rightarrow> session_manager \<Rightarrow> session_user \<Rightarrow> 'k hstate \<Rightarrow> go_error option \<times> 'k hstate" where
  "Issue e jw sm u s =
     (if ID u = '''' \<or> Email u = '''' then (Some (Errorf ''invalid user for session''), s)
      else
        (case s of (wr, w) \<Rightarrow>
           let (now, w) = time_Now e w in
           case jwt_Sign jw ''HS256'' (sm_secret sm) (session_claims sm u now) of
             Inl m \<Rightarrow> (Some (Errorf m), wr, w)
           | Inr tok \<Rightarrow> (None, SetCookie (session_cookie sm tok (int_Seconds (sm_ttl sm))) wr, w)))"

definition Clear :: "session_manager \<Rightarrow> writer \<Rightarrow> writer" where
  "Clear sm wr = SetCookie (session_cookie sm '''' (-1)) wr"

definition key_func :: "session_manager \<Rightarrow> string \<Rightarrow> string option" where
  "key_func sm alg = (if alg \<noteq> ''HS256'' then None else Some (sm_secret sm))"

definition UserFromRequest :: "env \<Rightarrow> jwt_lib \<Rightarrow> session_manager \<Rightarrow> request \<Rightarrow> 'k world
    \<Rightarrow> (go_error + session_user) \<times> 'k world" where
  "UserFromRequest e jw sm r w =
     (case map_of (cookies r) (sm_cookie sm) of
        None \<Rightarrow> (Inl (Errorf ''unauthenticated''), w)
      | Some val \<Rightarrow>
          if val = '''' then (Inl (Errorf ''unauthenticated''), w)
          else
            (let (now, w) = time_Now e w in
             case jwt_Parse jw now [''HS256''] (key_func sm) val of
               None \<Rightarrow> (Inl (Errorf ''invalid session''), w)
             | Some cl \<Rightarrow>
                 (let uid = (if cl_uid cl = '''' then cl_subject cl else cl_uid cl) in
                  if uid = '''' \<or> cl_email cl = '''' then (Inl (Errorf ''invalid session claims''), w)
                  else (Inr \<lparr>ID = uid, Email = cl_email cl, Name = cl_name cl, Picture = cl_picture cl\<rparr>, w))))"

text \<open>The user in the request's context.\<close>

definition WithUser :: "session_user \<Rightarrow> request \<Rightarrow> request" where
  "WithUser u r = r\<lparr>ctx_user := Some u\<rparr>"

definition UserFromContext :: "request \<Rightarrow> session_user option" where
  "UserFromContext r = ctx_user r"

definition RequireUser :: "env \<Rightarrow> jwt_lib \<Rightarrow> session_manager \<Rightarrow> 'k handler \<Rightarrow> 'k handler" where
  "RequireUser e jw sm next r s =
     (case s of (wr, w) \<Rightarrow>
        case UserFromRequest e jw sm r w of
          (Inl _, w) \<Rightarrow> (None, writeJSON 401 (err_obj ''unauthenticated'') wr, w)
        | (Inr u, w) \<Rightarrow> next (WithUser u r) (wr, w))"

section \<open>net/url and net, as far as the login uses them\<close>

text \<open>
  \<^verbatim>\<open>url.Parse\<close> on a string that starts with one slash: no scheme and no host can be
  found; it fails on a control byte before the fragment and on a malformed escape in the path
  or the fragment.
\<close>

definition is_hex :: "char \<Rightarrow> bool" where
  "is_hex c \<longleftrightarrow> is_hex_lower c \<or> CHR ''A'' \<le> c \<and> c \<le> CHR ''F''"

fun escapes_ok :: "string \<Rightarrow> bool" where
  "escapes_ok [] = True"
| "escapes_ok (c # s) =
     (if c = CHR ''%''
      then (case s of a # b # s' \<Rightarrow> is_hex a \<and> is_hex b \<and> escapes_ok s' | _ \<Rightarrow> False)
      else escapes_ok s)"

definition ctl_byte :: "char \<Rightarrow> bool" where
  "ctl_byte c \<longleftrightarrow> (of_char c :: nat) < 32 \<or> (of_char c :: nat) = 127"

definition before :: "char \<Rightarrow> string \<Rightarrow> string" where
  "before c s = takeWhile (\<lambda>x. x \<noteq> c) s"

definition after :: "char \<Rightarrow> string \<Rightarrow> string" where
  "after c s = drop 1 (dropWhile (\<lambda>x. x \<noteq> c) s)"

definition rooted_url_ok :: "string \<Rightarrow> bool" where
  "rooted_url_ok s \<longleftrightarrow>
     (let u = before (CHR ''#'') s in
      list_all (\<lambda>c. \<not> ctl_byte c) u \<and> escapes_ok (before (CHR ''?'') u) \<and> escapes_ok (after (CHR ''#'') s))"

text \<open>\<^verbatim>\<open>url.QueryEscape\<close>.\<close>

definition hex_upper :: "nat \<Rightarrow> char" where
  "hex_upper n = ''0123456789ABCDEF'' ! (n mod 16)"

definition query_plain :: "char \<Rightarrow> bool" where
  "query_plain c \<longleftrightarrow>
     list_ex (\<lambda>(lo, hi). lo \<le> c \<and> c \<le> hi) [(CHR ''a'', CHR ''z''), (CHR ''A'', CHR ''Z''), (CHR ''0'', CHR ''9'')] \<or>
     c \<in> set ''-_.~''"

definition QueryEscape :: "string \<Rightarrow> string" where
  "QueryEscape s =
     concat (map (\<lambda>c. if query_plain c then [c] else if c = CHR '' '' then ''+''
                      else [CHR ''%'', hex_upper (of_char c div 16), hex_upper (of_char c mod 16)]) s)"

text \<open>The host of \<^verbatim>\<open>net.SplitHostPort\<close>.\<close>

definition SplitHostPort :: "string \<Rightarrow> string option" where
  "SplitHostPort hp =
     (let i = LastIndex hp (CHR '':'') in
      if i < 0 then None
      else if hd hp = CHR ''[''
      then (if CHR '']'' \<notin> set hp then None
            else
              (let end = length (before (CHR '']'') hp) in
               if end + 1 \<noteq> nat i then None
               else if CHR ''['' \<in> set (drop 1 hp) \<or> CHR '']'' \<in> set (drop (end + 1) hp) then None
               else Some (take (end - 1) (drop 1 hp))))
      else
        (let host = take (nat i) hp in
         if CHR '':'' \<in> set host \<or> CHR ''['' \<in> set hp \<or> CHR '']'' \<in> set hp then None else Some host))"

section \<open>Google login\<close>

definition sanitizeNext :: "string \<Rightarrow> string" where
  "sanitizeNext nxt =
     (let nxt = TrimSpace nxt in
      if nxt = '''' then ''/''
      else if \<not> HasPrefix nxt ''/'' \<or> HasPrefix nxt ''//'' then ''/''
      else if ContainsAny nxt [CHR 0x0D, CHR 0x0A] then ''/''
      else if \<not> rooted_url_ok nxt then ''/''
      else nxt)"

definition requestIP :: "request \<Rightarrow> string" where
  "requestIP r =
     (if header_Get r ''X-Forwarded-For'' \<noteq> '''' then TrimSpace (hd (Split (header_Get r ''X-Forwarded-For'') (CHR '','')))
      else if header_Get r ''X-Real-Ip'' \<noteq> '''' then header_Get r ''X-Real-Ip''
      else case SplitHostPort (remote_addr r) of None \<Rightarrow> remote_addr r | Some host \<Rightarrow> host)"

text \<open>
  \<^verbatim>\<open>GoogleAuth\<close> and the services behind it, by interaction number: the authorisation URL
  for a state, the exchange of a code for a token, the answer of the user info endpoint
  (status, bytes, and how reading them ends) and its decoding (sub, email, name, picture).
\<close>

record google_auth =
  g_client_id :: string
  g_client_secret :: string
  g_redirect :: string
  g_front :: string

record oauth_lib =
  AuthCodeURL :: "google_auth \<Rightarrow> string \<Rightarrow> string"
  Exchange :: "google_auth \<Rightarrow> nat \<Rightarrow> string \<Rightarrow> string + string"
  userinfo_Do :: "nat \<Rightarrow> string \<Rightarrow> string + (int \<times> string \<times> string option)"
  userinfo_Unmarshal :: "string \<Rightarrow> string + (string \<times> string \<times> string \<times> string)"

definition NewGoogleAuth :: "string \<Rightarrow> string \<Rightarrow> string \<Rightarrow> string \<Rightarrow> google_auth" where
  "NewGoogleAuth clientID clientSecret publicBaseURL frontendURL =
     \<lparr>g_client_id = clientID, g_client_secret = clientSecret,
      g_redirect = TrimRight publicBaseURL ''/'' @ ''/auth/google/callback'',
      g_front = TrimRight frontendURL ''/''\<rparr>"

definition Enabled :: "google_auth \<Rightarrow> bool" where
  "Enabled g \<longleftrightarrow> g_client_id g \<noteq> '''' \<and> g_client_secret g \<noteq> ''''"

definition short_cookie :: "session_manager \<Rightarrow> string \<Rightarrow> string \<Rightarrow> int \<Rightarrow> cookie" where
  "short_cookie sm name val age =
     \<lparr>ck_name = name, ck_value = val, ck_path = ''/'', ck_http_only = True,
      ck_secure = sm_secure sm, ck_same_site = SameSiteLax, ck_max_age = age\<rparr>"

definition setShortCookie :: "session_manager \<Rightarrow> string \<Rightarrow> string \<Rightarrow> duration \<Rightarrow> writer \<Rightarrow> writer" where
  "setShortCookie sm name val ttl wr = SetCookie (short_cookie sm name val (int_Seconds ttl)) wr"

definition clearCookie :: "session_manager \<Rightarrow> string \<Rightarrow> writer \<Rightarrow> writer" where
  "clearCookie sm name wr = SetCookie (short_cookie sm name '''' (-1)) wr"

definition randomState :: "env \<Rightarrow> nat \<Rightarrow> 'k world \<Rightarrow> (go_error + string) \<times> 'k world" where
  "randomState e n w =
     (case rand_Read e n w of
        (Inl er, w) \<Rightarrow> (Inl er, w)
      | (Inr b, w) \<Rightarrow> (Inr (RawURLEncoding b), w))"

definition Begin :: "env \<Rightarrow> oauth_lib \<Rightarrow> google_auth \<Rightarrow> session_manager \<Rightarrow> 'k handler" where
  "Begin e ol g sm r s =
     (case s of (wr, w) \<Rightarrow>
        if \<not> Enabled g then (None, writeJSON 503 (err_obj ''Google OAuth is not configured'') wr, w)
        else
          (case randomState e 32 w of
             (Inl er, w) \<Rightarrow>
               (None, writeJSON 500 (err_obj ''failed to start login'') wr,
                log_line ''oauth state generation failed'' [(''err'', error_text er)] w)
           | (Inr state, w) \<Rightarrow>
               (let nxt = sanitizeNext (query_Get r ''next'');
                    wr = setShortCookie sm ''oauth_state'' state (10 * Minute) wr;
                    wr = setShortCookie sm ''oauth_next'' nxt (10 * Minute) wr
                in (None, http_Redirect r (AuthCodeURL ol g state) 302 wr, w))))"

definition fetchUser :: "oauth_lib \<Rightarrow> string \<Rightarrow> 'k world \<Rightarrow> (go_error + session_user) \<times> 'k world" where
  "fetchUser ol tok w =
     (case userinfo_Do ol (tick w) tok of
        Inl m \<Rightarrow> (Inl (Errorf m), bump w)
      | Inr (status, bytes, ending) \<Rightarrow>
          (let w = bump w in
           if length bytes < 1048576 \<and> ending \<noteq> None then (Inl (Errorf (the ending)), w)
           else
             (let bytes = take 1048576 bytes in
              if 300 \<le> status
              then (Inl (Errorf (''userinfo status '' @ Itoa status @ '': '' @ TrimSpace bytes)), w)
              else
                (case userinfo_Unmarshal ol bytes of
                   Inl m \<Rightarrow> (Inl (Errorf m), w)
                 | Inr (sub, email, name, picture) \<Rightarrow>
                     if sub = '''' \<or> email = '''' then (Inl (Errorf ''incomplete google profile''), w)
                     else (Inr \<lparr>ID = sub, Email = email, Name = name, Picture = picture\<rparr>, w)))))"

text \<open>The last part of \<^verbatim>\<open>Callback\<close>: the session and the way back.\<close>

definition callback_session :: "env \<Rightarrow> jwt_lib \<Rightarrow> google_auth \<Rightarrow> session_manager \<Rightarrow> session_user \<Rightarrow> 'k handler" where
  "callback_session e jw g sm profile r s =
     (case Issue e jw sm profile s of
        (Some er, wr, w) \<Rightarrow>
          (None, writeJSON 500 (err_obj ''failed to create session'') wr,
           log_line ''session issue failed'' [(''err'', error_text er)] w)
      | (None, wr, w) \<Rightarrow>
          (let nxt = (case map_of (cookies r) ''oauth_next'' of Some c \<Rightarrow> sanitizeNext c | None \<Rightarrow> ''/'');
               wr = clearCookie sm ''oauth_next'' (clearCookie sm ''oauth_state'' wr)
           in (None, http_Redirect r (g_front g @ nxt) 302 wr, w)))"

definition Callback :: "env \<Rightarrow> jwt_lib \<Rightarrow> oauth_lib \<Rightarrow> google_auth \<Rightarrow> session_manager \<Rightarrow> 'k handler" where
  "Callback e jw ol g sm r s =
     (case s of (wr, w) \<Rightarrow>
        if \<not> Enabled g then (None, writeJSON 503 (err_obj ''Google OAuth is not configured'') wr, w)
        else if query_Get r ''error'' \<noteq> ''''
        then (None, http_Redirect r (g_front g @ ''/login?error='' @ QueryEscape (query_Get r ''error'')) 302 wr,
              log_line ''google oauth error'' [(''error'', query_Get r ''error'')] w)
        else if (case map_of (cookies r) ''oauth_state'' of
                   None \<Rightarrow> True | Some c \<Rightarrow> c = '''' \<or> c \<noteq> query_Get r ''state'')
        then (None, writeJSON 400 (err_obj ''invalid oauth state'') wr, w)
        else if query_Get r ''code'' = '''' then (None, writeJSON 400 (err_obj ''missing code'') wr, w)
        else
          (case Exchange ol g (tick w) (query_Get r ''code'') of
             Inl m \<Rightarrow>
               (None, writeJSON 502 (err_obj ''token exchange failed'') wr,
                log_line ''token exchange failed'' [(''err'', m)] (bump w))
           | Inr tok \<Rightarrow>
          (case fetchUser ol tok (bump w) of
             (Inl er, w) \<Rightarrow>
               (None, writeJSON 502 (err_obj ''failed to fetch profile'') wr,
                log_line ''fetch google profile failed'' [(''err'', error_text er)] w)
           | (Inr p, w) \<Rightarrow>
          (case UpsertLogin e (ID p) (Email p) (Name p) (Picture p) (requestIP r) w of
             ((_, Some er), w) \<Rightarrow>
               if errors_Is er ErrBanned
               then (None, http_Redirect r (g_front g @ ''/?error='' @ QueryEscape ''account_banned'') 302
                       (clearCookie sm ''oauth_next'' (clearCookie sm ''oauth_state'' (Clear sm wr))), w)
               else (None, writeJSON 500 (err_obj ''failed to persist user'') wr,
                     log_line ''user upsert failed'' [(''err'', error_text er)] w)
           | ((_, None), w) \<Rightarrow> callback_session e jw g sm p r (wr, w)))))"

definition user_json :: "session_user \<Rightarrow> json" where
  "user_json u =
     JObj ([(''id'', JStr (ID u)), (''email'', JStr (Email u)), (''name'', JStr (Name u))] @
           (if Picture u = '''' then [] else [(''picture'', JStr (Picture u))]))"

definition Me :: "env \<Rightarrow> jwt_lib \<Rightarrow> session_manager \<Rightarrow> 'k handler" where
  "Me e jw sm r s =
     (case s of (wr, w) \<Rightarrow>
        case UserFromRequest e jw sm r w of
          (Inl _, w) \<Rightarrow> (None, writeJSON 401 (err_obj ''unauthenticated'') wr, w)
        | (Inr u, w) \<Rightarrow> (None, writeJSON 200 (JObj [(''user'', user_json u)]) wr, w))"

definition Logout :: "session_manager \<Rightarrow> 'k handler" where
  "Logout sm r s =
     (case s of (wr, w) \<Rightarrow> (None, writeJSON 200 (JObj [(''ok'', JBool True)]) (Clear sm wr), w))"

definition auth_Status :: "google_auth \<Rightarrow> 'k handler" where
  "auth_Status g r s =
     (case s of (wr, w) \<Rightarrow> (None, writeJSON 200 (JObj [(''googleConfigured'', JBool (Enabled g))]) wr, w))"

end
