(* ===== verification/Auth_Spec.thy ===== *)
theory Auth_Spec
  imports Auth
begin

text \<open>
  Properties of the sessions and of the Google login: the path a login returns to, sessions
  read back, forged callbacks, what a session cookie proves, and the whole flow, with concrete
  instances of the token library and of Google.
\<close>

section \<open>The way back after a login stays on the site\<close>

lemma sanitizeNext_cases:
  "sanitizeNext s = ''/'' \<or>
   sanitizeNext s = TrimSpace s \<and> HasPrefix (TrimSpace s) ''/'' \<and> \<not> HasPrefix (TrimSpace s) ''//'' \<and>
     \<not> ContainsAny (TrimSpace s) [CHR 0x0D, CHR 0x0A] \<and> rooted_url_ok (TrimSpace s)"
  by (simp add: sanitizeNext_def Let_def)

lemma sanitizeNext_root [simp]: "sanitizeNext ''/'' = ''/''"
  by code_simp

lemma sanitizeNext_trim [simp]: "sanitizeNext (TrimSpace s) = sanitizeNext s"
  by (simp add: sanitizeNext_def)

lemma sanitizeNext_idem [simp]: "sanitizeNext (sanitizeNext s) = sanitizeNext s"
  using sanitizeNext_cases [of s] by (metis sanitizeNext_root sanitizeNext_trim)

text \<open>
  C32. The path a login returns to is on the site: whatever the \<^verbatim>\<open>next\<close> parameter or
  cookie holds, the sanitised value starts with exactly one slash, holds no line break, is
  the trimmed value or the root, and is kept when it is sanitised again.
\<close>

theorem next_path_is_local:
  "HasPrefix (sanitizeNext s) ''/'' \<and> \<not> HasPrefix (sanitizeNext s) ''//'' \<and>
   set (sanitizeNext s) \<inter> {CHR 0x0D, CHR 0x0A} = {} \<and>
   sanitizeNext s \<in> {''/'', TrimSpace s} \<and> sanitizeNext (sanitizeNext s) = sanitizeNext s"
proof -
  have "HasPrefix ''/'' ''/'' \<and> \<not> HasPrefix ''/'' ''//''" by (simp add: HasPrefix_def)
  then show ?thesis
    using sanitizeNext_cases [of s] by (auto simp: ContainsAny_iff)
qed

section \<open>Sessions are read back until they expire\<close>

text \<open>
  What the code relies on of the JWT library: a token signed with an algorithm and a key is
  not empty, and parsing it under that key, with the algorithm among the valid methods, gives
  the signed claims back before their expiry and fails from it on. (JSON keeps valid UTF-8.)
\<close>

definition claims_text :: "claims \<Rightarrow> string list" where
  "claims_text cl = [cl_uid cl, cl_email cl, cl_name cl, cl_picture cl, cl_subject cl, cl_issuer cl]"

definition in_time :: "time \<Rightarrow> claims \<Rightarrow> bool" where
  "in_time now cl \<longleftrightarrow> (case cl_expires cl of None \<Rightarrow> True | Some x \<Rightarrow> now < x)"

definition jwt_spec :: "jwt_lib \<Rightarrow> bool" where
  "jwt_spec jw \<longleftrightarrow>
     (\<forall>alg key cl tok. jwt_Sign jw alg key cl = Inr tok \<longrightarrow> list_all utf8_valid (claims_text cl) \<longrightarrow>
        tok \<noteq> [] \<and>
        (\<forall>now ms kf. alg \<in> set ms \<longrightarrow> kf alg = Some key \<longrightarrow>
           jwt_Parse jw now ms kf tok = (if in_time now cl then Some cl else None)))"

lemma jwt_specD:
  assumes "jwt_spec jw" "jwt_Sign jw alg key cl = Inr tok" "list_all utf8_valid (claims_text cl)"
  shows "tok \<noteq> []"
    and "alg \<in> set ms \<Longrightarrow> kf alg = Some key \<Longrightarrow> jwt_Parse jw now ms kf tok = (if in_time now cl then Some cl else None)"
  using assms unfolding jwt_spec_def by blast+

lemma Issue_ok:
  assumes "Issue e jw sm u (wr, w) = (None, wr', w')"
  obtains tok where "ID u \<noteq> []" "Email u \<noteq> []"
    "jwt_Sign jw ''HS256'' (sm_secret sm) (session_claims sm u (go_Now e (tick w))) = Inr tok"
    "wr' = SetCookie (session_cookie sm tok (int_Seconds (sm_ttl sm))) wr" "w' = bump w"
  using assms by (auto simp: Issue_def time_Now_def Let_def split: if_splits sum.splits)

definition user_text :: "session_user \<Rightarrow> string list" where
  "user_text u = [ID u, Email u, Name u, Picture u]"

lemma session_claims_text:
  "list_all utf8_valid (user_text u) \<Longrightarrow> list_all utf8_valid (claims_text (session_claims sm u now))"
proof -
  have "utf8_valid ''tools-api.riyanathariq.space''" by code_simp
  then show "list_all utf8_valid (user_text u) \<Longrightarrow> ?thesis"
    by (simp add: claims_text_def session_claims_def user_text_def)
qed

text \<open>
  C14. A session is read back: the cookie \<^verbatim>\<open>Issue\<close> sets is HTTP-only and SameSite=Lax,
  and a request that carries its value is the user's, from any clock before the expiry at
  whole seconds, and is an invalid session from then on.
\<close>

theorem session_round_trip:
  assumes "jwt_spec jw" and "list_all utf8_valid (user_text u)"
    and "Issue e jw sm u (wr, w) = (None, wr', w')"
    and "map_of (cookies r) (sm_cookie sm) = Some (ck_value (last (w_cookies wr')))"
  shows "UserFromRequest e' jw sm r v =
      (if go_Now e' (tick v) < NumericDate (go_Now e (tick w) + sm_ttl sm) then Inr u
       else Inl (Errorf ''invalid session''), bump v) \<and>
    ck_name (last (w_cookies wr')) = sm_cookie sm \<and> ck_http_only (last (w_cookies wr')) \<and>
    ck_same_site (last (w_cookies wr')) = SameSiteLax \<and> ck_secure (last (w_cookies wr')) = sm_secure sm \<and>
    ck_max_age (last (w_cookies wr')) = int_Seconds (sm_ttl sm)"
proof -
  let ?cl = "session_claims sm u (go_Now e (tick w))"
  obtain tok where u: "ID u \<noteq> []" "Email u \<noteq> []" and sign: "jwt_Sign jw ''HS256'' (sm_secret sm) ?cl = Inr tok"
    and wr': "wr' = SetCookie (session_cookie sm tok (int_Seconds (sm_ttl sm))) wr"
    using assms(3) by (rule Issue_ok)
  have tx: "list_all utf8_valid (claims_text ?cl)" by (rule session_claims_text [OF assms(2)])
  have "jwt_Parse jw now [''HS256''] (key_func sm) tok = (if in_time now ?cl then Some ?cl else None)" for now
    by (rule jwt_specD(2) [OF assms(1) sign tx]) (simp_all add: key_func_def)
  moreover have "tok \<noteq> []" by (rule jwt_specD(1) [OF assms(1) sign tx])
  ultimately show ?thesis
    using assms(4) u
    by (simp add: UserFromRequest_def time_Now_def wr' SetCookie_def session_cookie_def in_time_def session_claims_def)
qed


section \<open>Logins\<close>

text \<open>The request carries a state cookie, not empty, with the state parameter's value.\<close>

definition state_matches :: "request \<Rightarrow> bool" where
  "state_matches r \<longleftrightarrow> (\<exists>st. map_of (cookies r) ''oauth_state'' = Some st \<and> st \<noteq> [] \<and> query_Get r ''state'' = st)"

lemma state_matches_eq [simp]:
  "(case map_of (cookies r) ''oauth_state'' of None \<Rightarrow> True | Some c \<Rightarrow> c = [] \<or> c \<noteq> query_Get r ''state'') \<longleftrightarrow>
     \<not> state_matches r"
  by (auto simp: state_matches_def split: option.split)

lemma cookies_writer [simp]:
  "w_cookies (Header_Set k v wr) = w_cookies wr" "w_cookies (WriteHeader st wr) = w_cookies wr"
  "w_cookies (write_out p wr) = w_cookies wr" "w_cookies (writeJSON st j wr) = w_cookies wr"
  "w_cookies (http_Redirect r u st wr) = w_cookies wr" "w_cookies (SetCookie c wr) = w_cookies wr @ [c]"
  by (simp_all add: Header_Set_def WriteHeader_def write_out_def Let_def writeJSON_def http_Redirect_def Let_def SetCookie_def
      split: option.split)

lemma new_writer_simps [simp]: "w_cookies new_writer = []" "w_sent new_writer = None"
  by (simp_all add: new_writer_def)

text \<open>
  C25. A forged callback does nothing: without a state cookie equal to the state parameter no
  cookie is set, no code is exchanged, no table or counter changes, and the answer is an error or
  the redirect of a login Google refused.
\<close>

theorem forged_callback_does_nothing:
  assumes "\<not> state_matches r" and "w_sent wr = None"
    and "Callback e jw ol g sm r (wr, w) = (p, wr', w')"
  shows "p = None \<and> w_cookies wr' = w_cookies wr \<and> db w' = db w \<and> vk w' = vk w \<and> tick w' = tick w \<and>
    status_of wr' \<in> {503, 302, 400} \<and> (status_of wr' = 302 \<longleftrightarrow> Enabled g \<and> query_Get r ''error'' \<noteq> [])"
  using assms
  by (auto simp: Callback_def status_of_def http_Redirect_def Let_def writeJSON_def WriteHeader_def Header_Set_def write_out_def
      split: if_splits)

text \<open>What a login that sets a cookie with a value went through.\<close>

lemma fetchUser_db [simp]: "db (snd (fetchUser ol tok w)) = db w"
  by (auto simp: fetchUser_def Let_def split: sum.split prod.split)

lemma UpsertLogin_clean:
  assumes "UpsertLogin e uid email name picture ip w = ((uo, None), w')"
  obtains u where "uo = Some u" "tbl_lookup u_id uid (users (db w')) = Some u" "u_status u \<noteq> StatusBanned"
proof -
  obtain u where u: "uo = Some u"
    using assms by (auto simp: UpsertLogin_def split: prod.splits sum.splits if_splits)
  have r: "UpsertLogin e uid email name picture ip w = ((Some u, None), w')" using assms u by simp
  have "u_status u \<noteq> StatusBanned" using UpsertLogin_result(2) [OF r] by (auto split: if_splits)
  then show ?thesis using that u UpsertLogin_result(1) [OF r] by blast
qed

definition logged_in :: "env \<Rightarrow> jwt_lib \<Rightarrow> oauth_lib \<Rightarrow> google_auth \<Rightarrow> session_manager \<Rightarrow> request \<Rightarrow> 'k world \<Rightarrow> cookie \<Rightarrow> db \<Rightarrow> bool" where
  "logged_in e jw ol g sm r w c d \<longleftrightarrow>
     (\<exists>tok p u t w2. state_matches r \<and> query_Get r ''code'' \<noteq> [] \<and>
        Exchange ol g (tick w) (query_Get r ''code'') = Inr tok \<and> fetchUser ol tok (bump w) = (Inr p, w2) \<and>
        tbl_lookup u_id (ID p) (users d) = Some u \<and> u_status u \<noteq> StatusBanned \<and>
        jwt_Sign jw ''HS256'' (sm_secret sm) (session_claims sm p (go_Now e t)) = Inr (ck_value c) \<and>
        ck_name c = sm_cookie sm)"

lemma callback_session_cookies:
  assumes "callback_session e jw g sm p r (wr, w) = (x, wr', w')" "c \<in> set (w_cookies wr')" "c \<notin> set (w_cookies wr)" "ck_value c \<noteq> []"
  shows "jwt_Sign jw ''HS256'' (sm_secret sm) (session_claims sm p (go_Now e (tick w))) = Inr (ck_value c) \<and>
    ck_name c = sm_cookie sm \<and> db w' = db w"
  using assms
  by (auto simp: callback_session_def Issue_def time_Now_def Let_def clearCookie_def short_cookie_def session_cookie_def
      split: if_splits sum.splits)

text \<open>
  C8. Nobody is logged in without Google: a cookie with a value that a callback sets is a
  session of the profile Google gave for the token of the code, signed with the secret, the state
  matched, and the user's row is in the table and not banned.
\<close>

theorem session_needs_google_login:
  assumes "Callback e jw ol g sm r (wr, w) = (x, wr', w')"
    and "c \<in> set (w_cookies wr')" and "c \<notin> set (w_cookies wr)" and "ck_value c \<noteq> []"
  shows "logged_in e jw ol g sm r w c (db w')"
proof -
  have new: "w_cookies wr' \<noteq> w_cookies wr" using assms(2,3) by auto
  have en: "Enabled g" "query_Get r ''error'' = []" "state_matches r" "query_Get r ''code'' \<noteq> []"
    using assms(1) new by (auto simp: Callback_def split: if_splits)
  then obtain tok where ex: "Exchange ol g (tick w) (query_Get r ''code'') = Inr tok"
    using assms(1) new by (auto simp: Callback_def split: sum.splits)
  obtain pr w2 where f: "fetchUser ol tok (bump w) = (pr, w2)" by fastforce
  obtain p where p: "pr = Inr p"
    using assms(1) new en ex f by (auto simp: Callback_def split: sum.splits)
  obtain uo er w3 where up: "UpsertLogin e (ID p) (Email p) (Name p) (Picture p) (requestIP r) w2 = ((uo, er), w3)"
    by (metis surj_pair)
  have er: "er = None"
  proof (rule ccontr)
    assume "er \<noteq> None"
    then obtain m where "er = Some m" by blast
    then show False
      using assms en ex f p up
      by (auto simp: Callback_def clearCookie_def Clear_def short_cookie_def session_cookie_def split: if_splits)
  qed
  have cs: "callback_session e jw g sm p r (wr, w3) = (x, wr', w')"
    using assms(1) en ex f p up er by (simp add: Callback_def)
  obtain u where "tbl_lookup u_id (ID p) (users (db w3)) = Some u" "u_status u \<noteq> StatusBanned"
    using UpsertLogin_clean [of e "ID p" "Email p" "Name p" "Picture p" "requestIP r" w2 uo w3] up er by auto
  with callback_session_cookies [OF cs assms(2-4)] en ex f p show ?thesis
    unfolding logged_in_def by auto
qed

text \<open>What a working database makes of a login.\<close>

lemma UpsertLogin_healthy:
  assumes "pg_healthy e" "\<forall>t. pg_text_ok e t"
  obtains u w' where
    "UpsertLogin e uid email name picture ip w = ((Some u, if u_status u = StatusBanned then Some ErrBanned else None), w')"
    "u_status u = (case user_status (db w) uid of None \<Rightarrow> StatusActive | Some s \<Rightarrow> s)"
proof -
  let ?r = "login_row uid email name picture (go_Now e (tick w)) ip"
  let ?us = "users (snd (stmt_upsert_user ?r 0 (db w)))"
  have id: "u_id ?r = uid" "u_status ?r = StatusActive" by (simp_all add: login_row_def)
  obtain u where u: "tbl_lookup u_id uid ?us = Some u"
    and st: "u_status u = (case user_status (db w) uid of None \<Rightarrow> StatusActive | Some s \<Rightarrow> s)"
    using upsert_user_lookup [of uid ?r 0 "db w"] id
    by (auto simp: user_status_def split: option.splits)
  have ex: "sql_exec e [uid, email, name, picture, StatusActive, ip] (stmt_upsert_user ?r) (bump w) =
      (Inr (Some u), bump ((bump w)\<lparr>db := snd (stmt_upsert_user ?r 0 (db w))\<rparr>))"
    by (rule sql_exec_ok)
      (use assms u id in \<open>auto simp: list_all_iff stmt_upsert_user_def Let_def\<close>)
  then show ?thesis
    using that st by (simp add: UpsertLogin_def time_Now_def sql_row_def)
qed

lemma fetchUser_profile: "fetchUser ol tok w = (Inr p, w') \<Longrightarrow> ID p \<noteq> [] \<and> Email p \<noteq> []"
  by (auto simp: fetchUser_def Let_def split: sum.splits prod.splits if_splits)

definition cookie_value :: "writer \<Rightarrow> string \<Rightarrow> string option" where
  "cookie_value wr n = map_of (map (\<lambda>c. (ck_name c, ck_value c)) (w_cookies wr)) n"

lemma Begin_302:
  assumes "Begin e ol g sm r (new_writer, w) = (x, wr, w')" "status_of wr = 302"
  obtains st where "st \<noteq> []" "is_ascii st" "cookie_value wr ''oauth_state'' = Some st"
    "cookie_value wr ''oauth_next'' = Some (sanitizeNext (query_Get r ''next''))"
    "map_of (head_of wr) ''Location'' = Some (hexEscapeNonASCII (AuthCodeURL ol g st))"
proof -
  have "status_of (writeJSON n j new_writer) = n" for n j
    by (simp add: status_of_def writeJSON_def write_out_def WriteHeader_def Header_Set_def new_writer_def)
  then have en: "Enabled g" using assms by (auto simp: Begin_def split: if_splits)
  obtain bs v where rr: "rand_Read e 32 w = (Inr bs, v)"
  proof (cases "rand_Read e 32 w")
    case (Pair a v)
    then show ?thesis
      using that assms en \<open>\<And>n j. status_of (writeJSON n j new_writer) = n\<close>
      by (cases a) (auto simp: Begin_def randomState_def)
  qed
  have "bs \<noteq> []" using rr by (auto simp: rand_Read_def split: option.splits)
  then have "RawURLEncoding bs \<noteq> []" by (simp add: RawURLEncoding_Nil)
  moreover have "wr = http_Redirect r (AuthCodeURL ol g (RawURLEncoding bs)) 302
      (setShortCookie sm ''oauth_next'' (sanitizeNext (query_Get r ''next'')) (10 * Minute)
        (setShortCookie sm ''oauth_state'' (RawURLEncoding bs) (10 * Minute) new_writer))"
    using assms(1) en rr by (simp add: Begin_def randomState_def Let_def)
  ultimately show ?thesis
    using that [of "RawURLEncoding bs"]
    by (simp add: RawURLEncoding_ascii cookie_value_def setShortCookie_def short_cookie_def http_Redirect_def Let_def new_writer_def)
qed

lemma status_redirect [simp]: "w_sent wr = None \<Longrightarrow> status_of (http_Redirect r u st wr) = st"
  by (simp add: status_of_def http_Redirect_def Let_def WriteHeader_def Header_Set_def)

lemma location_redirect [simp]:
  "w_sent wr = None \<Longrightarrow> map_of (head_of (http_Redirect r u st wr)) ''Location'' = Some (hexEscapeNonASCII u)"
  by (simp add: http_Redirect_def Let_def)

lemma Callback_clean:
  assumes "Enabled g" "query_Get r ''error'' = []" "state_matches r" "query_Get r ''code'' \<noteq> []"
    and "Exchange ol g (tick w) (query_Get r ''code'') = Inr tok" "fetchUser ol tok (bump w) = (Inr p, w1)"
    and "UpsertLogin e (ID p) (Email p) (Name p) (Picture p) (requestIP r) w1 = ((uo, None), w2)"
    and "jwt_Sign jw ''HS256'' (sm_secret sm) (session_claims sm p (go_Now e (tick w2))) = Inr val"
    and "map_of (cookies r) ''oauth_next'' = Some nxt"
  shows "Callback e jw ol g sm r (wr, w) =
    (None, http_Redirect r (g_front g @ sanitizeNext nxt) 302
       (clearCookie sm ''oauth_next'' (clearCookie sm ''oauth_state''
          (SetCookie (session_cookie sm val (int_Seconds (sm_ttl sm))) wr))), bump w2)"
proof -
  have "Issue e jw sm p (wr, w2) =
      (None, SetCookie (session_cookie sm val (int_Seconds (sm_ttl sm))) wr, bump w2)"
    using fetchUser_profile [OF assms(6)] assms(8) by (simp add: Issue_def time_Now_def)
  then show ?thesis using assms by (simp add: Callback_def callback_session_def Let_def)
qed


section \<open>Concrete instances\<close>

text \<open>
  A token library without cryptography: a token is the list of its fields. It has the laws of
  \<^const>\<open>jwt_spec\<close>, nothing more.
\<close>

definition time_text :: "time \<Rightarrow> string" where
  "time_text t = (if 0 \<le> t then CHR ''p'' # replicate (nat t) CHR ''1'' else CHR ''n'' # replicate (nat (- t)) CHR ''1'')"

definition text_time :: "string \<Rightarrow> time" where
  "text_time s = (if hd s = CHR ''p'' then int (length (tl s)) else - int (length (tl s)))"

definition opt_text :: "time option \<Rightarrow> string" where
  "opt_text x = (case x of None \<Rightarrow> [] | Some t \<Rightarrow> time_text t)"

definition text_opt :: "string \<Rightarrow> time option" where
  "text_opt s = (if s = [] then None else Some (text_time s))"

lemma text_opt_text [simp]: "text_opt (opt_text x) = x"
  by (auto simp: text_opt_def opt_text_def time_text_def text_time_def split: option.split)

definition demo_jwt :: jwt_lib where
  "demo_jwt = \<lparr>
     jwt_Sign = (\<lambda>alg key cl. Inr (demo_marshal
       [(alg, key), (cl_uid cl, cl_email cl), (cl_name cl, cl_picture cl), (cl_subject cl, cl_issuer cl),
        (opt_text (cl_issued cl), opt_text (cl_expires cl))])),
     jwt_Parse = (\<lambda>now ms kf tok.
       case demo_unmarshal tok of
         Some [(alg, key), (uid, email), (name, picture), (subj, iss), (iat, exp)] \<Rightarrow>
           (let cl = \<lparr>cl_uid = uid, cl_email = email, cl_name = name, cl_picture = picture, cl_subject = subj,
                      cl_issuer = iss, cl_issued = text_opt iat, cl_expires = text_opt exp\<rparr>
            in if alg \<in> set ms \<and> kf alg = Some key \<and> in_time now cl then Some cl else None)
       | _ \<Rightarrow> None)\<rparr>"

lemma demo_jwt_spec: "jwt_spec demo_jwt"
proof -
  have "demo_marshal (p # m) \<noteq> []" for p m by (cases p) (simp add: demo_field_def)
  then show ?thesis
    by (auto simp: jwt_spec_def demo_jwt_def Let_def in_time_def simp del: demo_marshal.simps)
qed

definition demo_sm :: session_manager where
  "demo_sm = \<lparr>sm_secret = ''0123456789abcdef'', sm_cookie = ''tools_session'', sm_secure = True, sm_ttl = Hour\<rparr>"

definition demo_user :: session_user where
  "demo_user = \<lparr>ID = ''u1'', Email = ''a@b.c'', Name = ''A'', Picture = []\<rparr>"

definition blank_request :: request where
  "blank_request = \<lparr>r_method = ''GET'', url_path = ''/'', raw_query = [], query = [], segs = [], r_header = [],
     cookies = [], remote_addr = ''1.2.3.4:5'', body = [], body_err = None, path_vals = [], ctx_user = None\<rparr>"

lemma demo_user_text: "list_all utf8_valid (user_text demo_user)"
proof -
  have "utf8_valid ''u1''" "utf8_valid ''a@b.c''" "utf8_valid ''A''" by code_simp+
  then show ?thesis by (simp add: user_text_def demo_user_def)
qed

text \<open>The cookie of an issued session identifies the user an hour less a nanosecond later.\<close>

theorem session_round_trip_witness:
  "\<exists>c. w_cookies (fst (snd (Issue (demo_env 0) demo_jwt demo_sm demo_user (new_writer, demo_world empty_db)))) = [c] \<and>
     fst (UserFromRequest ((demo_env 0)\<lparr>go_Now := (\<lambda>_. Hour - 1)\<rparr>) demo_jwt demo_sm
       (blank_request\<lparr>cookies := [(''tools_session'', ck_value c)]\<rparr>) (demo_world empty_db)) = Inr demo_user"
proof -
  let ?cl = "session_claims demo_sm demo_user 0"
  obtain tok where tok: "jwt_Sign demo_jwt ''HS256'' (sm_secret demo_sm) ?cl = Inr tok"
    by (simp add: demo_jwt_def)
  let ?c = "session_cookie demo_sm tok (int_Seconds (sm_ttl demo_sm))"
  have iss: "Issue (demo_env 0) demo_jwt demo_sm demo_user (new_writer, demo_world empty_db) =
      (None, SetCookie ?c new_writer, bump (demo_world empty_db))"
    using tok by (simp add: Issue_def time_Now_def demo_user_def)
  have ck: "w_cookies (SetCookie ?c new_writer) = [?c]" by (simp add: new_writer_def)
  have nm: "sm_cookie demo_sm = ''tools_session''" by (simp add: demo_sm_def)
  have late: "Hour - 1 < NumericDate (go_Now (demo_env 0) (tick (demo_world empty_db)) + sm_ttl demo_sm)"
    by (simp add: demo_sm_def NumericDate_def Hour_def Minute_def Second_def)
  show ?thesis
    using session_round_trip [OF demo_jwt_spec demo_user_text iss,
        of "blank_request\<lparr>cookies := [(''tools_session'', ck_value ?c)]\<rparr>"
          "(demo_env 0)\<lparr>go_Now := (\<lambda>_. Hour - 1)\<rparr>" "demo_world empty_db"] late
    by (simp add: iss ck nm)
qed

definition demo_google :: google_auth where
  "demo_google = NewGoogleAuth ''client'' ''secret'' ''https://api'' ''https://site/''"

definition demo_oauth :: oauth_lib where
  "demo_oauth = \<lparr>AuthCodeURL = (\<lambda>g st. ''https://accounts.google.com/o/oauth2/auth?state='' @ st),
     Exchange = (\<lambda>g n code. Inr (''token-'' @ code)),
     userinfo_Do = (\<lambda>n tok. Inr (200, ''{}'', None)),
     userinfo_Unmarshal = (\<lambda>s. Inr (''u1'', ''a@b.c'', ''A'', []))\<rparr>"

definition forged_request :: request where
  "forged_request = blank_request\<lparr>query := [(''state'', [''s2'']), (''code'', [''c''])], cookies := [(''oauth_state'', ''s1'')]\<rparr>"

theorem forged_callback_does_nothing_witness:
  "w_cookies (fst (snd (Callback (demo_env 0) demo_jwt demo_oauth demo_google demo_sm forged_request
     (new_writer, demo_world empty_db)))) = []"
proof -
  have m: "\<not> state_matches forged_request"
    by (simp add: state_matches_def forged_request_def query_Get_def values_Get_def)
  obtain p wr' w' where c: "Callback (demo_env 0) demo_jwt demo_oauth demo_google demo_sm forged_request (new_writer, demo_world empty_db)
      = (p, wr', w')" by (metis prod.collapse)
  have "w_sent new_writer = None" "w_cookies new_writer = []" by (simp_all add: new_writer_def)
  with forged_callback_does_nothing [OF m _ c] show ?thesis by (simp add: c)
qed

lemma demo_google_simps [simp]: "Enabled demo_google" "g_front demo_google = ''https://site''"
proof -
  have "TrimRight ''https://site/'' ''/'' = ''https://site''" by code_simp
  then show "g_front demo_google = ''https://site''" by (simp add: demo_google_def NewGoogleAuth_def)
qed (simp add: demo_google_def NewGoogleAuth_def Enabled_def)

text \<open>The demonstration flow: a start with \<^verbatim>\<open>next=/t\<close> and the browser's way back.\<close>

definition demo_state :: string where
  "demo_state = RawURLEncoding (map (rand_byte (demo_env 0) 0) [0..<32])"

definition start_request :: request where
  "start_request = blank_request\<lparr>query := [(''next'', [''/t''])]\<rparr>"

definition back_request :: request where
  "back_request = blank_request\<lparr>query := [(''state'', [demo_state]), (''code'', [''c''])],
     cookies := [(''oauth_state'', demo_state), (''oauth_next'', ''/t'')]\<rparr>"

lemma back_request_simps [simp]:
  "query_Get back_request ''error'' = []" "query_Get back_request ''code'' = ''c''"
  "query_Get back_request ''state'' = demo_state" "map_of (cookies back_request) ''oauth_state'' = Some demo_state"
  "map_of (cookies back_request) ''oauth_next'' = Some ''/t''"
  by (simp_all add: back_request_def query_Get_def values_Get_def)

lemma sanitize_t [simp]: "sanitizeNext ''/t'' = ''/t''"
  by code_simp

lemma demo_state_ok [simp]: "is_ascii demo_state" "demo_state \<noteq> []"
  by (simp_all add: demo_state_def RawURLEncoding_ascii RawURLEncoding_Nil)

definition begin_writer :: writer where
  "begin_writer = http_Redirect start_request (AuthCodeURL demo_oauth demo_google demo_state) 302
     (setShortCookie demo_sm ''oauth_next'' ''/t'' (10 * Minute)
       (setShortCookie demo_sm ''oauth_state'' demo_state (10 * Minute) new_writer))"

lemma demo_begin:
  "Begin (demo_env 0) demo_oauth demo_google demo_sm start_request (new_writer, demo_world empty_db) =
     (None, begin_writer, bump (demo_world empty_db))"
proof -
  have "query_Get start_request ''next'' = ''/t''" by (simp add: start_request_def query_Get_def values_Get_def)
  then show ?thesis
    by (simp add: Begin_def randomState_def rand_Read_def begin_writer_def Let_def demo_state_def)
qed

lemma begin_writer_simps [simp]:
  "status_of begin_writer = 302" "cookie_value begin_writer ''oauth_state'' = Some demo_state"
  "cookie_value begin_writer ''oauth_next'' = Some ''/t''"
  "map_of (head_of begin_writer) ''Location'' = Some (hexEscapeNonASCII (AuthCodeURL demo_oauth demo_google demo_state))"
  by (simp_all add: begin_writer_def cookie_value_def setShortCookie_def short_cookie_def new_writer_def
      status_of_def http_Redirect_def Let_def WriteHeader_def Header_Set_def SetCookie_def head_of_def)

lemma hexEscape_ascii: "is_ascii s \<Longrightarrow> hexEscapeNonASCII s = s"
  by (induction s) (simp_all add: hexEscapeNonASCII_def is_ascii_def)

lemma hexEscape_append: "hexEscapeNonASCII (s @ t) = hexEscapeNonASCII s @ hexEscapeNonASCII t"
  by (simp add: hexEscapeNonASCII_def)

lemma demo_url_inj: "inj_on (\<lambda>st. hexEscapeNonASCII (AuthCodeURL demo_oauth demo_google st)) {st. is_ascii st}"
proof (rule inj_onI)
  fix a b assume "a \<in> {st. is_ascii st}" "b \<in> {st. is_ascii st}"
    "hexEscapeNonASCII (AuthCodeURL demo_oauth demo_google a) = hexEscapeNonASCII (AuthCodeURL demo_oauth demo_google b)"
  then show "a = b"
    by (simp only: demo_oauth_def oauth_lib.simps hexEscape_append mem_Collect_eq hexEscape_ascii same_append_eq)
qed

definition demo_callback :: "string option \<times> writer \<times> kv_map world" where
  "demo_callback = Callback (demo_env 0) demo_jwt demo_oauth demo_google demo_sm back_request (new_writer, demo_world empty_db)"

lemma demo_fetch: "fetchUser demo_oauth tok w = (Inr demo_user, bump w)"
  by (simp add: fetchUser_def demo_oauth_def demo_user_def Let_def)


text \<open>The session cookie of that flow, as a login.\<close>

lemma back_matches: "state_matches back_request"
  by (simp add: state_matches_def)

lemma demo_session_cookie:
  "\<exists>c \<in> set (w_cookies (fst (snd demo_callback))). ck_value c \<noteq> []"
proof -
  obtain u w2 where u: "UpsertLogin (demo_env 0) (ID demo_user) (Email demo_user) (Name demo_user) (Picture demo_user)
      (requestIP back_request) (bump (bump (demo_world empty_db :: kv_map world))) =
      ((Some u, if u_status u = StatusBanned then Some ErrBanned else None), w2)"
    "u_status u = StatusActive"
    using UpsertLogin_healthy [of "demo_env 0" "ID demo_user" "Email demo_user" "Name demo_user" "Picture demo_user"
        "requestIP back_request" "bump (bump (demo_world empty_db :: kv_map world))"]
    by (auto simp: user_status_def tbl_lookup_def empty_db_def)
  then have up: "UpsertLogin (demo_env 0) (ID demo_user) (Email demo_user) (Name demo_user) (Picture demo_user)
      (requestIP back_request) (bump (bump (demo_world empty_db :: kv_map world))) = ((Some u, None), w2)"
    by (simp add: StatusActive_def StatusBanned_def)
  obtain val where val: "jwt_Sign demo_jwt ''HS256'' (sm_secret demo_sm)
      (session_claims demo_sm demo_user (go_Now (demo_env 0) (tick w2))) = Inr val"
    by (simp add: demo_jwt_def)
  have tx: "list_all utf8_valid (claims_text (session_claims demo_sm demo_user t))" for t
    by (rule session_claims_text [OF demo_user_text])
  have "val \<noteq> []" by (rule jwt_specD(1) [OF demo_jwt_spec val tx])
  moreover have cb: "demo_callback = (None, http_Redirect back_request (g_front demo_google @ sanitizeNext ''/t'') 302
       (clearCookie demo_sm ''oauth_next'' (clearCookie demo_sm ''oauth_state''
          (SetCookie (session_cookie demo_sm val (int_Seconds (sm_ttl demo_sm))) new_writer))), bump w2)"
    unfolding demo_callback_def
    by (rule Callback_clean [OF _ _ back_matches _ _ demo_fetch up val]) (simp_all add: demo_oauth_def)
  ultimately have "session_cookie demo_sm val (int_Seconds (sm_ttl demo_sm)) \<in> set (w_cookies (fst (snd demo_callback)))"
    by (simp add: cb clearCookie_def)
  then show ?thesis using \<open>val \<noteq> []\<close> by (force simp: session_cookie_def)
qed

theorem session_needs_google_login_witness:
  "\<exists>c \<in> set (w_cookies (fst (snd demo_callback))). ck_value c \<noteq> [] \<and>
     logged_in (demo_env 0) demo_jwt demo_oauth demo_google demo_sm back_request (demo_world empty_db) c (db (snd (snd demo_callback)))"
proof -
  obtain c where c: "c \<in> set (w_cookies (fst (snd demo_callback)))" "ck_value c \<noteq> []"
    using demo_session_cookie by blast
  have d: "Callback (demo_env 0) demo_jwt demo_oauth demo_google demo_sm back_request (new_writer, demo_world empty_db) =
      (fst demo_callback, fst (snd demo_callback), snd (snd demo_callback))" by (simp add: demo_callback_def)
  have "c \<notin> set (w_cookies new_writer)" by (simp add: new_writer_def)
  from session_needs_google_login [OF d c(1) this c(2)] c show ?thesis by blast
qed

end
