(* ===== verification/Webhook_Store.thy ===== *)
theory Webhook_Store
  imports Effects
begin

text \<open>
  \<^verbatim>\<open>internal/webhook/store.go\<close>: bins and their captured hits. Each SQL statement of
  the file is a \<open>stmt_\<dots>\<close> on the tables, each method of \<^verbatim>\<open>Store\<close> the definition
  of the same name over the world. This theory holds the definitions and the facts on single
  statements; the invariants and the behaviour of the methods are in \<^verbatim>\<open>Webhook_Inv\<close>
  and \<^verbatim>\<open>Webhook_Spec\<close>.
\<close>

section \<open>Constants, input, cache\<close>

definition MaxBinsPerUser :: nat where "MaxBinsPerUser = 3"
definition MaxHitsPerBin :: nat where "MaxHitsPerBin = 100"
definition MaxBodyBytes :: nat where "MaxBodyBytes = 256 * 1024"
definition BinTTL :: duration where "BinTTL = 72 * Hour"
definition IDBytes :: nat where "IDBytes = 16"

text \<open>\<^verbatim>\<open>Store.rdb\<close>, nil in the tests; the pool is the world's database.\<close>

type_synonym 'k store = "'k valkey option"

text \<open>\<^verbatim>\<open>IngestInput\<close>; a nil map is \<^const>\<open>None\<close>.\<close>

record ingest_input =
  in_method :: string
  in_path :: string
  in_query :: string
  in_params :: "str_map option"
  in_headers :: "str_map option"
  in_ctype :: string
  in_body :: string
  in_ip :: string
  in_agent :: string

record hit_summary =
  s_id :: string
  s_received :: time
  s_method :: string
  s_path :: string
  s_query :: string
  s_ctype :: string
  s_bytes :: int
  s_ip :: string

definition binCacheKey :: "string \<Rightarrow> string" where
  "binCacheKey bid = ''bin:'' @ bid"

definition cacheBin :: "'k store \<Rightarrow> string \<Rightarrow> duration \<Rightarrow> 'k world \<Rightarrow> 'k world" where
  "cacheBin s bid ttl w =
     (case s of
        None \<Rightarrow> w
      | Some kv \<Rightarrow>
          if ttl \<le> 0 then w
          else snd (kv_do (\<lambda>t. kv_Set kv t (binCacheKey bid) ''1'' ttl) w))"

definition uncacheBin :: "'k store \<Rightarrow> string \<Rightarrow> 'k world \<Rightarrow> 'k world" where
  "uncacheBin s bid w =
     (case s of
        None \<Rightarrow> w
      | Some kv \<Rightarrow> snd (kv_do (\<lambda>t. kv_Del kv t (binCacheKey bid)) w))"

definition newID :: "env \<Rightarrow> 'k world \<Rightarrow> (go_error + string) \<times> 'k world" where
  "newID e w =
     (case rand_Read e IDBytes w of
        (Inl er, w) \<Rightarrow> (Inl er, w)
      | (Inr b, w) \<Rightarrow> (Inr (hex_encode b), w))"

section \<open>Statements\<close>

text \<open>ORDER BY key DESC: newest first, ties in the order the engine happens to choose.\<close>

definition order_desc :: "(string \<Rightarrow> int) \<Rightarrow> ('r \<Rightarrow> time) \<Rightarrow> ('r \<Rightarrow> string) \<Rightarrow> 'r list \<Rightarrow> 'r list" where
  "order_desc tie key pk rows = sort_key (\<lambda>r. - key r) (sort_key (\<lambda>r. tie (pk r)) rows)"

definition stmt_prune :: "string list stmt" where
  "stmt_prune now d =
     (Inr (map b_id (filter (\<lambda>b. b_expires b < now) (webhook_bins d))),
      delete_bins (\<lambda>b. b_expires b < now) d)"

definition stmt_count_bins :: "string \<Rightarrow> nat stmt" where
  "stmt_count_bins u now d = (Inr (length (bins_of u d)), d)"

text \<open>The row a bin becomes: the statement inserts a zero hit count and no last hit.\<close>

definition bin_row :: "bin \<Rightarrow> bin" where
  "bin_row b = b\<lparr>b_created := pg_time (b_created b), b_expires := pg_time (b_expires b),
                 b_hits := 0, b_last := None\<rparr>"

definition stmt_insert_bin :: "bin \<Rightarrow> unit stmt" where
  "stmt_insert_bin b now d =
     (case tbl_insert b_id (bin_row b) (webhook_bins d) of
        None \<Rightarrow> (Inl UniqueViolation, d)
      | Some bs \<Rightarrow> (Inr (), d\<lparr>webhook_bins := bs\<rparr>))"

definition stmt_select_bins :: "(string \<Rightarrow> int) \<Rightarrow> string \<Rightarrow> bin list stmt" where
  "stmt_select_bins tie u now d = (Inr (order_desc tie b_created b_id (bins_of u d)), d)"

definition stmt_select_bin :: "string \<Rightarrow> bin option stmt" where
  "stmt_select_bin bid now d = (Inr (get_bin d bid), d)"

definition stmt_select_expiry :: "string \<Rightarrow> time option stmt" where
  "stmt_select_expiry bid now d = (Inr (map_option b_expires (get_bin d bid)), d)"

definition stmt_delete_bin :: "string \<Rightarrow> unit stmt" where
  "stmt_delete_bin bid now d = (Inr (), delete_bins (\<lambda>b. b_id b = bid) d)"

definition stmt_delete_hits :: "string \<Rightarrow> unit stmt" where
  "stmt_delete_hits bid now d =
     (Inr (), d\<lparr>webhook_hits := filter (\<lambda>h. h_bin h \<noteq> bid) (webhook_hits d)\<rparr>)"

text \<open>UPDATE webhook_bins SET hit_count = ..., last_hit_at = ... WHERE id = ...\<close>

definition stmt_touch_bin :: "string \<Rightarrow> nat \<Rightarrow> time option \<Rightarrow> unit stmt" where
  "stmt_touch_bin bid n lst now d =
     (Inr (), d\<lparr>webhook_bins :=
        tbl_update b_id bid (\<lambda>b. b\<lparr>b_hits := int n, b_last := map_option pg_time lst\<rparr>)
          (webhook_bins d)\<rparr>)"

text \<open>The row of a hit, with the JSON documents the engine accepts.\<close>

definition hit_row_of :: "env \<Rightarrow> go_hit \<Rightarrow> hit_row option" where
  "hit_row_of e h =
     (case (pg_jsonb e (json_Marshal e (h_params h)), pg_jsonb e (json_Marshal e (h_headers h))) of
        (Some qp, Some hs) \<Rightarrow>
          Some \<lparr>h_id = h_id h, h_bin = h_bin h, h_received = pg_time (h_received h),
                h_method = h_method h, h_path = h_path h, h_query = h_query h,
                h_params = qp, h_headers = hs, h_ctype = h_ctype h, h_body = h_body h,
                h_trunc = h_trunc h, h_bytes = h_bytes h, h_ip = h_ip h, h_agent = h_agent h\<rparr>
      | _ \<Rightarrow> None)"

definition stmt_insert_hit :: "env \<Rightarrow> go_hit \<Rightarrow> unit stmt" where
  "stmt_insert_hit e h now d =
     (case hit_row_of e h of
        None \<Rightarrow> (Inl BadJson, d)
      | Some row \<Rightarrow>
          (case tbl_insert h_id row (webhook_hits d) of
             None \<Rightarrow> (Inl UniqueViolation, d)
           | Some hs \<Rightarrow>
               if get_bin d (h_bin h) = None then (Inl ForeignKeyViolation, d)
               else (Inr (), d\<lparr>webhook_hits := hs\<rparr>)))"

text \<open>DELETE of the hits of a bin beyond the newest \<open>n\<close>.\<close>

definition stmt_cap_hits :: "(string \<Rightarrow> int) \<Rightarrow> string \<Rightarrow> nat \<Rightarrow> unit stmt" where
  "stmt_cap_hits tie bid n now d =
     (let old = drop n (order_desc tie h_received h_id (hits_of bid d)) in
      (Inr (), d\<lparr>webhook_hits :=
         filter (\<lambda>h. \<not> (h_bin h = bid \<and> h_id h \<in> set (map h_id old))) (webhook_hits d)\<rparr>))"

definition stmt_count_hits :: "string \<Rightarrow> nat stmt" where
  "stmt_count_hits bid now d = (Inr (length (hits_of bid d)), d)"

definition summary :: "hit_row \<Rightarrow> hit_summary" where
  "summary h = \<lparr>s_id = h_id h, s_received = h_received h, s_method = h_method h, s_path = h_path h,
     s_query = h_query h, s_ctype = h_ctype h, s_bytes = h_bytes h, s_ip = h_ip h\<rparr>"

definition stmt_list_hits :: "(string \<Rightarrow> int) \<Rightarrow> string \<Rightarrow> nat \<Rightarrow> hit_summary list stmt" where
  "stmt_list_hits tie bid n now d =
     (Inr (map summary (take n (order_desc tie h_received h_id (hits_of bid d)))), d)"

text \<open>The scalar subquery is NULL for an unknown hit, and nothing is smaller than NULL.\<close>

definition stmt_list_hits_after :: "(string \<Rightarrow> int) \<Rightarrow> string \<Rightarrow> string \<Rightarrow> nat \<Rightarrow> hit_summary list stmt" where
  "stmt_list_hits_after tie bid after n now d =
     (case find (\<lambda>h. h_id h = after) (hits_of bid d) of
        None \<Rightarrow> (Inr [], d)
      | Some a \<Rightarrow>
          (Inr (map summary (take n (order_desc tie h_received h_id
             (filter (\<lambda>h. h_received h < h_received a) (hits_of bid d))))), d))"

definition stmt_select_hit :: "string \<Rightarrow> string \<Rightarrow> hit_row option stmt" where
  "stmt_select_hit hid bid now d = (Inr (find (\<lambda>h. h_id h = hid) (hits_of bid d)), d)"

section \<open>Pruning and ownership\<close>

definition pruneExpired :: "env \<Rightarrow> 'k store \<Rightarrow> 'k world \<Rightarrow> go_error option \<times> 'k world" where
  "pruneExpired e s w =
     (case sql_query e [] stmt_prune w of
        (Inl er, w) \<Rightarrow> (Some er, w)
      | (Inr (ids, er), w) \<Rightarrow> (er, fold (uncacheBin s) ids w))"

definition getOwned :: "env \<Rightarrow> 'k store \<Rightarrow> string \<Rightarrow> string \<Rightarrow> 'k world \<Rightarrow> (go_error + bin) \<times> 'k world" where
  "getOwned e s userID binID w =
     (case sql_row e [binID] (stmt_select_bin binID) w of
        (Inl er, w) \<Rightarrow> (Inl (if errors_Is er ErrNoRows then ErrNotFound else er), w)
      | (Inr b, w) \<Rightarrow>
          if b_user b \<noteq> userID then (Inl ErrForbidden, w)
          else (let (now, w) = time_Now e w in
                if After now (b_expires b)
                then (let w = snd (sql_exec e [binID] (stmt_delete_bin binID) w) in
                      (Inl ErrExpired, uncacheBin s binID w))
                else (Inr b, w)))"

section \<open>The methods of Store\<close>

text \<open>The name a bin gets: trimmed, defaulted from its id, cut to 64 bytes.\<close>

definition bin_name :: "string \<Rightarrow> string \<Rightarrow> string" where
  "bin_name bid name =
     (let name = TrimSpace name;
          name = (if name = '''' then ''Bin '' @ take 6 bid else name)
      in if 64 < length name then take 64 name else name)"

definition Create :: "env \<Rightarrow> 'k store \<Rightarrow> string \<Rightarrow> string \<Rightarrow> 'k world \<Rightarrow> (go_error + bin) \<times> 'k world" where
  "Create e s userID name w =
     (case pruneExpired e s w of
        (Some er, w) \<Rightarrow> (Inl er, w)
      | (None, w) \<Rightarrow>
     (case sql_exec e [userID] (stmt_count_bins userID) w of
        (Inl er, w) \<Rightarrow> (Inl er, w)
      | (Inr cnt, w) \<Rightarrow>
     if MaxBinsPerUser \<le> cnt then (Inl ErrLimitBins, w)
     else
     (case newID e w of
        (Inl er, w) \<Rightarrow> (Inl er, w)
      | (Inr bid, w) \<Rightarrow>
     (let (now, w) = time_Now e w;
          b = \<lparr>b_id = bid, b_user = userID, b_name = bin_name bid name, b_created = now,
               b_expires = now + BinTTL, b_hits = 0, b_last = None\<rparr>
      in
      case sql_exec e [b_id b, b_user b, b_name b] (stmt_insert_bin b) w of
        (Inl er, w) \<Rightarrow> (Inl er, w)
      | (Inr _, w) \<Rightarrow> (Inr b, cacheBin s (b_id b) BinTTL w)))))"

text \<open>\<^const>\<open>None\<close> is the nil slice of a failed query.\<close>

definition List_bins :: "env \<Rightarrow> 'k store \<Rightarrow> string \<Rightarrow> 'k world \<Rightarrow> bin list option \<times> 'k world" where
  "List_bins e s userID w =
     (let w = snd (pruneExpired e s w) in
      case sql_query e [userID] (stmt_select_bins (pg_tie e (tick w)) userID) w of
        (Inl _, w) \<Rightarrow> (None, w)
      | (Inr (rows, _), w) \<Rightarrow> (Some rows, w))"

definition Get_bin :: "env \<Rightarrow> 'k store \<Rightarrow> string \<Rightarrow> string \<Rightarrow> 'k world \<Rightarrow> (go_error + bin) \<times> 'k world" where
  "Get_bin e s userID binID w = getOwned e s userID binID (snd (pruneExpired e s w))"

definition Delete_bin :: "env \<Rightarrow> 'k store \<Rightarrow> string \<Rightarrow> string \<Rightarrow> 'k world \<Rightarrow> (go_error + unit) \<times> 'k world" where
  "Delete_bin e s userID binID w =
     (case getOwned e s userID binID w of
        (Inl er, w) \<Rightarrow> (Inl er, w)
      | (Inr _, w) \<Rightarrow>
     (case sql_exec e [binID] (stmt_delete_bin binID) w of
        (Inl er, w) \<Rightarrow> (Inl er, w)
      | (Inr _, w) \<Rightarrow> (Inr (), uncacheBin s binID w)))"

definition clear_tx :: "env \<Rightarrow> string \<Rightarrow> 'k world \<Rightarrow> (go_error + unit) \<times> 'k world" where
  "clear_tx e binID w =
     (case sql_exec e [binID] (stmt_delete_hits binID) w of
        (Inl er, w) \<Rightarrow> (Inl er, w)
      | (Inr _, w) \<Rightarrow> sql_exec e [binID] (stmt_touch_bin binID 0 None) w)"

definition ClearHits :: "env \<Rightarrow> 'k store \<Rightarrow> string \<Rightarrow> string \<Rightarrow> 'k world \<Rightarrow> (go_error + bin) \<times> 'k world" where
  "ClearHits e s userID binID w =
     (case getOwned e s userID binID w of
        (Inl er, w) \<Rightarrow> (Inl er, w)
      | (Inr _, w) \<Rightarrow>
     (case sql_tx e (clear_tx e binID) w of
        (Inl er, w) \<Rightarrow> (Inl er, w)
      | (Inr _, w) \<Rightarrow> getOwned e s userID binID w))"

text \<open>The header names whose values are never stored.\<close>

definition sensitive_headers :: "string list" where
  "sensitive_headers =
     [''authorization'', ''proxy-authorization'', ''cookie'', ''set-cookie'', ''x-api-key'',
      ''x-auth-token'']"

definition redactHeaders :: "env \<Rightarrow> str_map \<Rightarrow> str_map" where
  "redactHeaders e m =
     map (\<lambda>(k, v). (k, if ToLower (uni_lower e) k \<in> set sensitive_headers then ''[redacted]'' else v)) m"

definition make_hit :: "env \<Rightarrow> string \<Rightarrow> string \<Rightarrow> time \<Rightarrow> ingest_input \<Rightarrow> go_hit" where
  "make_hit e hitID binID now i =
     (let trunc = MaxBodyBytes < length (in_body i);
          body = (if trunc then take MaxBodyBytes (in_body i) else in_body i)
      in \<lparr>h_id = hitID, h_bin = binID, h_received = now,
          h_method = ToUpper (uni_upper e) (TrimSpace (in_method i)),
          h_path = in_path i, h_query = in_query i,
          h_params = (case in_params i of None \<Rightarrow> [] | Some m \<Rightarrow> m),
          h_headers = redactHeaders e (case in_headers i of None \<Rightarrow> [] | Some m \<Rightarrow> m),
          h_ctype = in_ctype i, h_body = body, h_trunc = trunc,
          h_bytes = int (length (in_body i)), h_ip = in_ip i, h_agent = in_agent i\<rparr>)"

definition hit_texts :: "go_hit \<Rightarrow> string list" where
  "hit_texts h = [h_id h, h_bin h, h_method h, h_path h, h_query h, h_ctype h, h_body h, h_ip h, h_agent h]"

definition ingest_tx :: "env \<Rightarrow> go_hit \<Rightarrow> time \<Rightarrow> 'k world \<Rightarrow> (go_error + unit) \<times> 'k world" where
  "ingest_tx e h now w =
     (case sql_exec e (hit_texts h) (stmt_insert_hit e h) w of
        (Inl er, w) \<Rightarrow> (Inl er, w)
      | (Inr _, w) \<Rightarrow>
     (case sql_exec e [h_bin h] (stmt_cap_hits (pg_tie e (tick w)) (h_bin h) MaxHitsPerBin) w of
        (Inl er, w) \<Rightarrow> (Inl er, w)
      | (Inr _, w) \<Rightarrow>
     (case sql_exec e [h_bin h] (stmt_count_hits (h_bin h)) w of
        (Inl er, w) \<Rightarrow> (Inl er, w)
      | (Inr n, w) \<Rightarrow> sql_exec e [h_bin h] (stmt_touch_bin (h_bin h) n (Some now)) w)))"

definition Ingest :: "env \<Rightarrow> 'k store \<Rightarrow> string \<Rightarrow> ingest_input \<Rightarrow> 'k world \<Rightarrow> (go_error + go_hit) \<times> 'k world" where
  "Ingest e s binID i w =
     (let w = snd (pruneExpired e s w) in
      case sql_row e [binID] (stmt_select_expiry binID) w of
        (Inl er, w) \<Rightarrow> (Inl (if errors_Is er ErrNoRows then ErrNotFound else er), w)
      | (Inr expiresAt, w) \<Rightarrow>
     (let (now, w) = time_Now e w in
      if After now expiresAt
      then (Inl ErrExpired, snd (sql_exec e [binID] (stmt_delete_bin binID) w))
      else
     (case newID e w of
        (Inl er, w) \<Rightarrow> (Inl er, w)
      | (Inr hitID, w) \<Rightarrow>
     (let h = make_hit e hitID binID now i in
      case sql_tx e (ingest_tx e h now) w of
        (Inl er, w) \<Rightarrow> (Inl er, w)
      | (Inr _, w) \<Rightarrow> (Inr h, w)))))"

definition clamp_limit :: "int \<Rightarrow> nat" where
  "clamp_limit n = (if n \<le> 0 \<or> int MaxHitsPerBin < n then MaxHitsPerBin else nat n)"

definition ListHits :: "env \<Rightarrow> 'k store \<Rightarrow> string \<Rightarrow> string \<Rightarrow> int \<Rightarrow> string \<Rightarrow> 'k world
    \<Rightarrow> (go_error + hit_summary list) \<times> 'k world" where
  "ListHits e s userID binID limit after w =
     (case getOwned e s userID binID w of
        (Inl er, w) \<Rightarrow> (Inl er, w)
      | (Inr _, w) \<Rightarrow>
     (let n = clamp_limit limit in
      case (if after = ''''
            then sql_query e [binID] (stmt_list_hits (pg_tie e (tick w)) binID n) w
            else sql_query e [binID, after] (stmt_list_hits_after (pg_tie e (tick w)) binID after n) w) of
        (Inl er, w) \<Rightarrow> (Inl er, w)
      | (Inr (rows, _), w) \<Rightarrow> (Inr rows, w)))"

text \<open>The hit a row is read back as: a map that does not unmarshal is empty.\<close>

definition read_hit :: "env \<Rightarrow> hit_row \<Rightarrow> go_hit" where
  "read_hit e r =
     \<lparr>h_id = h_id r, h_bin = h_bin r, h_received = h_received r, h_method = h_method r,
      h_path = h_path r, h_query = h_query r,
      h_params = (case json_Unmarshal e (h_params r) of None \<Rightarrow> [] | Some m \<Rightarrow> m),
      h_headers = (case json_Unmarshal e (h_headers r) of None \<Rightarrow> [] | Some m \<Rightarrow> m),
      h_ctype = h_ctype r, h_body = h_body r, h_trunc = h_trunc r, h_bytes = h_bytes r,
      h_ip = h_ip r, h_agent = h_agent r\<rparr>"

definition GetHit :: "env \<Rightarrow> 'k store \<Rightarrow> string \<Rightarrow> string \<Rightarrow> string \<Rightarrow> 'k world \<Rightarrow> (go_error + go_hit) \<times> 'k world" where
  "GetHit e s userID binID hitID w =
     (case getOwned e s userID binID w of
        (Inl er, w) \<Rightarrow> (Inl er, w)
      | (Inr _, w) \<Rightarrow>
     (case sql_row e [hitID, binID] (stmt_select_hit hitID binID) w of
        (Inl er, w) \<Rightarrow> (Inl (if errors_Is er ErrNoRows then ErrNotFound else er), w)
      | (Inr r, w) \<Rightarrow> (Inr (read_hit e r), w)))"

definition PublicExists :: "env \<Rightarrow> 'k store \<Rightarrow> string \<Rightarrow> 'k world \<Rightarrow> bool \<times> 'k world" where
  "PublicExists e s binID w =
     (let (hit, w) =
        (case s of
           None \<Rightarrow> (False, w)
         | Some kv \<Rightarrow>
             (case kv_do (\<lambda>t. kv_Exists kv t (binCacheKey binID)) w of
                (Inl _, w) \<Rightarrow> (False, w)
              | (Inr n, w) \<Rightarrow> (0 < n, w)))
      in
      if hit then (True, w)
      else
     (let w = snd (pruneExpired e s w) in
      case sql_row e [binID] (stmt_select_expiry binID) w of
        (Inl _, w) \<Rightarrow> (False, w)
      | (Inr expiresAt, w) \<Rightarrow>
     (let (now, w) = time_Now e w in
      if After now expiresAt then (False, uncacheBin s binID w)
      else (let (now, w) = time_Now e w in
            (True, cacheBin s binID (expiresAt - now) w)))))"

definition FormatLimitErr :: "go_error \<Rightarrow> string" where
  "FormatLimitErr er =
     (if errors_Is er ErrLimitBins then ''Limit reached: max '' @ Itoa (int MaxBinsPerUser) @ '' active bins''
      else if errors_Is er ErrExpired then ''Bin expired''
      else if errors_Is er ErrNotFound then ''Not found''
      else if errors_Is er ErrForbidden then ''Forbidden''
      else if errors_Is er ErrBodyTooLarge then ''Body too large''
      else error_text er)"

end
