(* ===== verification/Webhook_Inv.thy ===== *)
theory Webhook_Inv
  imports Webhook_Store
begin

text \<open>
  The invariants of the webhook tables: quota, hit cap, counters, body bound and redaction,
  kept by every method whatever the database, the cache, the clocks and the random source
  answer.
\<close>

section \<open>Ordering\<close>

lemma mset_order_desc [simp]: "mset (order_desc tie key pk rows) = mset rows"
  by (simp add: order_desc_def)

lemma set_order_desc [simp]: "set (order_desc tie key pk rows) = set rows"
  by (simp add: order_desc_def)

lemma length_order_desc [simp]: "length (order_desc tie key pk rows) = length rows"
  by (simp add: order_desc_def)

lemma sorted_order_desc: "sorted (map (\<lambda>r. - key r) (order_desc tie key pk rows))"
  by (simp add: order_desc_def)

text \<open>Deleting the rows beyond the first \<open>n\<close> of some order keeps the first \<open>n\<close>.\<close>

lemma mset_keep_first:
  assumes d: "distinct (map f rows)" and p: "mset xs = mset rows"
  shows "mset (filter (\<lambda>r. f r \<notin> f ` set (drop n xs)) rows) = mset (take n xs)"
proof -
  have dx: "distinct (map f xs)"
    using d p by (metis distinct_count_atmost_1 mset_map set_mset_mset distinct_map mset_eq_imp_distinct_iff)
  have "mset (filter (\<lambda>r. f r \<notin> f ` set (drop n xs)) rows)
      = mset (filter (\<lambda>r. f r \<notin> f ` set (drop n xs)) xs)"
    using p by (simp add: mset_filter)
  also have "filter (\<lambda>r. f r \<notin> f ` set (drop n xs)) xs = take n xs"
  proof -
    have "distinct (map f (take n xs @ drop n xs))" using dx by simp
    then have a: "\<forall>r \<in> set (take n xs). f r \<notin> f ` set (drop n xs)"
      unfolding map_append distinct_append by auto
    have "filter (\<lambda>r. f r \<notin> f ` set (drop n xs)) (take n xs @ drop n xs) = take n xs"
      using a by (simp only: filter_append) (auto simp: filter_empty_conv filter_id_conv)
    then show ?thesis by simp
  qed
  finally show ?thesis .
qed

lemma hits_of_cap:
  "hits_of b (snd (stmt_cap_hits tie b n now d)) =
     filter (\<lambda>h. h_id h \<notin> h_id ` set (drop n (order_desc tie h_received h_id (hits_of b d)))) (hits_of b d)"
  by (auto simp: stmt_cap_hits_def Let_def hits_of_def intro: filter_cong)

lemma length_capped:
  assumes "tbl_ok h_id (webhook_hits d)"
  shows "length (hits_of b (snd (stmt_cap_hits tie b n now d))) = min n (length (hits_of b d))"
proof -
  have "distinct (map h_id (hits_of b d))"
    using assms by (simp add: hits_of_def tbl_ok_def distinct_map_filter_inj)
  then have "mset (hits_of b (snd (stmt_cap_hits tie b n now d)))
      = mset (take n (order_desc tie h_received h_id (hits_of b d)))"
    unfolding hits_of_cap by (rule mset_keep_first) simp
  then show ?thesis by (metis length_order_desc length_take min.commute size_mset)
qed

section \<open>The invariant\<close>

text \<open>At most \<open>MaxBinsPerUser\<close> bins per user.\<close>

definition quota_ok :: "db \<Rightarrow> bool" where
  "quota_ok d \<longleftrightarrow> (\<forall>u. length (bins_of u d) \<le> MaxBinsPerUser)"

text \<open>At most \<open>MaxHitsPerBin\<close> hits per bin, and \<^verbatim>\<open>hit_count\<close> is their number.\<close>

definition hits_ok :: "db \<Rightarrow> bool" where
  "hits_ok d \<longleftrightarrow>
     (\<forall>b \<in> set (webhook_bins d).
        length (hits_of (b_id b) d) \<le> MaxHitsPerBin \<and> b_hits b = int (length (hits_of (b_id b) d)))"

text \<open>Stored bodies are bounded and flagged as truncated exactly when they were longer.\<close>

definition body_ok :: "'m hit \<Rightarrow> bool" where
  "body_ok h \<longleftrightarrow>
     length (h_body h) \<le> MaxBodyBytes \<and> (h_trunc h \<longleftrightarrow> int MaxBodyBytes < h_bytes h) \<and>
     int (length (h_body h)) = min (h_bytes h) (int MaxBodyBytes)"

definition hooks_inv :: "db \<Rightarrow> bool" where
  "hooks_inv d \<longleftrightarrow>
     db_ok d \<and> quota_ok d \<and> hits_ok d \<and> (\<forall>h \<in> set (webhook_hits d). body_ok h)"

text \<open>Every stored header document is the image of a redacted map.\<close>

definition redacted_doc :: "env \<Rightarrow> string \<Rightarrow> bool" where
  "redacted_doc e doc \<longleftrightarrow> (\<exists>m. pg_jsonb e (json_Marshal e (redactHeaders e m)) = Some doc)"

definition redacted_inv :: "env \<Rightarrow> db \<Rightarrow> bool" where
  "redacted_inv e d \<longleftrightarrow> (\<forall>h \<in> set (webhook_hits d). redacted_doc e (h_headers h))"

section \<open>Statements keep it\<close>

lemma delete_bins_mem [simp]: "b \<in> set (webhook_bins (delete_bins P d)) \<longleftrightarrow> b \<in> set (webhook_bins d) \<and> \<not> P b"
  by (simp add: delete_bins_def)

lemma delete_bins_hits: "set (webhook_hits (delete_bins P d)) \<subseteq> set (webhook_hits d)"
  by (auto simp: delete_bins_def)

lemma quota_delete: "quota_ok d \<Longrightarrow> quota_ok (delete_bins P d)"
  by (auto simp: quota_ok_def intro: order_trans [OF length_filter_le])

lemma hits_ok_delete:
  assumes "db_ok d" "hits_ok d"
  shows "hits_ok (delete_bins P d)"
  unfolding hits_ok_def
proof
  fix b assume b: "b \<in> set (webhook_bins (delete_bins P d))"
  then have "get_bin d (b_id b) = Some b" using get_bin_iff [OF assms(1)] by simp
  then have "hits_of (b_id b) (delete_bins P d) = hits_of (b_id b) d"
    using hits_of_delete [OF assms(1)] b by simp
  then show "length (hits_of (b_id b) (delete_bins P d)) \<le> MaxHitsPerBin \<and>
      b_hits b = int (length (hits_of (b_id b) (delete_bins P d)))"
    using assms(2) b by (simp add: hits_ok_def)
qed

lemma hooks_inv_delete: "hooks_inv d \<Longrightarrow> hooks_inv (delete_bins P d)"
  using delete_bins_hits [of P d]
  by (auto simp: hooks_inv_def intro: db_ok_delete quota_delete hits_ok_delete)

lemma redacted_inv_delete: "redacted_inv e d \<Longrightarrow> redacted_inv e (delete_bins P d)"
  using delete_bins_hits [of P d] by (auto simp: redacted_inv_def)

lemma insert_bin_effect:
  assumes "stmt_insert_bin b t d = (Inr x, d')"
  shows "b_id b \<notin> b_id ` set (webhook_bins d)" "d' = d\<lparr>webhook_bins := webhook_bins d @ [bin_row b]\<rparr>"
  using assms by (auto simp: stmt_insert_bin_def tbl_insert_def bin_row_def split: if_splits)

lemma bin_row_simps [simp]:
  "b_id (bin_row b) = b_id b" "b_user (bin_row b) = b_user b" "b_hits (bin_row b) = 0"
  "b_name (bin_row b) = b_name b" "b_last (bin_row b) = None"
  "b_created (bin_row b) = pg_time (b_created b)" "b_expires (bin_row b) = pg_time (b_expires b)"
  by (simp_all add: bin_row_def)

lemma db_ok_insert_bin:
  assumes "db_ok d" "stmt_insert_bin b t d = (Inr x, d')"
  shows "db_ok d'"
  using insert_bin_effect [OF assms(2)] assms(1)
  by (auto simp: db_ok_def tbl_ok_def hits_fk_def visitors_fk_def)

lemma hooks_inv_insert_bin:
  assumes inv: "hooks_inv d" and q: "length (bins_of (b_user b) d) < MaxBinsPerUser"
    and ins: "stmt_insert_bin b t d = (Inr x, d')"
  shows "hooks_inv d'"
proof -
  note eff = insert_bin_effect [OF ins]
  have "h_bin h \<noteq> b_id b" if "h \<in> set (webhook_hits d)" for h
    using that inv eff(1) unfolding hooks_inv_def db_ok_def hits_fk_def by metis
  then have "hits_of (b_id b) d = []" by (simp add: hits_of_def filter_empty_conv)
  moreover have "hits_of k d' = hits_of k d" for k by (simp add: eff(2) hits_of_def)
  ultimately have "hits_ok d'" using inv by (auto simp: hooks_inv_def hits_ok_def eff(2))
  moreover have "quota_ok d'" using inv q by (auto simp: hooks_inv_def quota_ok_def eff(2) bins_of_def)
  moreover have "db_ok d'" using inv db_ok_insert_bin ins by (auto simp: hooks_inv_def)
  ultimately show ?thesis using inv by (simp add: hooks_inv_def eff(2))
qed

text \<open>The two updates of \<^verbatim>\<open>ClearHits\<close> and the four of \<^verbatim>\<open>Ingest\<close> keep it together.\<close>

definition touch :: "string \<Rightarrow> nat \<Rightarrow> time option \<Rightarrow> db \<Rightarrow> db" where
  "touch bid n lst d = snd (stmt_touch_bin bid n lst 0 d)"

lemma stmt_touch_bin_eq [sql_stmt]: "stmt_touch_bin bid n lst t d = (Inr (), touch bid n lst d)"
  by (simp add: touch_def stmt_touch_bin_def)

lemma touch_frame [simp]:
  "webhook_hits (touch bid n lst d) = webhook_hits d" "users (touch bid n lst d) = users d"
  "visitors (touch bid n lst d) = visitors d" "hits_of k (touch bid n lst d) = hits_of k d"
  "map b_id (webhook_bins (touch bid n lst d)) = map b_id (webhook_bins d)"
  by (simp_all add: touch_def stmt_touch_bin_def hits_of_def map_pk_update)

lemma length_bins_of_touch [simp]: "length (bins_of u (touch bid n lst d)) = length (bins_of u d)"
proof -
  have "length (filter (\<lambda>b. b_user b = u) (map f bs)) = length (filter (\<lambda>b. b_user b = u) bs)"
    if "\<And>b. b_user (f b) = b_user b" for f :: "bin \<Rightarrow> bin" and bs
    using that by (simp add: filter_map_key)
  then show ?thesis by (simp add: touch_def stmt_touch_bin_def bins_of_def tbl_update_def)
qed

lemma touch_bin:
  assumes "b \<in> set (webhook_bins (touch bid n lst d))"
  shows "\<exists>b0 \<in> set (webhook_bins d). b_id b0 = b_id b \<and> b_hits b = (if b_id b = bid then int n else b_hits b0)"
proof -
  obtain b0 where "b0 \<in> set (webhook_bins d)"
    and "b = (if b_id b0 = bid then b0\<lparr>b_hits := int n, b_last := map_option pg_time lst\<rparr> else b0)"
    using assms unfolding touch_def stmt_touch_bin_def tbl_update_def by auto
  then show ?thesis by (intro bexI [of _ b0]) auto
qed

lemma db_ok_touch [simp]: "db_ok (touch bid n lst d) \<longleftrightarrow> db_ok d"
proof -
  have "b_id ` set (webhook_bins (touch bid n lst d)) = b_id ` set (webhook_bins d)"
    by (metis set_map touch_frame(5))
  then show ?thesis by (simp add: db_ok_def tbl_ok_def hits_fk_def visitors_fk_def)
qed

text \<open>
  Rewriting the hits of one bin: the invariant survives if the constraints do, the other
  bins' hits stay, and the bin's counter is set to the new number, within the cap.
\<close>

lemma hooks_inv_rewrite_hits:
  assumes inv: "hooks_inv d" and ok: "db_ok d'"
    and frame: "webhook_bins d' = webhook_bins d" "\<And>k. k \<noteq> bid \<Longrightarrow> hits_of k d' = hits_of k d"
    and bodies: "\<forall>h \<in> set (webhook_hits d'). body_ok h"
    and n: "length (hits_of bid d') = n" "n \<le> MaxHitsPerBin"
  shows "hooks_inv (touch bid n lst d')"
proof -
  have "hits_ok (touch bid n lst d')"
    unfolding hits_ok_def
  proof
    fix b assume "b \<in> set (webhook_bins (touch bid n lst d'))"
    then obtain b0 where b0: "b0 \<in> set (webhook_bins d)" "b_id b0 = b_id b"
        "b_hits b = (if b_id b = bid then int n else b_hits b0)"
      using touch_bin frame(1) by metis
    show "length (hits_of (b_id b) (touch bid n lst d')) \<le> MaxHitsPerBin \<and>
        b_hits b = int (length (hits_of (b_id b) (touch bid n lst d')))"
      using b0 n frame(2) [of "b_id b"] inv by (auto simp: hooks_inv_def hits_ok_def)
  qed
  moreover have "quota_ok (touch bid n lst d')"
    using inv frame(1) by (simp add: hooks_inv_def quota_ok_def) (simp add: bins_of_def)
  ultimately show ?thesis using ok bodies by (simp add: hooks_inv_def)
qed

lemma delete_hits_eq [sql_stmt]:
  "stmt_delete_hits bid t d = (Inr (), snd (stmt_delete_hits bid 0 d))"
  by (simp add: stmt_delete_hits_def)

lemma hooks_inv_clear:
  assumes "hooks_inv d"
  shows "hooks_inv (touch bid 0 None (snd (stmt_delete_hits bid 0 d)))"
proof (rule hooks_inv_rewrite_hits [OF assms])
  show "db_ok (snd (stmt_delete_hits bid 0 d))"
    using assms by (auto simp: stmt_delete_hits_def hooks_inv_def db_ok_def tbl_ok_def hits_fk_def
        visitors_fk_def distinct_map_filter_inj)
  show "hits_of k (snd (stmt_delete_hits bid 0 d)) = hits_of k d" if "k \<noteq> bid" for k
    using that by (auto simp: hits_of_def stmt_delete_hits_def intro: filter_cong)
qed (use assms in \<open>auto simp: stmt_delete_hits_def hits_of_def hooks_inv_def filter_empty_conv\<close>)

lemma insert_hit_effect:
  assumes "stmt_insert_hit e h t d = (Inr x, d')"
  shows "\<exists>row. hit_row_of e h = Some row \<and> h_id h \<notin> h_id ` set (webhook_hits d) \<and>
    get_bin d (h_bin h) \<noteq> None \<and> d' = d\<lparr>webhook_hits := webhook_hits d @ [row]\<rparr>"
  using assms
  by (auto simp: stmt_insert_hit_def tbl_insert_def hit_row_of_def split: option.splits if_splits)

lemma hit_row_simps:
  assumes "hit_row_of e h = Some row"
  shows "h_id row = h_id h" "h_bin row = h_bin h" "h_received row = pg_time (h_received h)"
    "h_body row = h_body h" "h_trunc row = h_trunc h" "h_bytes row = h_bytes h"
    "pg_jsonb e (json_Marshal e (h_headers h)) = Some (h_headers row)"
    "pg_jsonb e (json_Marshal e (h_params h)) = Some (h_params row)"
    "h_method row = h_method h" "h_path row = h_path h" "h_query row = h_query h"
    "h_ctype row = h_ctype h" "h_ip row = h_ip h" "h_agent row = h_agent h"
  using assms by (auto simp: hit_row_of_def split: option.splits)

definition ingest_effect :: "(string \<Rightarrow> int) \<Rightarrow> hit_row \<Rightarrow> time \<Rightarrow> db \<Rightarrow> db" where
  "ingest_effect tie row now d =
     (let d1 = d\<lparr>webhook_hits := webhook_hits d @ [row]\<rparr>;
          d2 = snd (stmt_cap_hits tie (h_bin row) MaxHitsPerBin 0 d1)
      in touch (h_bin row) (length (hits_of (h_bin row) d2)) (Some now) d2)"

lemma cap_hits_eq [sql_stmt]:
  "stmt_cap_hits tie bid n t d = (Inr (), snd (stmt_cap_hits tie bid n 0 d))"
  by (simp add: stmt_cap_hits_def Let_def)

lemma cap_hits_frame [simp]:
  "webhook_bins (snd (stmt_cap_hits tie bid n t d)) = webhook_bins d"
  "users (snd (stmt_cap_hits tie bid n t d)) = users d"
  "visitors (snd (stmt_cap_hits tie bid n t d)) = visitors d"
  "set (webhook_hits (snd (stmt_cap_hits tie bid n t d))) \<subseteq> set (webhook_hits d)"
  "k \<noteq> bid \<Longrightarrow> hits_of k (snd (stmt_cap_hits tie bid n t d)) = hits_of k d"
  by (auto simp: stmt_cap_hits_def Let_def hits_of_def intro: filter_cong)

lemma db_ok_cap: "db_ok d \<Longrightarrow> db_ok (snd (stmt_cap_hits tie bid n t d))"
  by (auto simp: stmt_cap_hits_def Let_def db_ok_def tbl_ok_def hits_fk_def visitors_fk_def
      distinct_map_filter_inj)

lemma db_ok_insert_hit:
  "db_ok d \<Longrightarrow> h_id row \<notin> h_id ` set (webhook_hits d) \<Longrightarrow> get_bin d (h_bin row) \<noteq> None \<Longrightarrow>
     db_ok (d\<lparr>webhook_hits := webhook_hits d @ [row]\<rparr>)"
  by (auto simp: db_ok_def tbl_ok_def hits_fk_def visitors_fk_def get_bin_None)

lemma hooks_inv_ingest:
  assumes inv: "hooks_inv d" and fresh: "h_id row \<notin> h_id ` set (webhook_hits d)"
    and fk: "get_bin d (h_bin row) \<noteq> None" and body: "body_ok row"
  shows "hooks_inv (ingest_effect tie row now d)"
proof -
  define d1 where "d1 = d\<lparr>webhook_hits := webhook_hits d @ [row]\<rparr>"
  define d2 where "d2 = snd (stmt_cap_hits tie (h_bin row) MaxHitsPerBin 0 d1)"
  have ok1: "db_ok d1" using inv fresh fk by (simp add: d1_def hooks_inv_def db_ok_insert_hit)
  have "hooks_inv (touch (h_bin row) (length (hits_of (h_bin row) d2)) (Some now) d2)"
  proof (rule hooks_inv_rewrite_hits [OF inv])
    show "db_ok d2" using ok1 by (simp add: d2_def db_ok_cap)
    show "webhook_bins d2 = webhook_bins d" by (simp add: d2_def d1_def)
    show "hits_of k d2 = hits_of k d" if "k \<noteq> h_bin row" for k
      using that by (simp add: d2_def) (simp add: d1_def hits_of_def)
    show "\<forall>h \<in> set (webhook_hits d2). body_ok h"
      using inv body cap_hits_frame(4) [of tie "h_bin row" MaxHitsPerBin 0 d1]
      by (auto simp: d2_def d1_def hooks_inv_def)
    show "length (hits_of (h_bin row) d2) \<le> MaxHitsPerBin"
      using ok1 by (simp add: d2_def length_capped db_ok_def)
  qed simp
  then show ?thesis by (simp add: ingest_effect_def Let_def d1_def d2_def)
qed

section \<open>Methods keep it\<close>

lemma uncacheBin_frame [simp, frame]:
  "db (uncacheBin s b w) = db w" "logs (uncacheBin s b w) = logs w"
  by (simp_all add: uncacheBin_def split: option.split)

lemma cacheBin_frame [simp, frame]:
  "db (cacheBin s b ttl w) = db w" "logs (cacheBin s b ttl w) = logs w"
  by (simp_all add: cacheBin_def split: option.split)

lemma fold_uncache_frame [simp, frame]:
  "db (fold (uncacheBin s) bs w) = db w" "logs (fold (uncacheBin s) bs w) = logs w"
  by (induction bs arbitrary: w) simp_all

lemma newID_frame [simp, frame]:
  "db (snd (newID e w)) = db w" "vk (snd (newID e w)) = vk w" "logs (snd (newID e w)) = logs w"
  "tick (snd (newID e w)) = Suc (tick w)"
  by (auto simp: newID_def dest!: rand_Read_eqD split: prod.split sum.split)

lemma reads_stmts [simp]:
  "reads (stmt_count_bins u)" "reads (stmt_select_bins tie u)" "reads (stmt_select_bin b)"
  "reads (stmt_select_expiry b)" "reads (stmt_count_hits b)" "reads (stmt_list_hits tie b n)"
  "reads (stmt_list_hits_after tie b a n)" "reads (stmt_select_hit h b)"
  by (simp_all add: reads_def stmt_count_bins_def stmt_select_bins_def stmt_select_bin_def
      stmt_select_expiry_def stmt_count_hits_def stmt_list_hits_def stmt_list_hits_after_def
      stmt_select_hit_def split: option.split)

text \<open>The tables after a pruning or an ownership check: as before, or less some bins.\<close>

definition pruned :: "db \<Rightarrow> db \<Rightarrow> bool" where
  "pruned = (\<lambda>d d'. \<exists>P. d' = delete_bins P d)\<^sup>*\<^sup>*"

lemma pruned_refl [simp, intro]: "pruned d d"
  by (simp add: pruned_def)

lemma pruned_delete [simp, intro]: "pruned d (delete_bins P d)"
  by (auto simp: pruned_def)

lemma pruned_trans: "pruned d d' \<Longrightarrow> pruned d' d'' \<Longrightarrow> pruned d d''"
  unfolding pruned_def by (rule rtranclp_trans)

lemma pruned_inv:
  assumes "pruned d d'" "I d" "\<And>P d. I d \<Longrightarrow> I (delete_bins P d)"
  shows "I d'"
  using assms(1) unfolding pruned_def by (induction rule: rtranclp_induct) (auto intro: assms(2,3))

lemma pruneExpired_db: "pruned (db w) (db (snd (pruneExpired e s w)))"
proof -
  have "pruned (db w) (db (snd (sql_query e [] stmt_prune w)))"
    by (rule stmt_effect_snd [OF sql_query_effect]) (simp_all add: stmt_prune_def)
  then show ?thesis by (auto simp: pruneExpired_def split: prod.splits sum.splits)
qed

lemma delete_bin_db: "pruned (db w) (db (snd (sql_exec e ps (stmt_delete_bin b) w)))"
  by (rule stmt_effect_snd [OF sql_exec_effect]) (simp_all add: stmt_delete_bin_def)

lemma getOwned_db: "pruned (db w) (db (snd (getOwned e s u b w)))"
proof -
  obtain r w1 where r: "sql_row e [b] (stmt_select_bin b) w = (r, w1)" by fastforce
  have w1: "db w1 = db w" using reads_row_db [of "stmt_select_bin b" e "[b]" w] r by simp
  show ?thesis
    using delete_bin_db [of "bump w1" e "[b]" b] w1
    by (auto simp: getOwned_def r time_Now_def split: sum.split)
qed

lemma getOwned_Inr:
  assumes "getOwned e s u b w = (Inr bin, w')"
  shows "db w' = db w" "get_bin (db w) b = Some bin" "b_user bin = u"
    "\<not> After (go_Now e (Suc (tick w))) (b_expires bin)" "tick w' = Suc (Suc (tick w))"
    "vk w' = vk w" "pg_outcome_at e (tick w) = PgOk" "pg_text_ok e b"
proof -
  obtain w1 where r: "sql_row e [b] (stmt_select_bin b) w = (Inr bin, w1)"
    and c: "b_user bin = u" "\<not> After (go_Now e (tick w1)) (b_expires bin)" "w' = bump w1"
    using assms by (auto simp: getOwned_def time_Now_def split: prod.splits sum.splits if_splits)
  have w1: "db w1 = db w" using reads_row_db [of "stmt_select_bin b" e "[b]" w] r by simp
  note x = sql_exec_Inr [OF sql_row_Inr [OF r]]
  show "get_bin (db w) b = Some bin" "pg_outcome_at e (tick w) = PgOk" "pg_text_ok e b"
    using x(1-3) by (auto simp: stmt_select_bin_def)
  show "db w' = db w" "b_user bin = u" "\<not> After (go_Now e (Suc (tick w))) (b_expires bin)"
    "tick w' = Suc (Suc (tick w))" "vk w' = vk w"
    using c w1 sql_row_eqD [OF r] by simp_all
qed

text \<open>What each method does to the tables, whatever fails.\<close>

lemma Create_db:
  "\<exists>d. pruned (db w) d \<and>
    (db (snd (Create e s u name w)) = d \<or>
     (\<exists>b t. b_user b = u \<and> length (bins_of u d) < MaxBinsPerUser \<and>
        stmt_insert_bin b t d = (Inr (), db (snd (Create e s u name w)))))"
proof -
  obtain r1 w1 where p: "pruneExpired e s w = (r1, w1)" by fastforce
  have d: "pruned (db w) (db w1)" using pruneExpired_db [of w e s] p by simp
  obtain r2 w2 where c: "sql_exec e [u] (stmt_count_bins u) w1 = (r2, w2)" by fastforce
  have w2: "db w2 = db w1" using reads_db [of "stmt_count_bins u" e "[u]" w1] c by simp
  have cnt: "n = length (bins_of u (db w1))" if "r2 = Inr n" for n
    using sql_exec_Inr(3) [OF c [unfolded that]] by (auto simp: stmt_count_bins_def)
  obtain r3 w3 where i: "newID e w2 = (r3, w3)" by fastforce
  have w3: "db w3 = db w1" using newID_frame(1) [of e w2] i w2 by simp
  show ?thesis
  proof (cases "db (snd (Create e s u name w)) = db w1")
    case False
    then obtain n bid where ok: "r1 = None" "r2 = Inr n" "n < MaxBinsPerUser" "r3 = Inr bid"
      using w2 w3 by (auto simp: Create_def p c i split: option.splits sum.splits if_splits)
    let ?b = "\<lparr>b_id = bid, b_user = u, b_name = bin_name bid name, b_created = go_Now e (tick w3),
               b_expires = go_Now e (tick w3) + BinTTL, b_hits = 0, b_last = None\<rparr>"
    have "db (snd (Create e s u name w)) =
        db (snd (sql_exec e [bid, u, bin_name bid name] (stmt_insert_bin ?b) (bump w3)))"
      using ok by (auto simp: Create_def p c i time_Now_def Let_def split: prod.splits sum.splits)
    then obtain t where "stmt_insert_bin ?b t (db w1) = (Inr (), db (snd (Create e s u name w)))"
      using sql_exec_effect [of "stmt_insert_bin ?b" "bump w3" e "[bid, u, bin_name bid name]"] False w3
      by (auto simp: stmt_effect_def)
    then show ?thesis using d ok cnt by (intro exI [of _ "db w1"]) auto
  qed (use d in blast)
qed

lemma clear_tx_Inr:
  assumes "clear_tx e b w = (Inr x, w')"
  shows "db w' = touch b 0 None (snd (stmt_delete_hits b 0 (db w)))"
    "tick w' = Suc (Suc (tick w))" "vk w' = vk w"
proof -
  obtain w1 where a: "sql_exec e [b] (stmt_delete_hits b) w = (Inr (), w1)"
    and t: "sql_exec e [b] (stmt_touch_bin b 0 None) w1 = (Inr x, w')"
    using assms by (auto simp: clear_tx_def split: prod.splits sum.splits)
  show "db w' = touch b 0 None (snd (stmt_delete_hits b 0 (db w)))"
    using sql_exec_Inr(3) [OF t] arg_cong [OF sql_exec_Inr(3) [OF a], of snd]
    by (simp add: stmt_touch_bin_eq) (simp add: stmt_delete_hits_def)
  show "tick w' = Suc (Suc (tick w))" "vk w' = vk w"
    using sql_exec_eqD [OF a] sql_exec_eqD [OF t] by simp_all
qed

lemma ingest_tx_Inr:
  assumes "ingest_tx e h now w = (Inr x, w')"
  shows "\<exists>row. hit_row_of e h = Some row \<and> h_id h \<notin> h_id ` set (webhook_hits (db w)) \<and>
    get_bin (db w) (h_bin h) \<noteq> None \<and>
    db w' = ingest_effect (pg_tie e (Suc (tick w))) row now (db w) \<and> tick w' = tick w + 4 \<and> vk w' = vk w"
proof -
  obtain w1 w2 n w3 where
    a: "sql_exec e (hit_texts h) (stmt_insert_hit e h) w = (Inr (), w1)" and
    b: "sql_exec e [h_bin h] (stmt_cap_hits (pg_tie e (tick w1)) (h_bin h) MaxHitsPerBin) w1 = (Inr (), w2)" and
    c: "sql_exec e [h_bin h] (stmt_count_hits (h_bin h)) w2 = (Inr n, w3)" and
    d: "sql_exec e [h_bin h] (stmt_touch_bin (h_bin h) n (Some now)) w3 = (Inr x, w')"
    using assms by (auto simp: ingest_tx_def split: prod.splits sum.splits)
  note fr = sql_exec_eqD [OF a] sql_exec_eqD [OF b] sql_exec_eqD [OF c] sql_exec_eqD [OF d]
  obtain row where row: "hit_row_of e h = Some row" "h_id h \<notin> h_id ` set (webhook_hits (db w))"
      "get_bin (db w) (h_bin h) \<noteq> None" "db w1 = (db w)\<lparr>webhook_hits := webhook_hits (db w) @ [row]\<rparr>"
    using insert_hit_effect [OF sql_exec_Inr(3) [OF a]] by auto
  have "db w2 = snd (stmt_cap_hits (pg_tie e (tick w1)) (h_bin h) MaxHitsPerBin 0 (db w1))"
    using arg_cong [OF sql_exec_Inr(3) [OF b], of snd] by (simp add: stmt_cap_hits_def Let_def)
  moreover have "db w3 = db w2" "n = length (hits_of (h_bin h) (db w2))"
    using sql_exec_Inr(3) [OF c] by (auto simp: stmt_count_hits_def)
  moreover have "db w' = touch (h_bin h) n (Some now) (db w3)"
    using sql_exec_Inr(3) [OF d] by (simp add: stmt_touch_bin_eq)
  ultimately have "db w' = ingest_effect (pg_tie e (Suc (tick w))) row now (db w)"
    using row(4) fr hit_row_simps(2) [OF row(1)] by (simp add: ingest_effect_def Let_def)
  then show ?thesis using row fr by auto
qed

lemma body_ok_make_hit: "body_ok (make_hit e hid bid now i)"
  by (auto simp: body_ok_def make_hit_def Let_def)

lemma make_hit_simps [simp]:
  "h_id (make_hit e hid bid now i) = hid" "h_bin (make_hit e hid bid now i) = bid"
  "h_received (make_hit e hid bid now i) = now"
  "h_headers (make_hit e hid bid now i) = redactHeaders e (case in_headers i of None \<Rightarrow> [] | Some m \<Rightarrow> m)"
  by (simp_all add: make_hit_def Let_def)

lemma Ingest_db:
  "\<exists>d. pruned (db w) d \<and>
    (db (snd (Ingest e s b i w)) = d \<or>
     (\<exists>hid now row tie. hit_row_of e (make_hit e hid b now i) = Some row \<and>
        hid \<notin> h_id ` set (webhook_hits d) \<and> get_bin d b \<noteq> None \<and>
        db (snd (Ingest e s b i w)) = ingest_effect tie row now d))"
proof -
  obtain w1 where w1: "snd (pruneExpired e s w) = w1" by simp
  have d: "pruned (db w) (db w1)" using pruneExpired_db [of w e s] w1 by simp
  obtain r2 w2 where q: "sql_row e [b] (stmt_select_expiry b) w1 = (r2, w2)" by fastforce
  have w2: "db w2 = db w1" using reads_row_db [of "stmt_select_expiry b" e "[b]" w1] q by simp
  define now where "now = go_Now e (tick w2)"
  obtain r3 w3 where i3: "newID e (bump w2) = (r3, w3)" by fastforce
  have w3: "db w3 = db w1" using newID_frame(1) [of e "bump w2"] i3 w2 by simp
  note unfold = Ingest_def Let_def w1 q time_Now_def i3 now_def [symmetric]
  show ?thesis
  proof (cases "\<exists>ex hid. r2 = Inr ex \<and> \<not> After now ex \<and> r3 = Inr hid")
    case False
    then have "pruned (db w1) (db (snd (Ingest e s b i w)))"
      using w2 w3 delete_bin_db [of "bump w2" e "[b]" b] by (auto simp: unfold split: sum.split)
    then show ?thesis using d by (blast intro: pruned_trans)
  next
    case True
    then obtain ex hid where ok: "r2 = Inr ex" "\<not> After now ex" "r3 = Inr hid" by blast
    let ?h = "make_hit e hid b now i"
    have res: "db (snd (Ingest e s b i w)) = db (snd (sql_tx e (ingest_tx e ?h now) w3))"
      using ok by (auto simp: unfold split: sum.split prod.split)
    consider "db (snd (Ingest e s b i w)) = db w1"
      | a w5 where "ingest_tx e ?h now (bump w3) = (Inr a, w5)" "db (snd (Ingest e s b i w)) = db w5"
      using sql_tx_effect [of e "ingest_tx e ?h now" w3] res w3 by auto
    then show ?thesis
    proof cases
      case 1
      then show ?thesis using d by blast
    next
      case 2
      then show ?thesis using ingest_tx_Inr [OF 2(1)] w3 d by (intro exI [of _ "db w1"]) fastforce
    qed
  qed
qed

text \<open>The other methods only prune, or rewrite the hits of one bin.\<close>

lemma List_bins_db: "pruned (db w) (db (snd (List_bins e s u w)))"
proof -
  have "db (snd (List_bins e s u w)) = db (snd (pruneExpired e s w))"
    by (auto simp: List_bins_def Let_def dest: reads_query_eqD [OF _ reads_stmts(2)]
        split: prod.splits sum.splits)
  then show ?thesis using pruneExpired_db [of w e s] by simp
qed

lemma Get_bin_db: "pruned (db w) (db (snd (Get_bin e s u b w)))"
  unfolding Get_bin_def by (rule pruned_trans [OF pruneExpired_db getOwned_db])

lemma Delete_bin_db: "pruned (db w) (db (snd (Delete_bin e s u b w)))"
proof -
  obtain r w1 where g: "getOwned e s u b w = (r, w1)" by fastforce
  have "pruned (db w) (db w1)" using getOwned_db [of w e s u b] g by simp
  moreover have "pruned (db w1) (db (snd (Delete_bin e s u b w)))"
    using delete_bin_db [of w1 e "[b]" b] by (auto simp: Delete_bin_def g split: prod.splits sum.splits)
  ultimately show ?thesis by (rule pruned_trans)
qed

lemma ListHits_db: "pruned (db w) (db (snd (ListHits e s u b n a w)))"
proof -
  obtain r w1 where g: "getOwned e s u b w = (r, w1)" by fastforce
  have "pruned (db w) (db w1)" using getOwned_db [of w e s u b] g by simp
  moreover have "db (snd (ListHits e s u b n a w)) = db w1"
    by (auto simp: ListHits_def g Let_def dest: reads_query_eqD [OF _ reads_stmts(6)]
        reads_query_eqD [OF _ reads_stmts(7)] split: prod.splits sum.splits if_splits)
  ultimately show ?thesis by simp
qed

lemma GetHit_db: "pruned (db w) (db (snd (GetHit e s u b h w)))"
proof -
  obtain r w1 where g: "getOwned e s u b w = (r, w1)" by fastforce
  have "pruned (db w) (db w1)" using getOwned_db [of w e s u b] g by simp
  moreover have "db (snd (GetHit e s u b h w)) = db w1"
    by (auto simp: GetHit_def g dest: reads_row_eqD [OF _ reads_stmts(8)] split: prod.splits sum.splits)
  ultimately show ?thesis by simp
qed

lemma PublicExists_db: "pruned (db w) (db (snd (PublicExists e s b w)))"
proof -
  obtain hit w1 where h: "(case s of None \<Rightarrow> (False, w)
      | Some kv \<Rightarrow> (case kv_do (\<lambda>t. kv_Exists kv t (binCacheKey b)) w of
          (Inl _, w) \<Rightarrow> (False, w) | (Inr n, w) \<Rightarrow> (0 < n, w))) = (hit, w1)" by fastforce
  have w1: "db w1 = db w"
    using h by (auto split: option.splits prod.splits sum.splits dest!: kv_do_eqD)
  have "db (snd (PublicExists e s b w)) \<in> {db w1, db (snd (pruneExpired e s w1))}"
    unfolding PublicExists_def h
    by (auto simp: Let_def time_Now_def dest!: reads_row_eqD [OF _ reads_stmts(4)]
        split: prod.splits sum.splits)
  then show ?thesis using w1 pruneExpired_db [of w1 e s] by auto
qed

lemma ClearHits_db:
  "\<exists>d. pruned (db w) d \<and> (db (snd (ClearHits e s u b w)) = d \<or>
     pruned (touch b 0 None (snd (stmt_delete_hits b 0 d))) (db (snd (ClearHits e s u b w))))"
proof -
  obtain r w1 where g: "getOwned e s u b w = (r, w1)" by fastforce
  have d: "pruned (db w) (db w1)" using getOwned_db [of w e s u b] g by simp
  obtain r2 w2 where t: "sql_tx e (clear_tx e b) w1 = (r2, w2)" by fastforce
  have w2: "db w2 = db w1 \<or> db w2 = touch b 0 None (snd (stmt_delete_hits b 0 (db w1)))"
    using sql_tx_effect [of e "clear_tx e b" w1] t clear_tx_Inr(1) [of e b "bump w1"] by auto
  have "db (snd (ClearHits e s u b w)) = db w1 \<or> pruned (db w2) (db (snd (ClearHits e s u b w)))"
    using getOwned_db [of w2 e s u b] by (auto simp: ClearHits_def g t split: sum.split)
  then show ?thesis using d w2 by (metis pruned_trans)
qed

section \<open>Preservation, operation by operation\<close>

lemmas hooks_inv_pruned = pruned_inv [where I = hooks_inv, OF _ _ hooks_inv_delete]

lemma hooks_inv_Create: "hooks_inv (db w) \<Longrightarrow> hooks_inv (db (snd (Create e s u name w)))"
  using Create_db [of w e s u name] by (metis hooks_inv_insert_bin hooks_inv_pruned)

lemma hooks_inv_Ingest:
  assumes "hooks_inv (db w)"
  shows "hooks_inv (db (snd (Ingest e s b i w)))"
proof -
  obtain d where d: "pruned (db w) d" and c: "db (snd (Ingest e s b i w)) = d \<or>
     (\<exists>hid now row tie. hit_row_of e (make_hit e hid b now i) = Some row \<and>
        hid \<notin> h_id ` set (webhook_hits d) \<and> get_bin d b \<noteq> None \<and>
        db (snd (Ingest e s b i w)) = ingest_effect tie row now d)"
    using Ingest_db by blast
  have inv: "hooks_inv d" using hooks_inv_pruned [OF d assms] .
  have "body_ok row" if "hit_row_of e (make_hit e hid b now i) = Some row" for hid now row
    using body_ok_make_hit [of e hid b now i] hit_row_simps [OF that] by (simp add: body_ok_def)
  then show ?thesis
    using c inv hooks_inv_ingest [OF inv] hit_row_simps(1,2) by (metis make_hit_simps(1,2))
qed

lemma hooks_inv_ClearHits: "hooks_inv (db w) \<Longrightarrow> hooks_inv (db (snd (ClearHits e s u b w)))"
  using ClearHits_db [of w e s u b] by (blast dest: hooks_inv_pruned intro: hooks_inv_clear)

lemma redacted_inv_ingest:
  assumes "redacted_inv e d" "hit_row_of e (make_hit e hid b now i) = Some row"
  shows "redacted_inv e (ingest_effect tie row t d)"
proof -
  have "redacted_doc e (h_headers row)"
    using hit_row_simps(7) [OF assms(2)] by (auto simp: redacted_doc_def)
  then show ?thesis
    using assms(1) cap_hits_frame(4) [of tie "h_bin row" MaxHitsPerBin 0 "d\<lparr>webhook_hits := webhook_hits d @ [row]\<rparr>"]
    by (auto simp: redacted_inv_def ingest_effect_def Let_def)
qed

lemmas redacted_inv_pruned = pruned_inv [where I = "redacted_inv e" for e, OF _ _ redacted_inv_delete]

lemma redacted_inv_Ingest:
  "redacted_inv e (db w) \<Longrightarrow> redacted_inv e (db (snd (Ingest e s b i w)))"
proof -
  assume r: "redacted_inv e (db w)"
  obtain d where d: "pruned (db w) d" and c: "db (snd (Ingest e s b i w)) = d \<or>
     (\<exists>hid now row tie. hit_row_of e (make_hit e hid b now i) = Some row \<and>
        hid \<notin> h_id ` set (webhook_hits d) \<and> get_bin d b \<noteq> None \<and>
        db (snd (Ingest e s b i w)) = ingest_effect tie row now d)"
    using Ingest_db by blast
  have "redacted_inv e d" by (rule redacted_inv_pruned [OF d r])
  then show ?thesis using c redacted_inv_ingest by auto
qed

lemma redacted_inv_Create:
  "redacted_inv e (db w) \<Longrightarrow> redacted_inv e (db (snd (Create e s u name w)))"
proof -
  assume r: "redacted_inv e (db w)"
  have "redacted_inv e d'" if "stmt_insert_bin b t d = (Inr x, d')" "redacted_inv e d" for b t d x d'
    using insert_bin_effect(2) [OF that(1)] that(2) by (simp add: redacted_inv_def)
  then show ?thesis using Create_db [of w e s u name] r by (blast dest: redacted_inv_pruned)
qed

lemma redacted_inv_ClearHits:
  "redacted_inv e (db w) \<Longrightarrow> redacted_inv e (db (snd (ClearHits e s u b w)))"
proof -
  assume r: "redacted_inv e (db w)"
  have "redacted_inv e (touch b 0 None (snd (stmt_delete_hits b 0 d)))" if "redacted_inv e d" for d
    using that by (auto simp: redacted_inv_def stmt_delete_hits_def)
  then show ?thesis using ClearHits_db [of w e s u b] r by (blast dest: redacted_inv_pruned)
qed

section \<open>Reachable states\<close>

text \<open>
  One step is one call of a method of the store, or anything else the process or its
  clients do that leaves the two webhook tables alone and the constraints intact (the other
  components, other Valkey clients, time passing).
\<close>

inductive hook_step :: "env \<Rightarrow> 'k store \<Rightarrow> 'k world \<Rightarrow> 'k world \<Rightarrow> bool" for e s where
  create: "hook_step e s w (snd (Create e s u name w))"
| list_bins: "hook_step e s w (snd (List_bins e s u w))"
| get: "hook_step e s w (snd (Get_bin e s u b w))"
| delete: "hook_step e s w (snd (Delete_bin e s u b w))"
| clear_hits: "hook_step e s w (snd (ClearHits e s u b w))"
| ingest: "hook_step e s w (snd (Ingest e s b i w))"
| list_hits: "hook_step e s w (snd (ListHits e s u b n a w))"
| get_hit: "hook_step e s w (snd (GetHit e s u b h w))"
| public_exists: "hook_step e s w (snd (PublicExists e s b w))"
| elsewhere: "webhook_bins (db w') = webhook_bins (db w) \<Longrightarrow> webhook_hits (db w') = webhook_hits (db w)
    \<Longrightarrow> (db_ok (db w) \<Longrightarrow> db_ok (db w')) \<Longrightarrow> hook_step e s w w'"

inductive hook_reach :: "env \<Rightarrow> 'k store \<Rightarrow> 'k world \<Rightarrow> bool" for e s where
  start: "db w = empty_db \<Longrightarrow> hook_reach e s w"
| step: "hook_reach e s w \<Longrightarrow> hook_step e s w w' \<Longrightarrow> hook_reach e s w'"

lemmas pruning_ops = List_bins_db Get_bin_db Delete_bin_db ListHits_db GetHit_db PublicExists_db

lemma hook_step_inv: "hook_step e s w w' \<Longrightarrow> hooks_inv (db w) \<Longrightarrow> hooks_inv (db w')"
proof (induction rule: hook_step.induct)
  case (elsewhere w' w)
  then show ?case
    by (simp add: hooks_inv_def quota_ok_def bins_of_def hits_ok_def hits_of_def)
qed (blast intro: hooks_inv_Create hooks_inv_Ingest hooks_inv_ClearHits
    hooks_inv_pruned pruning_ops)+

lemma hook_step_redacted: "hook_step e s w w' \<Longrightarrow> redacted_inv e (db w) \<Longrightarrow> redacted_inv e (db w')"
proof (induction rule: hook_step.induct)
  case (elsewhere w' w)
  then show ?case by (simp add: redacted_inv_def)
qed (blast intro: redacted_inv_Create redacted_inv_Ingest redacted_inv_ClearHits
    redacted_inv_pruned pruning_ops)+

lemma hooks_inv_empty: "hooks_inv empty_db"
  by (simp add: hooks_inv_def empty_db_def db_ok_def tbl_ok_def hits_fk_def visitors_fk_def
      quota_ok_def bins_of_def hits_ok_def)

lemma hook_reach_inv: "hook_reach e s w \<Longrightarrow> hooks_inv (db w)"
  by (induction rule: hook_reach.induct) (auto simp: hooks_inv_empty intro: hook_step_inv)

lemma hook_reach_redacted: "hook_reach e s w \<Longrightarrow> redacted_inv e (db w)"
  by (induction rule: hook_reach.induct)
    (auto simp: redacted_inv_def empty_db_def intro: hook_step_redacted [unfolded redacted_inv_def, rule_format])

section \<open>Properties\<close>

text \<open>
  In every state the service can reach from empty tables, whatever fails in between:
  no user has more than \<open>MaxBinsPerUser\<close> bins, no bin keeps more than
  \<open>MaxHitsPerBin\<close> hits, \<^verbatim>\<open>hit_count\<close> is the number of stored hits, no body is
  longer than \<open>MaxBodyBytes\<close>, and every hit belongs to a bin. Calls are taken one
  after the other; what overlapping calls do is in \<^verbatim>\<open>Webhook_Race\<close>.
\<close>

theorem webhook_limits_hold:
  assumes "hook_reach e s w"
  shows "length (bins_of u (db w)) \<le> MaxBinsPerUser \<and>
    (\<forall>b \<in> set (webhook_bins (db w)).
       length (hits_of (b_id b) (db w)) \<le> MaxHitsPerBin \<and>
       b_hits b = int (length (hits_of (b_id b) (db w)))) \<and>
    (\<forall>h \<in> set (webhook_hits (db w)).
       length (h_body h) \<le> MaxBodyBytes \<and> get_bin (db w) (h_bin h) \<noteq> None)"
proof -
  have inv: "hooks_inv (db w)" by (rule hook_reach_inv [OF assms])
  then have "get_bin (db w) (h_bin h) \<noteq> None" if "h \<in> set (webhook_hits (db w))" for h
    using that by (simp add: hooks_inv_def db_ok_def hits_fk_def get_bin_None)
  then show ?thesis using inv by (auto simp: hooks_inv_def quota_ok_def hits_ok_def body_ok_def)
qed

theorem webhook_limits_hold_witness:
  "length (bins_of ''u'' (db (snd (Create (demo_env 0) None ''u'' ''n'' (demo_world empty_db))))) \<le> MaxBinsPerUser"
proof -
  have "hook_reach (demo_env 0) None (demo_world empty_db)" by (simp add: hook_reach.start)
  from webhook_limits_hold [OF hook_reach.step [OF this hook_step.create]] show ?thesis by blast
qed

end
