(* ===== verification/Webhook_Spec.thy ===== *)
theory Webhook_Spec
  imports Webhook_Inv
begin

text \<open>
  What the methods of the webhook store promise to their callers: who may touch a bin, what
  a created bin looks like, how captured requests are kept and listed.
\<close>

section \<open>The ownership gate\<close>

text \<open>
  Four methods start with \<^verbatim>\<open>getOwned\<close> and return its error. What they owe to that
  check is proved once.
\<close>

definition owner_verdict :: "string \<Rightarrow> time \<Rightarrow> bin option \<Rightarrow> go_error + bin" where
  "owner_verdict u now r =
     (case r of
        None \<Rightarrow> Inl ErrNotFound
      | Some b \<Rightarrow>
          if b_user b \<noteq> u then Inl ErrForbidden
          else if After now (b_expires b) then Inl ErrExpired
          else Inr b)"

lemma select_bin_cases:
  "sql_row e [b] (stmt_select_bin b) w =
     (case get_bin (db w) b of
        Some x \<Rightarrow> if pg_outcome_at e (tick w) = PgOk \<and> pg_text_ok e b then (Inr x, bump w)
          else (fst (sql_row e [b] (stmt_select_bin b) w), bump w)
      | None \<Rightarrow> (fst (sql_row e [b] (stmt_select_bin b) w), bump w))"
  by (auto simp: sql_row_def sql_exec_def sql_run_def stmt_select_bin_def bump_def
      split: pg_outcome.split option.split)

lemma select_bin_Inl:
  assumes "sql_row e [b] (stmt_select_bin b) w = (Inl er, w')"
  shows "db w' = db w" "er \<noteq> ErrForbidden" "errors_Is er ErrNoRows \<Longrightarrow> get_bin (db w) b = None"
  using assms
  by (auto simp: sql_row_def sql_exec_def sql_run_def stmt_select_bin_def bump_def
      split: pg_outcome.splits option.splits if_splits)

lemma getOwned_ok:
  assumes "pg_outcome_at e (tick w) = PgOk" "pg_text_ok e b"
  shows "fst (getOwned e s u b w) = owner_verdict u (go_Now e (Suc (tick w))) (get_bin (db w) b)"
  using sql_row_ok [of e w "[b]" "stmt_select_bin b" "get_bin (db w) b" "db w"] assms
  by (auto simp: getOwned_def owner_verdict_def stmt_select_bin_def time_Now_def Let_def
      split: option.split)

lemma getOwned_foreign:
  assumes "get_bin (db w) b = Some x" "b_user x \<noteq> u"
  shows "isl (fst (getOwned e s u b w))" "db (snd (getOwned e s u b w)) = db w"
    "vk (snd (getOwned e s u b w)) = vk w"
    "pg_outcome_at e (tick w) = PgOk \<Longrightarrow> pg_text_ok e b \<Longrightarrow> fst (getOwned e s u b w) = Inl ErrForbidden"
proof -
  obtain r w1 where r: "sql_row e [b] (stmt_select_bin b) w = (r, w1)" by fastforce
  have w1: "db w1 = db w" "vk w1 = vk w"
    using reads_row_eqD [OF r] sql_row_eqD [OF r] by simp_all
  have "y = x" if "r = Inr y" for y
    using sql_exec_Inr(3) [OF sql_row_Inr [OF r [unfolded that]]] assms(1)
    by (simp add: stmt_select_bin_def)
  then show "isl (fst (getOwned e s u b w))" "db (snd (getOwned e s u b w)) = db w"
    "vk (snd (getOwned e s u b w)) = vk w"
    using w1 assms(2) by (auto simp: getOwned_def r split: sum.split)
  show "fst (getOwned e s u b w) = Inl ErrForbidden"
    if "pg_outcome_at e (tick w) = PgOk" "pg_text_ok e b"
    using getOwned_ok [OF that] assms by (simp add: owner_verdict_def)
qed

locale owned_op =
  fixes op :: "env \<Rightarrow> 'k store \<Rightarrow> string \<Rightarrow> string \<Rightarrow> 'k world \<Rightarrow> (go_error + 'a) \<times> 'k world"
  assumes gate: "getOwned e s u b w = (Inl er, w') \<Longrightarrow> op e s u b w = (Inl er, w')"
begin

lemma op_refused:
  "isl (fst (getOwned e s u b w)) \<Longrightarrow>
     isl (fst (op e s u b w)) \<and> snd (op e s u b w) = snd (getOwned e s u b w)"
  using gate [of e s u b w] by (cases "getOwned e s u b w") (auto elim!: isl_def [THEN iffD1, THEN exE])

lemma foreign:
  assumes "get_bin (db w) b = Some x" "b_user x \<noteq> u"
  shows "isl (fst (op e s u b w)) \<and> db (snd (op e s u b w)) = db w \<and> vk (snd (op e s u b w)) = vk w"
  using op_refused [OF getOwned_foreign(1) [OF assms]] getOwned_foreign(2,3) [OF assms] by simp

lemma error_passed:
  assumes "fst (getOwned e s u b w) = Inl er"
  shows "fst (op e s u b w) = Inl er"
  using gate [of e s u b w er "snd (getOwned e s u b w)"] assms by (cases "getOwned e s u b w") simp

lemma verdict_error:
  assumes "pg_outcome_at e (tick w) = PgOk" "pg_text_ok e b"
    and "owner_verdict u (go_Now e (Suc (tick w))) (get_bin (db w) b) = Inl er"
  shows "fst (op e s u b w) = Inl er"
  by (rule error_passed) (simp add: getOwned_ok [OF assms(1,2)] assms(3))

lemma success_owner:
  assumes "op e s u b w = (Inr a, w')"
  shows "\<exists>x. get_bin (db w) b = Some x \<and> b_user x = u \<and> \<not> After (go_Now e (Suc (tick w))) (b_expires x)"
proof -
  obtain r w1 where g: "getOwned e s u b w = (r, w1)" by fastforce
  then obtain x where "r = Inr x" using gate [of e s u b w _ w1] assms by (cases r) auto
  then show ?thesis using getOwned_Inr(2-4) [of e s u b w x w1] g by blast
qed

end

interpretation gate: owned_op getOwned by unfold_locales simp
interpretation del: owned_op Delete_bin by unfold_locales (simp add: Delete_bin_def)
interpretation clr: owned_op ClearHits by unfold_locales (simp add: ClearHits_def)
interpretation lst: owned_op "\<lambda>e s u b. ListHits e s u b limit after" for limit after
  by unfold_locales (simp add: ListHits_def)
interpretation ghit: owned_op "\<lambda>e s u b. GetHit e s u b h" for h
  by unfold_locales (simp add: GetHit_def)


definition demo_id :: "nat \<Rightarrow> string" where
  "demo_id n = hex_encode (map (rand_byte (demo_env 0) n) [0..<IDBytes])"

definition demo_bin :: bin where
  "demo_bin = \<lparr>b_id = demo_id 2, b_user = ''u1'', b_name = bin_name (demo_id 2) ''n'', b_created = 3000000000,
     b_expires = 259203000000000, b_hits = 0, b_last = None\<rparr>"

definition one_bin_db :: db where
  "one_bin_db = empty_db\<lparr>webhook_bins := [demo_bin]\<rparr>"

lemma demo_bin_simps [simp]: "b_id demo_bin = demo_id 2" "b_user demo_bin = ''u1''"
  "b_expires demo_bin = 259203000000000"
  by (simp_all add: demo_bin_def)

lemma one_bin_hits [simp]: "webhook_hits one_bin_db = []"
  by (simp add: one_bin_db_def empty_db_def)

lemma one_bin_get [simp]: "get_bin one_bin_db b = (if b = demo_id 2 then Some demo_bin else None)"
  by (simp add: one_bin_db_def get_bin_def tbl_lookup_def empty_db_def)


text \<open>
  What the owner check decides: when the database answers, the error of every one of
  these calls is \<^verbatim>\<open>not found\<close> for an unknown bin, \<^verbatim>\<open>forbidden\<close> for
  another user's, \<^verbatim>\<open>expired\<close> for one past its time, in this order.
\<close>

theorem owner_check_errors:
  assumes "pg_outcome_at e (tick w) = PgOk" and "pg_text_ok e b"
    and "owner_verdict u (go_Now e (Suc (tick w))) (get_bin (db w) b) = Inl er"
  shows "fst (Delete_bin e s u b w) = Inl er \<and> fst (ClearHits e s u b w) = Inl er \<and>
    fst (ListHits e s u b limit after w) = Inl er \<and> fst (GetHit e s u b h w) = Inl er"
  using del.verdict_error [OF assms] clr.verdict_error [OF assms] lst.verdict_error [OF assms]
    ghit.verdict_error [OF assms] by blast

theorem owner_check_errors_witness:
  "fst (ListHits (demo_env (80 * Hour)) None ''u1'' (demo_id 2) 10 [] (demo_world one_bin_db)) = Inl ErrExpired \<and>
   fst (GetHit (demo_env 0) None ''u2'' (demo_id 2) ''h'' (demo_world one_bin_db)) = Inl ErrForbidden"
  using owner_check_errors [of "demo_env (80 * Hour)" "demo_world one_bin_db" "demo_id 2" "''u1''" ErrExpired]
    owner_check_errors [of "demo_env 0" "demo_world one_bin_db" "demo_id 2" "''u2''" ErrForbidden]
  by (simp add: owner_verdict_def After_def Hour_def Minute_def Second_def)

section \<open>Creating bins\<close>

lemma is_hex_digit: "is_hex_lower (hex_digit n)"
proof -
  have "n mod 16 \<in> set [0..<16]" by simp
  then have "\<forall>k \<in> set [0..<16]. is_hex_lower (''0123456789abcdef'' ! k) \<Longrightarrow> ?thesis"
    by (simp add: hex_digit_def)
  moreover have "\<forall>k \<in> set [0..<16]. is_hex_lower (''0123456789abcdef'' ! k)" by code_simp
  ultimately show ?thesis by blast
qed

lemma hex_encode_hex: "list_all is_hex_lower (hex_encode bs)"
  by (induction bs) (simp_all add: hex_encode_def is_hex_digit)

text \<open>The shape \<^verbatim>\<open>looksLikeBinID\<close> of the router asks for.\<close>

definition is_bin_id :: "string \<Rightarrow> bool" where
  "is_bin_id s \<longleftrightarrow> length s = 2 * IDBytes \<and> list_all is_hex_lower s"

lemma newID_bin_id: "newID e w = (Inr b, w') \<Longrightarrow> is_bin_id b"
  by (auto simp: newID_def is_bin_id_def hex_encode_hex dest!: rand_Read_length split: prod.splits sum.splits)

lemma bin_name_length: "length (bin_name b name) \<le> 64"
  by (simp add: bin_name_def Let_def)

lemma bin_name_nonempty: "bin_name b name \<noteq> []"
  by (auto simp: bin_name_def Let_def)

text \<open>A call that reports success, step by step.\<close>

lemma Create_Inr:
  assumes "Create e s u name w = (Inr b, w')"
  shows "is_bin_id (b_id b)" "b_user b = u" "b_name b = bin_name (b_id b) name"
    "b_expires b = b_created b + BinTTL" "b_hits b = 0" "b_last b = None"
    "db w' = (db (snd (pruneExpired e s w)))
       \<lparr>webhook_bins := webhook_bins (db (snd (pruneExpired e s w))) @ [bin_row b]\<rparr>"
    "length (bins_of u (db (snd (pruneExpired e s w)))) < MaxBinsPerUser"
    "b_id b \<notin> b_id ` set (webhook_bins (db (snd (pruneExpired e s w))))"
proof -
  obtain w1 w2 n w3 bid w4 where p: "pruneExpired e s w = (None, w1)"
    and c: "sql_exec e [u] (stmt_count_bins u) w1 = (Inr n, w2)" and n: "n < MaxBinsPerUser"
    and i: "newID e w2 = (Inr bid, w3)"
    and b: "b = \<lparr>b_id = bid, b_user = u, b_name = bin_name bid name, b_created = go_Now e (tick w3),
               b_expires = go_Now e (tick w3) + BinTTL, b_hits = 0, b_last = None\<rparr>"
    and x: "sql_exec e [b_id b, b_user b, b_name b] (stmt_insert_bin b) (bump w3) = (Inr (), w4)"
    and w': "w' = cacheBin s (b_id b) BinTTL w4"
    using assms
    by (auto simp: Create_def time_Now_def Let_def not_le split: prod.splits sum.splits option.splits if_splits)
  have w3: "db w3 = db w1"
    using newID_frame(1) [of e w2] i reads_eqD [OF c] by simp
  note ins = insert_bin_effect [OF sql_exec_Inr(3) [OF x]]
  show "is_bin_id (b_id b)" "b_user b = u" "b_name b = bin_name (b_id b) name"
    "b_expires b = b_created b + BinTTL" "b_hits b = 0" "b_last b = None"
    using b newID_bin_id [OF i] by simp_all
  show "length (bins_of u (db (snd (pruneExpired e s w)))) < MaxBinsPerUser"
    using sql_exec_Inr(3) [OF c] n p by (auto simp: stmt_count_bins_def)
  show "b_id b \<notin> b_id ` set (webhook_bins (db (snd (pruneExpired e s w))))"
    using ins(1) p w3 by simp
  show "db w' = (db (snd (pruneExpired e s w)))
       \<lparr>webhook_bins := webhook_bins (db (snd (pruneExpired e s w))) @ [bin_row b]\<rparr>"
    using ins(2) p w3 w' by simp
qed

lemma Create_get:
  assumes "Create e s u name w = (Inr b, w')"
  shows "get_bin (db w') (b_id b) = Some (bin_row b)"
proof -
  have "find (\<lambda>r. b_id r = b_id b) (webhook_bins (db (snd (pruneExpired e s w)))) = None"
    using Create_Inr(9) [OF assms] by (simp add: find_None_all) (metis imageI)
  then show ?thesis
    using Create_Inr(7) [OF assms] by (simp add: get_bin_def tbl_lookup_def find_append)
qed


text \<open>The definitions to unfold for a call on a concrete world.\<close>

lemmas sql_eval = sql_tx_def sql_query_def sql_row_def sql_exec_def sql_run_def rand_Read_def
  time_Now_def bump_def
lemmas table_eval = tbl_insert_def tbl_update_def tbl_lookup_def get_bin_def bins_of_def hits_of_def
  delete_bins_def order_desc_def empty_db_def bin_row_def
lemmas const_eval = MaxBinsPerUser_def MaxHitsPerBin_def BinTTL_def Hour_def Minute_def Second_def
  After_def pg_time_def
lemmas create_eval = Create_def pruneExpired_def newID_def cacheBin_def uncacheBin_def stmt_prune_def
  stmt_count_bins_def stmt_insert_bin_def

text \<open>The world in which the closed examples run: one bin, just created.\<close>

definition bin_world :: "kv_map world" where
  "bin_world = (demo_world one_bin_db)\<lparr>tick := 5\<rparr>"

lemma bin_world_simps [simp]: "db bin_world = one_bin_db" "tick bin_world = 5"
  by (simp_all add: bin_world_def)

lemma demo_create:
  "Create (demo_env 0) None ''u1'' ''n'' (demo_world empty_db) = (Inr demo_bin, bin_world)"
  by (simp add: create_eval sql_eval table_eval const_eval demo_bin_def demo_world_def demo_id_def
      bin_world_def one_bin_db_def Let_def eval_nat_numeral)


section \<open>Capturing requests: a bin as a bounded log\<close>

text \<open>
  The abstract view of a bin is the list of its hits, newest first, and capturing is a push
  that drops what does not fit. The view is well defined when the receive times in the bin
  differ (they are microseconds in the table; ties are listed in any order).
\<close>

definition newest_first :: "string \<Rightarrow> db \<Rightarrow> hit_row list" where
  "newest_first b d = sort_key (\<lambda>h. - h_received h) (hits_of b d)"

definition log_push :: "nat \<Rightarrow> 'a \<Rightarrow> 'a list \<Rightarrow> 'a list" where
  "log_push n x xs = take n (x # xs)"

definition times_differ :: "string \<Rightarrow> db \<Rightarrow> bool" where
  "times_differ b d \<longleftrightarrow> inj_on h_received (set (hits_of b d))"

lemma order_desc_unique:
  assumes "inj_on key (set rows)" "mset xs = mset rows" "sorted (map (\<lambda>r. - key r) xs)"
  shows "order_desc tie key pk rows = xs"
  unfolding order_desc_def
  by (rule sort_key_inj_key_eq) (use assms in \<open>auto simp: inj_on_def\<close>)

lemma sort_desc_unique:
  fixes key :: "'r \<Rightarrow> int"
  assumes "inj_on key (set rows)" "mset xs = mset rows" "sorted (map (\<lambda>r. - key r) xs)"
  shows "sort_key (\<lambda>r. - key r) rows = xs"
  by (rule sort_key_inj_key_eq) (use assms in \<open>auto simp: inj_on_def\<close>)

lemma mset_newest [simp]: "mset (newest_first b d) = mset (hits_of b d)"
  by (simp add: newest_first_def)

lemma set_newest [simp]: "set (newest_first b d) = set (hits_of b d)"
  by (simp add: newest_first_def)

lemma sorted_newest: "sorted (map (\<lambda>h. - h_received h) (newest_first b d))"
  by (simp add: newest_first_def)

lemma order_desc_newest:
  "times_differ b d \<Longrightarrow> order_desc tie h_received h_id (hits_of b d) = newest_first b d"
  by (rule order_desc_unique) (simp_all add: times_differ_def sorted_newest)

lemma newest_cap:
  assumes ok: "tbl_ok h_id (webhook_hits d)" and td: "times_differ b d"
  shows "newest_first b (snd (stmt_cap_hits tie b n now d)) = take n (newest_first b d)"
proof -
  let ?L = "newest_first b d"
  have dist: "distinct (map h_id (hits_of b d))"
    using ok by (simp add: hits_of_def tbl_ok_def distinct_map_filter_inj)
  have ms: "mset (hits_of b (snd (stmt_cap_hits tie b n now d))) = mset (take n ?L)"
    unfolding hits_of_cap order_desc_newest [OF td] by (rule mset_keep_first [OF dist]) simp
  show ?thesis
    unfolding newest_first_def [of b "snd (stmt_cap_hits tie b n now d)"]
  proof (rule sort_desc_unique)
    have "set (take n ?L) \<subseteq> set (hits_of b d)" using set_take_subset [of n ?L] by simp
    then show "inj_on h_received (set (hits_of b (snd (stmt_cap_hits tie b n now d))))"
      using td mset_eq_setD [OF ms] by (auto simp: times_differ_def intro: inj_on_subset)
    show "sorted (map (\<lambda>h. - h_received h) (take n ?L))"
      using sorted_newest [of b d] by (simp add: take_map [symmetric] sorted_wrt_take)
  qed (use ms in simp)
qed

lemma newest_insert:
  assumes "times_differ (h_bin row) d" "\<forall>h \<in> set (hits_of (h_bin row) d). h_received h < h_received row"
  shows "newest_first (h_bin row) (d\<lparr>webhook_hits := webhook_hits d @ [row]\<rparr>) = row # newest_first (h_bin row) d"
    "times_differ (h_bin row) (d\<lparr>webhook_hits := webhook_hits d @ [row]\<rparr>)"
proof -
  let ?d = "d\<lparr>webhook_hits := webhook_hits d @ [row]\<rparr>"
  have h: "hits_of (h_bin row) ?d = hits_of (h_bin row) d @ [row]" by (simp add: hits_of_def)
  have "h_received row \<notin> h_received ` set (hits_of (h_bin row) d)" using assms(2) by force
  then show td: "times_differ (h_bin row) ?d"
    using assms(1) by (auto simp: times_differ_def h)
  show "newest_first (h_bin row) ?d = row # newest_first (h_bin row) d"
    unfolding newest_first_def [of _ ?d]
    by (rule sort_desc_unique)
      (use td assms(2) sorted_newest [of "h_bin row" d] in \<open>auto simp: times_differ_def h\<close>)
qed

lemma newest_touch [simp]: "newest_first b (touch k n lst d) = newest_first b d"
  by (simp add: newest_first_def)

lemma newest_ingest:
  assumes "db_ok d" "h_id row \<notin> h_id ` set (webhook_hits d)" "get_bin d (h_bin row) \<noteq> None"
    and "times_differ (h_bin row) d" "\<forall>h \<in> set (hits_of (h_bin row) d). h_received h < h_received row"
  shows "newest_first (h_bin row) (ingest_effect tie row now d) =
    log_push MaxHitsPerBin row (newest_first (h_bin row) d)"
proof -
  let ?d = "d\<lparr>webhook_hits := webhook_hits d @ [row]\<rparr>"
  have "tbl_ok h_id (webhook_hits ?d)" using db_ok_insert_hit [OF assms(1-3)] by (simp add: db_ok_def)
  then show ?thesis
    using newest_cap [of ?d "h_bin row" tie MaxHitsPerBin 0] newest_insert [OF assms(4,5)]
    by (simp add: ingest_effect_def Let_def log_push_def)
qed

lemma Ingest_Inr:
  assumes "Ingest e s b i w = (Inr h, w')"
  defines "d \<equiv> db (snd (pruneExpired e s w))"
  shows "\<exists>bin row tie. get_bin d b = Some bin \<and> \<not> After (h_received h) (b_expires bin) \<and>
    h = make_hit e (h_id h) b (h_received h) i \<and> is_bin_id (h_id h) \<and> hit_row_of e h = Some row \<and>
    h_id h \<notin> h_id ` set (webhook_hits d) \<and> db w' = ingest_effect tie row (h_received h) d"
proof -
  obtain w1 where p: "snd (pruneExpired e s w) = w1" by simp
  obtain ex w2 hid w3 w4 where q: "sql_row e [b] (stmt_select_expiry b) w1 = (Inr ex, w2)"
    and na: "\<not> After (go_Now e (tick w2)) ex"
    and n: "newID e (bump w2) = (Inr hid, w3)"
    and h: "h = make_hit e hid b (go_Now e (tick w2)) i"
    and t: "sql_tx e (ingest_tx e h (go_Now e (tick w2))) w3 = (Inr (), w4)" and w': "w' = w4"
    using assms(1) p by (auto simp: Ingest_def time_Now_def Let_def split: prod.splits sum.splits if_splits)
  have ex: "map_option b_expires (get_bin (db w1) b) = Some ex"
    using sql_exec_Inr(3) [OF sql_row_Inr [OF q]] by (auto simp: stmt_select_expiry_def)
  have w3: "db (bump w3) = db w1"
    using newID_frame(1) [of e "bump w2"] n reads_row_eqD [OF q] by simp
  obtain w5 where x: "ingest_tx e h (go_Now e (tick w2)) (bump w3) = (Inr (), w5)" "w4 = bump w5"
    using sql_tx_Inr [OF t] by auto
  obtain row where "hit_row_of e h = Some row" "h_id h \<notin> h_id ` set (webhook_hits (db w1))"
      "db w5 = ingest_effect (pg_tie e (Suc (tick (bump w3)))) row (go_Now e (tick w2)) (db w1)"
    using ingest_tx_Inr [OF x(1)] w3 by auto
  then show ?thesis
    using ex na h newID_bin_id [OF n] x(2) w' p unfolding d_def by auto
qed

lemma hooks_inv_prune: "hooks_inv (db w) \<Longrightarrow> hooks_inv (db (snd (pruneExpired e s w)))"
  by (rule hooks_inv_pruned [OF pruneExpired_db])

lemma ingest_newest:
  assumes "hooks_inv (db w)" and "Ingest e s b i w = (Inr h, w')"
    and "times_differ b (db (snd (pruneExpired e s w)))"
    and "\<forall>x \<in> set (hits_of b (db (snd (pruneExpired e s w)))). h_received x < pg_time (h_received h)"
  shows "\<exists>row. hit_row_of e h = Some row \<and>
    newest_first b (db w') = log_push 100 row (newest_first b (db (snd (pruneExpired e s w))))"
proof -
  let ?d = "db (snd (pruneExpired e s w))"
  obtain bin row tie where r: "get_bin ?d b = Some bin" "h = make_hit e (h_id h) b (h_received h) i"
      "hit_row_of e h = Some row" "h_id h \<notin> h_id ` set (webhook_hits ?d)"
      "db w' = ingest_effect tie row (h_received h) ?d"
    using Ingest_Inr [OF assms(2)] by blast
  have "h_bin h = b" using r(2) by (metis make_hit_simps(2))
  then have b: "h_bin row = b" "h_id row = h_id h" "h_received row = pg_time (h_received h)"
    using hit_row_simps(1-3) [OF r(3)] by simp_all
  have "db_ok ?d" using hooks_inv_prune [OF assms(1)] by (simp add: hooks_inv_def)
  then show ?thesis
    using newest_ingest [of ?d row tie "h_received h"] r b assms(3,4) by (simp add: MaxHitsPerBin_def)
qed

text \<open>
  Capturing refines pushing on a bounded log: when \<^verbatim>\<open>Ingest\<close> reports a hit
  that is newer than the stored ones, the hits of the bin, newest first, become the new one
  followed by the old ones, cut to 100; the oldest is dropped, no other.
\<close>

theorem ingest_pushes_on_log:
  assumes "hooks_inv (db w)" and "Ingest e s b i w = (Inr h, w')"
    and "times_differ b (db (snd (pruneExpired e s w)))"
    and "\<forall>x \<in> set (hits_of b (db (snd (pruneExpired e s w)))). h_received x < pg_time (h_received h)"
  shows "\<exists>row. hit_row_of e h = Some row \<and>
    newest_first b (db w') = log_push 100 row (newest_first b (db (snd (pruneExpired e s w))))"
  by (rule ingest_newest [OF assms])

lemma ingest_tx_ok:
  assumes "pg_healthy e" "list_all (pg_text_ok e) (hit_texts h)" "hit_row_of e h = Some row"
    and "h_id h \<notin> h_id ` set (webhook_hits (db w))" "get_bin (db w) (h_bin h) \<noteq> None"
  shows "ingest_tx e h now w = (Inr (), w\<lparr>db := ingest_effect (pg_tie e (Suc (tick w))) row now (db w), tick := tick w + 4\<rparr>)"
proof -
  have b: "h_bin row = h_bin h" "h_id row = h_id h" using hit_row_simps(1,2) [OF assms(3)] by simp_all
  let ?d1 = "(db w)\<lparr>webhook_hits := webhook_hits (db w) @ [row]\<rparr>"
  have "stmt_insert_hit e h t (db w) = (Inr (), ?d1)" for t
    using assms(3-5) b by (auto simp: stmt_insert_hit_def tbl_insert_def split: option.split)
  then have 1: "sql_exec e (hit_texts h) (stmt_insert_hit e h) w = (Inr (), bump (w\<lparr>db := ?d1\<rparr>))"
    using assms(1,2) by (intro sql_exec_ok) auto
  have t: "pg_text_ok e (h_bin h)" using assms(2) by (simp add: hit_texts_def)
  let ?d2 = "snd (stmt_cap_hits (pg_tie e (Suc (tick w))) (h_bin h) MaxHitsPerBin 0 ?d1)"
  have 2: "sql_exec e [h_bin h] (stmt_cap_hits (pg_tie e (Suc (tick w))) (h_bin h) MaxHitsPerBin)
      (bump (w\<lparr>db := ?d1\<rparr>)) = (Inr (), bump (bump (w\<lparr>db := ?d1\<rparr>)\<lparr>db := ?d2\<rparr>))"
    using assms(1) t by (intro sql_exec_ok) (auto simp: stmt_cap_hits_def Let_def)
  let ?w2 = "bump (bump (w\<lparr>db := ?d1\<rparr>)\<lparr>db := ?d2\<rparr>)"
  let ?n = "length (hits_of (h_bin h) ?d2)"
  have "sql_exec e [h_bin h] (stmt_count_hits (h_bin h)) ?w2 = (Inr ?n, bump (?w2\<lparr>db := ?d2\<rparr>))"
    using assms(1) t by (intro sql_exec_ok) (auto simp: stmt_count_hits_def)
  then have 3: "sql_exec e [h_bin h] (stmt_count_hits (h_bin h)) ?w2 = (Inr ?n, bump ?w2)"
    by (simp add: bump_def)
  have 4: "sql_exec e [h_bin h] (stmt_touch_bin (h_bin h) ?n (Some now)) (bump ?w2) =
      (Inr (), bump ((bump ?w2)\<lparr>db := touch (h_bin h) ?n (Some now) ?d2\<rparr>))"
    using assms(1) t by (intro sql_exec_ok) (auto simp: stmt_touch_bin_eq)
  have tk: "tick (bump (w\<lparr>db := ?d1\<rparr>)) = Suc (tick w)" by simp
  have "ingest_tx e h now w = (Inr (), bump ((bump ?w2)\<lparr>db := touch (h_bin h) ?n (Some now) ?d2\<rparr>))"
    unfolding ingest_tx_def 1 prod.case sum.case tk 2 3 4 by (rule refl)
  then show ?thesis by (simp add: ingest_effect_def Let_def b bump_def)
qed

lemma Ingest_ok:
  fixes e b i
  defines "hit t \<equiv> make_hit e (hex_encode (map (rand_byte e (t + 2)) [0..<IDBytes])) b (go_Now e (t + 1)) i"
  assumes "pg_healthy e" and "snd (pruneExpired e s w) = wp" and "get_bin (db wp) b = Some bin"
    and "\<not> After (go_Now e (tick wp + 1)) (b_expires bin)"
    and "list_all (pg_text_ok e) (hit_texts (hit (tick wp)))" and "hit_row_of e (hit (tick wp)) = Some row"
    and "h_id (hit (tick wp)) \<notin> h_id ` set (webhook_hits (db wp))"
  shows "Ingest e s b i w =
    (Inr (hit (tick wp)),
     wp\<lparr>db := ingest_effect (pg_tie e (tick wp + 5)) row (go_Now e (tick wp + 1)) (db wp), tick := tick wp + 9\<rparr>)"
proof -
  have b: "pg_text_ok e b" using assms(6) by (simp add: hit_texts_def hit_def)
  have 1: "sql_row e [b] (stmt_select_expiry b) wp = (Inr (b_expires bin), bump wp)"
    using sql_row_ok [of e wp "[b]" "stmt_select_expiry b" "Some (b_expires bin)" "db wp"] assms(2,4) b
    by (auto simp: stmt_select_expiry_def)
  have 2: "newID e (bump (bump wp)) =
      (Inr (hex_encode (map (rand_byte e (tick wp + 2)) [0..<IDBytes])), bump (bump (bump wp)))"
    using assms(2) by (simp add: newID_def rand_Read_def pg_healthy_def)
  let ?w3 = "bump (bump (bump wp))"
  have 3: "ingest_tx e (hit (tick wp)) (go_Now e (tick wp + 1)) (bump ?w3) = (Inr (), (bump ?w3)\<lparr>db :=
      ingest_effect (pg_tie e (tick wp + 5)) row (go_Now e (tick wp + 1)) (db wp), tick := tick wp + 8\<rparr>)"
    using ingest_tx_ok [OF assms(2,6,7), of "bump ?w3" "go_Now e (tick wp + 1)"] assms(4,8)
    by (simp add: hit_def eval_nat_numeral)
  have "sql_tx e (ingest_tx e (hit (tick wp)) (go_Now e (tick wp + 1))) ?w3 = (Inr (), wp\<lparr>db :=
      ingest_effect (pg_tie e (tick wp + 5)) row (go_Now e (tick wp + 1)) (db wp), tick := tick wp + 9\<rparr>)"
    unfolding sql_tx_def 3 using assms(2) by (simp add: pg_healthyD bump_def)
  then show ?thesis
    using assms(5) 2
    by (simp add: Ingest_def assms(3) 1 time_Now_def Let_def hit_def)
qed

text \<open>
  Capturing succeeds when it should: if the database and the random source work, the
  request's texts are storable, the bin is alive and the drawn id is fresh, \<^verbatim>\<open>Ingest\<close>
  returns the hit and the tables hold it.
\<close>

theorem capture_succeeds:
  fixes e b i
  defines "hit t \<equiv> make_hit e (hex_encode (map (rand_byte e (t + 2)) [0..<IDBytes])) b (go_Now e (t + 1)) i"
  assumes "pg_healthy e" and "snd (pruneExpired e s w) = wp" and "get_bin (db wp) b = Some bin"
    and "\<not> After (go_Now e (tick wp + 1)) (b_expires bin)"
    and "list_all (pg_text_ok e) (hit_texts (hit (tick wp)))" and "hit_row_of e (hit (tick wp)) = Some row"
    and "h_id (hit (tick wp)) \<notin> h_id ` set (webhook_hits (db wp))"
  shows "Ingest e s b i w =
    (Inr (hit (tick wp)),
     wp\<lparr>db := ingest_effect (pg_tie e (tick wp + 5)) row (go_Now e (tick wp + 1)) (db wp), tick := tick wp + 9\<rparr>)"
  using Ingest_ok [of e s w wp b bin i row] assms unfolding hit_def by blast

definition secret_input :: ingest_input where
  "secret_input = \<lparr>in_method = ''POST'', in_path = ''/'', in_query = [], in_params = None,
     in_headers = Some [(''Cookie'', ''sid=1'')], in_ctype = [], in_body = ''hi'',
     in_ip = ''::1'', in_agent = []\<rparr>"

definition demo_hit :: go_hit where
  "demo_hit = make_hit (demo_env 0) (demo_id 8) (demo_id 2) (7 * Second) secret_input"

definition demo_row :: hit_row where
  "demo_row = the (hit_row_of (demo_env 0) demo_hit)"

definition hit_world :: "kv_map world" where
  "hit_world = bin_world\<lparr>db := ingest_effect (\<lambda>_. 0) demo_row (7 * Second) one_bin_db, tick := 15\<rparr>"

lemma demo_row_of: "hit_row_of (demo_env 0) demo_hit = Some demo_row"
  by (simp add: demo_row_def hit_row_of_def)

lemma demo_hit_simps [simp]: "h_bin demo_hit = demo_id 2" "h_id demo_hit = demo_id 8"
  "h_received demo_hit = 7 * Second"
  by (simp_all add: demo_hit_def)

lemma prune_bin_world: "pruneExpired (demo_env 0) None bin_world = (None, bump bin_world)"
  by (simp add: pruneExpired_def sql_query_def sql_run_def stmt_prune_def delete_bins_def)
    (simp add: one_bin_db_def empty_db_def bin_world_def demo_world_def bump_def Second_def)

lemma demo_hit_eq:
  "make_hit (demo_env 0) (hex_encode (map (rand_byte (demo_env 0) 8) [0..<IDBytes])) (demo_id 2)
     (7 * Second) secret_input = demo_hit"
  by (simp add: demo_hit_def demo_id_def)

lemma demo_in_time: "\<not> After (7 * Second) 259203000000000"
  by (simp add: After_def Second_def)

lemma demo_tie: "pg_tie (demo_env t0) n = (\<lambda>_. 0)"
  by (rule ext) simp

theorem capture_succeeds_witness:
  "Ingest (demo_env 0) None (demo_id 2) secret_input bin_world = (Inr demo_hit, hit_world)"
  using capture_succeeds [where e = "demo_env 0" and b = "demo_id 2" and i = secret_input and s = None
      and w = bin_world and wp = "bump bin_world" and row = demo_row and bin = demo_bin]
    demo_in_time demo_tie
  by (simp add: prune_bin_world demo_row_of demo_hit_eq list_all_iff hit_world_def bump_def)

lemma demo_ingest: "Ingest (demo_env 0) None (demo_id 2) secret_input bin_world = (Inr demo_hit, hit_world)"
  using Ingest_ok [where e = "demo_env 0" and b = "demo_id 2" and i = secret_input and s = None
      and w = bin_world and wp = "bump bin_world" and row = demo_row and bin = demo_bin]
    demo_in_time demo_tie
  by (simp add: prune_bin_world demo_row_of demo_hit_eq list_all_iff hit_world_def bump_def)

lemma cookie_lower: "ToLower uni ''Cookie'' = ''cookie''"
  by code_simp

lemma demo_row_simps [simp]: "h_bin demo_row = demo_id 2" "h_id demo_row = demo_id 8"
  "h_received demo_row = 7 * Second" "h_headers demo_row = demo_marshal [(''Cookie'', ''[redacted]'')]"
  using hit_row_simps(1-3,7) [OF demo_row_of]
  by (simp_all add: pg_time_def Second_def demo_hit_def secret_input_def redactHeaders_def cookie_lower
      sensitive_headers_def)

lemma hit_world_hits [simp]: "webhook_hits (db hit_world) = [demo_row]"
  by (simp add: hit_world_def ingest_effect_def Let_def stmt_cap_hits_def hits_of_def order_desc_def MaxHitsPerBin_def)

lemma bin_world_inv: "hooks_inv (db bin_world)"
  using hooks_inv_Create [of "demo_world empty_db" "demo_env 0" None "''u1''" "''n''"]
  by (simp add: demo_create hooks_inv_empty)

theorem ingest_pushes_on_log_witness:
  "newest_first (demo_id 2) (db hit_world) = [demo_row]"
proof -
  have no: "hits_of b one_bin_db = []" for b by (simp add: hits_of_def)
  show ?thesis
    using ingest_pushes_on_log [OF bin_world_inv demo_ingest] demo_row_of
    by (simp add: prune_bin_world times_differ_def no) (simp add: newest_first_def log_push_def no)
qed

text \<open>
  JSON as the code relies on it: a stored document reads back as the map that was marshalled,
  up to the order of the keys and the coercion \<open>c\<close> of strings to valid UTF-8, which
  leaves ASCII alone and never makes a string ASCII.
\<close>

definition json_coerces :: "env \<Rightarrow> (string \<Rightarrow> string) \<Rightarrow> bool" where
  "json_coerces e c \<longleftrightarrow>
     (\<forall>s. is_ascii s \<longrightarrow> c s = s) \<and> (\<forall>s. is_ascii (c s) \<longrightarrow> c s = s) \<and>
     (\<forall>m doc. pg_jsonb e (json_Marshal e m) = Some doc \<longrightarrow>
        (\<exists>m'. json_Unmarshal e doc = Some m' \<and> set m' \<subseteq> (\<lambda>(k, v). (c k, c v)) ` set m))"

text \<open>
  C7. Secrets are not stored: in every reachable state, a header of a captured request read
  back from the tables whose name is, in any case, one of the sensitive names has the value
  \<^verbatim>\<open>[redacted]\<close>.
\<close>

theorem secrets_are_redacted:
  assumes "hook_reach e s w" and "json_coerces e c" and "h \<in> set (webhook_hits (db w))"
    and "(k, v) \<in> set (h_headers (read_hit e h))" and "is_ascii k"
    and "ToLower (uni_lower e) k \<in> set sensitive_headers"
  shows "v = ''[redacted]''"
proof -
  obtain m where m: "pg_jsonb e (json_Marshal e (redactHeaders e m)) = Some (h_headers h)"
    using hook_reach_redacted [OF assms(1)] assms(3) by (auto simp: redacted_inv_def redacted_doc_def)
  then obtain m' where "json_Unmarshal e (h_headers h) = Some m'"
      "set m' \<subseteq> (\<lambda>(k, v). (c k, c v)) ` set (redactHeaders e m)"
    using assms(2) unfolding json_coerces_def by blast
  then obtain k0 v0 where kv: "(k0, v0) \<in> set (redactHeaders e m)" "k = c k0" "v = c v0"
    using assms(4) by (auto simp: read_hit_def)
  have "c k0 = k0" using assms(2,5) kv(2) unfolding json_coerces_def by blast
  then have "k0 = k" using kv(2) by simp
  then have "v0 = ''[redacted]''" using kv(1) assms(6) by (auto simp: redactHeaders_def)
  then show ?thesis using kv(3) assms(2) by (simp add: json_coerces_def is_ascii_def)
qed

lemma hit_world_reach: "hook_reach (demo_env 0) None hit_world"
proof -
  have "hook_reach (demo_env 0) None (demo_world empty_db)" by (simp add: hook_reach.start)
  from hook_reach.step [OF this hook_step.create, of "''u1''" "''n''"]
  have "hook_reach (demo_env 0) None bin_world" by (simp add: demo_create)
  from hook_reach.step [OF this hook_step.ingest, of "demo_id 2" secret_input]
  show ?thesis by (simp add: demo_ingest)
qed

lemma demo_json: "json_coerces (demo_env t0) id"
  by (simp add: json_coerces_def)

theorem secrets_are_redacted_witness:
  "{v. (''Cookie'', v) \<in> set (h_headers (read_hit (demo_env 0) demo_row))} \<subseteq> {''[redacted]''}"
  using secrets_are_redacted [OF hit_world_reach demo_json, of demo_row "''Cookie''"]
  by (simp add: subset_iff is_ascii_def cookie_lower sensitive_headers_def)

section \<open>Listing and reading hits\<close>

lemma getOwned_grants:
  assumes "pg_healthy e" "pg_text_ok e b" "get_bin (db w) b = Some x" "b_user x = u"
    and "\<not> After (go_Now e (Suc (tick w))) (b_expires x)"
  shows "getOwned e s u b w = (Inr x, bump (bump w))"
proof -
  have "sql_row e [b] (stmt_select_bin b) w = (Inr x, bump w)"
    using sql_row_ok [of e w "[b]" "stmt_select_bin b" "Some x" "db w"] assms(1-3)
    by (auto simp: stmt_select_bin_def)
  then show ?thesis using assms(4,5) by (simp add: getOwned_def time_Now_def)
qed

lemma hits_of_distinct: "db_ok d \<Longrightarrow> distinct (map h_id (hits_of b d))"
  by (simp add: db_ok_def tbl_ok_def hits_of_def distinct_map_filter_inj)

lemma sorted_desc_filter:
  fixes f :: "'a \<Rightarrow> int"
  assumes "sorted (map (\<lambda>x. - f x) xs)" "inj_on f (set xs)" "distinct xs" "j < length xs"
  shows "filter (\<lambda>x. f x < f (xs ! j)) xs = drop (Suc j) xs"
proof -
  have lt: "f (xs ! k) < f (xs ! j) \<longleftrightarrow> j < k" if "k < length xs" for k
  proof -
    have mono: "f (xs ! q) \<le> f (xs ! p)" if "p \<le> q" "q < length xs" for p q
      using assms(1) that sorted_nth_mono [of "map (\<lambda>x. - f x) xs" p q] by simp
    have "f (xs ! k) \<noteq> f (xs ! j)" if "k \<noteq> j"
      using that \<open>k < length xs\<close> assms(2-4) by (auto dest!: inj_onD simp: nth_eq_iff_index_eq)
    then show ?thesis using mono [of j k] mono [of k j] that assms(4) by (cases "j < k"; cases "k = j") force+
  qed
  have "filter (\<lambda>x. f x < f (xs ! j)) (take (Suc j) xs @ drop (Suc j) xs) = drop (Suc j) xs"
  proof -
    have "\<not> f x < f (xs ! j)" if "x \<in> set (take (Suc j) xs)" for x
      using that lt assms(4) by (auto simp: in_set_conv_nth)
    moreover have "f x < f (xs ! j)" if "x \<in> set (drop (Suc j) xs)" for x
      using that lt assms(4) by (auto simp: in_set_conv_nth)
    ultimately have "filter (\<lambda>x. f x < f (xs ! j)) (take (Suc j) xs) = []"
      "filter (\<lambda>x. f x < f (xs ! j)) (drop (Suc j) xs) = drop (Suc j) xs"
      by (auto simp: filter_empty_conv filter_id_conv)
    then show ?thesis by (simp only: filter_append append_Nil)
  qed
  then show ?thesis by simp
qed

text \<open>
  Paging: on a healthy database the owner's listing is the newest hits, and asking
  for those after the \<open>j\<close>-th continues exactly behind it, so that walking by the last
  id of each page shows every hit once.
\<close>

theorem paging_continues:
  assumes "pg_healthy e" and "\<forall>t. pg_text_ok e t" and "db_ok (db w)" and "get_bin (db w) b = Some x"
    and "b_user x = u" and "\<not> After (go_Now e (Suc (tick w))) (b_expires x)"
    and "times_differ b (db w)" and "j < length (newest_first b (db w))"
    and "h_id (newest_first b (db w) ! j) \<noteq> []"
  shows
    "fst (ListHits e s u b limit [] w) =
       Inr (map summary (take (clamp_limit limit) (newest_first b (db w)))) \<and>
     fst (ListHits e s u b limit (h_id (newest_first b (db w) ! j)) w) =
       Inr (map summary (take (clamp_limit limit) (drop (Suc j) (newest_first b (db w)))))"
proof -
  let ?L = "newest_first b (db w)" and ?w = "bump (bump w)"
  let ?a = "?L ! j"
  note g = getOwned_grants [OF assms(1) assms(2) [rule_format] assms(4-6), of s]
  have "?a \<in> set (hits_of b (db w))" using nth_mem [OF assms(8)] by simp
  then have f: "find (\<lambda>h. h_id h = h_id ?a) (hits_of b (db w)) = Some ?a"
    using find_key_Some_iff [OF hits_of_distinct [OF assms(3)]] by blast
  have d: "distinct ?L"
    using hits_of_distinct [OF assms(3), of b] by (metis distinct_map mset_eq_imp_distinct_iff mset_newest)
  have drop: "order_desc tie h_received h_id (filter (\<lambda>h. h_received h < h_received ?a) (hits_of b (db w)))
      = drop (Suc j) ?L" for tie
  proof (rule order_desc_unique)
    show "inj_on h_received (set (filter (\<lambda>h. h_received h < h_received ?a) (hits_of b (db w))))"
      using assms(7) by (auto simp: times_differ_def inj_on_def)
    have "filter (\<lambda>h. h_received h < h_received ?a) ?L = drop (Suc j) ?L"
      by (rule sorted_desc_filter) (use sorted_newest d assms(7,8) in \<open>simp_all add: times_differ_def\<close>)
    then show "mset (drop (Suc j) ?L) = mset (filter (\<lambda>h. h_received h < h_received ?a) (hits_of b (db w)))"
      by (metis mset_filter mset_newest)
    show "sorted (map (\<lambda>r. - h_received r) (drop (Suc j) ?L))"
      using sorted_newest [of b "db w"] by (simp add: drop_map [symmetric] sorted_wrt_drop)
  qed
  have 1: "sql_query e [b] (stmt_list_hits tie b n) ?w = (Inr (map summary (take n ?L), None), bump (?w\<lparr>db := db w\<rparr>))" for tie n
    by (rule sql_query_ok) (use assms(1,2) in \<open>auto simp: stmt_list_hits_def order_desc_newest [OF assms(7)]\<close>)
  have 2: "sql_query e [b, h_id ?a] (stmt_list_hits_after tie b (h_id ?a) n) ?w =
      (Inr (map summary (take n (drop (Suc j) ?L)), None), bump (?w\<lparr>db := db w\<rparr>))" for tie n
    by (rule sql_query_ok) (use assms(1,2) f drop in \<open>auto simp: stmt_list_hits_after_def\<close>)
  show ?thesis using assms(9) by (simp add: ListHits_def g 1 2)
qed

lemma hit_world_bin:
  "get_bin (db hit_world) b = (if b = demo_id 2
     then Some (demo_bin\<lparr>b_hits := 1, b_last := Some (7 * Second)\<rparr>) else None)"
  by (simp add: hit_world_def ingest_effect_def Let_def stmt_cap_hits_def hits_of_def order_desc_def
      MaxHitsPerBin_def touch_def stmt_touch_bin_def get_bin_def tbl_lookup_def tbl_update_def one_bin_db_def
      empty_db_def pg_time_def Second_def)

lemma demo_id_not_Nil [simp]: "demo_id n \<noteq> []"
proof -
  have "length (demo_id n) \<noteq> 0" by (simp add: demo_id_def IDBytes_def del: length_0_conv)
  then show ?thesis by simp
qed

lemma hit_world_inv: "hooks_inv (db hit_world)"
  by (rule hook_reach_inv [OF hit_world_reach])

theorem paging_continues_witness:
  "fst (ListHits (demo_env 0) None ''u1'' (demo_id 2) 0 [] hit_world) = Inr [summary demo_row] \<and>
   fst (ListHits (demo_env 0) None ''u1'' (demo_id 2) 0 (demo_id 8) hit_world) = Inr []"
proof -
  have n: "newest_first (demo_id 2) (db hit_world) = [demo_row]"
    by (simp add: newest_first_def hits_of_def)
  have "db_ok (db hit_world)" using hit_world_inv by (simp add: hooks_inv_def)
  then show ?thesis
    using paging_continues [of "demo_env 0" hit_world "demo_id 2" _ "''u1''" 0 None 0]
    by (simp add: hit_world_bin n times_differ_def hits_of_def clamp_limit_def MaxHitsPerBin_def)
      (simp add: hit_world_def After_def Second_def)
qed

text \<open>What a stored map reads back as: the same map, whatever order the engine keeps the keys in.\<close>

definition json_keeps :: "env \<Rightarrow> env \<Rightarrow> str_map \<Rightarrow> bool" where
  "json_keeps e e' m \<longleftrightarrow>
     (\<forall>doc. pg_jsonb e (json_Marshal e m) = Some doc \<longrightarrow>
        (\<exists>m'. json_Unmarshal e' doc = Some m' \<and> map_of m' = map_of m))"

lemma GetHit_finds:
  assumes "pg_healthy e" "\<forall>t. pg_text_ok e t" "db_ok (db w)" "get_bin (db w) b = Some x" "b_user x = u"
    and "\<not> After (go_Now e (Suc (tick w))) (b_expires x)" "row \<in> set (hits_of b (db w))"
  shows "fst (GetHit e s u b (h_id row) w) = Inr (read_hit e row)"
proof -
  have f: "find (\<lambda>h. h_id h = h_id row) (hits_of b (db w)) = Some row"
    using find_key_Some_iff [OF hits_of_distinct [OF assms(3)]] assms(7) by blast
  have "fst (sql_row e [h_id row, b] (stmt_select_hit (h_id row) b) (bump (bump w))) = Inr row"
    using sql_row_ok [of e "bump (bump w)" "[h_id row, b]" "stmt_select_hit (h_id row) b" "Some row" "db w"]
      assms(1,2) f by (auto simp: stmt_select_hit_def pg_healthyD)
  then show ?thesis
    using getOwned_grants [OF assms(1) assms(2) [rule_format] assms(4-6), of s]
    by (cases "sql_row e [h_id row, b] (stmt_select_hit (h_id row) b) (bump (bump w))") (simp add: GetHit_def)
qed



section \<open>Deletion and public existence\<close>

lemma Delete_Inr:
  assumes "Delete_bin e s u b w = (Inr x, w')"
  shows "\<exists>w1. db w1 = delete_bins (\<lambda>r. b_id r = b) (db w) \<and> w' = uncacheBin s b w1"
proof -
  obtain bin w1 w2 where g: "getOwned e s u b w = (Inr bin, w1)"
    and d: "sql_exec e [b] (stmt_delete_bin b) w1 = (Inr (), w2)" and "w' = uncacheBin s b w2"
    using assms by (auto simp: Delete_bin_def split: prod.splits sum.splits)
  then show ?thesis using sql_exec_Inr(3) [OF d] getOwned_Inr(1) [OF g] by (auto simp: stmt_delete_bin_def)
qed

lemma get_bin_deleted [simp]: "get_bin (delete_bins (\<lambda>r. b_id r = b) d) b = None"
  by (auto simp: get_bin_None delete_bins_def)

lemma pruned_get_None: "pruned d d' \<Longrightarrow> get_bin d b = None \<Longrightarrow> get_bin d' b = None"
  by (rule pruned_inv [where I = "\<lambda>d. get_bin d b = None"]) (auto simp: get_bin_None delete_bins_def)

lemma select_expiry_None:
  "get_bin (db w) b = None \<Longrightarrow> isl (fst (sql_row e ps (stmt_select_expiry b) w))"
  by (auto simp: sql_row_def sql_exec_def sql_run_def stmt_select_expiry_def
      split: pg_outcome.split prod.split)

lemma PublicExists_False:
  assumes "get_bin (db w) b = None"
    and "case s of None \<Rightarrow> True | Some kv \<Rightarrow>
      \<forall>n. fst (kv_Exists kv (tick w) (binCacheKey b) (vk w)) = Inr n \<longrightarrow> n \<le> 0"
  shows "\<not> fst (PublicExists e s b w)"
proof -
  define st where "st = (case s of None \<Rightarrow> (False, w)
      | Some kv \<Rightarrow> (case kv_do (\<lambda>t. kv_Exists kv t (binCacheKey b)) w of
          (Inl _, w) \<Rightarrow> (False, w) | (Inr n, w) \<Rightarrow> (0 < n, w)))"
  have st: "\<not> fst st" "db (snd st) = db w"
    using assms(2) by (auto simp: st_def kv_do_def split: option.splits prod.splits sum.splits)
      (auto simp: map_sum_def split: sum.splits)
  obtain w1 where w1: "st = (False, w1)" "db w1 = db w" using st by (cases st) auto
  let ?w2 = "snd (pruneExpired e s w1)"
  have "get_bin (db ?w2) b = None"
    by (rule pruned_get_None [OF pruneExpired_db]) (simp add: w1 assms(1))
  then obtain er w3 where "sql_row e [b] (stmt_select_expiry b) ?w2 = (Inl er, w3)"
    using select_expiry_None [of ?w2 b e "[b]"] by (cases "sql_row e [b] (stmt_select_expiry b) ?w2") (auto simp: isl_def)
  then show ?thesis unfolding PublicExists_def st_def [symmetric] by (simp add: w1 Let_def)
qed

text \<open>
  C29. A deleted bin is gone: its row and its hits leave the tables, and if the cache
  acknowledges the removal of its key, the public route no longer finds it, whatever the
  database answers then.
\<close>

theorem deleted_bin_is_gone:
  assumes "db_ok (db w)" and "Delete_bin e (Some kv) u b w = (Inr (), w')"
    and "valkey_spec kv view" and "\<forall>n k. \<not> isl (fst (kv_Del kv n (binCacheKey b) k))"
  shows "get_bin (db w') b = None \<and> hits_of b (db w') = [] \<and> \<not> fst (PublicExists e' (Some kv) b w')"
proof -
  obtain w1 where w1: "db w1 = delete_bins (\<lambda>r. b_id r = b) (db w)" "w' = uncacheBin (Some kv) b w1"
    using Delete_Inr [OF assms(2)] by blast
  obtain r k where d: "kv_Del kv (tick w1) (binCacheKey b) (vk w1) = (Inr r, k)"
    using assms(4) by (metis isl_def old.prod.exhaust fst_conv sum.exhaust)
  have v: "view (vk w') (binCacheKey b) = None"
    using valkey_Del [OF assms(3) d] w1(2) by (simp add: uncacheBin_def kv_do_def d bump_def)
  have gone: "get_bin (db w') b = None" using w1 by simp
  have "h_bin h \<noteq> b" if "h \<in> set (webhook_hits (db w'))" for h
  proof -
    have "db_ok (db w')" using w1 db_ok_delete [OF assms(1)] by simp
    then show ?thesis using that gone unfolding db_ok_def hits_fk_def get_bin_None by auto
  qed
  then have "hits_of b (db w') = []" by (auto simp: hits_of_def filter_empty_conv)
  moreover have "n \<le> 0" if "fst (kv_Exists kv (tick w') (binCacheKey b) (vk w')) = Inr n" for n
    using valkey_Exists [OF assms(3), of "tick w'" "binCacheKey b" "vk w'"] that v
    by (cases "kv_Exists kv (tick w') (binCacheKey b) (vk w')") (auto simp: live_def)
  ultimately show ?thesis using gone PublicExists_False [of w' b "Some kv" e'] by simp
qed

lemma demo_delete:
  "\<exists>w'. Delete_bin (demo_env 0) (Some kv) ''u1'' (demo_id 2) bin_world = (Inr (), w')"
proof -
  have "getOwned (demo_env 0) (Some kv) ''u1'' (demo_id 2) bin_world = (Inr demo_bin, bump (bump bin_world))"
    by (rule getOwned_grants) (simp_all add: After_def Second_def)
  moreover have "sql_exec (demo_env 0) [demo_id 2] (stmt_delete_bin (demo_id 2)) (bump (bump bin_world)) =
      (Inr (), bump ((bump (bump bin_world))\<lparr>db := delete_bins (\<lambda>r. b_id r = demo_id 2) one_bin_db\<rparr>))"
    by (rule sql_exec_ok) (simp_all add: stmt_delete_bin_def)
  ultimately show ?thesis by (simp add: Delete_bin_def)
qed

theorem deleted_bin_is_gone_witness:
  "\<exists>w'. Delete_bin (demo_env 0) (Some (mem_valkey (\<lambda>n. int n) (\<lambda>_. False))) ''u1'' (demo_id 2) bin_world = (Inr (), w') \<and>
     \<not> fst (PublicExists (demo_env 0) (Some (mem_valkey (\<lambda>n. int n) (\<lambda>_. False))) (demo_id 2) w')"
proof -
  have ok: "db_ok (db bin_world)" using bin_world_inv unfolding hooks_inv_def by blast
  obtain w' where w': "Delete_bin (demo_env 0) (Some (mem_valkey (\<lambda>n. int n) (\<lambda>_. False))) ''u1'' (demo_id 2)
      bin_world = (Inr (), w')" using demo_delete by blast
  from deleted_bin_is_gone [OF ok w' mem_valkey_spec, of "demo_env 0"] w'
  show ?thesis by (simp add: mem_valkey_def kv_reply_def)
qed

end
