(* ===== verification/Visitor_Store.thy ===== *)
theory Visitor_Store
  imports Webhook_Spec
begin

text \<open>
  \<^verbatim>\<open>internal/visitor/store.go\<close>: the validation of ids, the fingerprint of a visit and
  the two-level bookkeeping of first and later visits (a marker in Valkey, a row in
  PostgreSQL). \<open>sha\<close> is \<^verbatim>\<open>sha256.Sum256\<close>, of which nothing but being a function is
  used.
\<close>

section \<open>Records, ids and fingerprints\<close>

text \<open>\<^verbatim>\<open>visitor.Record\<close>.\<close>

record visit =
  VisitorID :: string
  SessionID :: string
  IP :: string
  UserAgent :: string
  Referer :: string
  Origin :: string
  Country :: string
  City :: string
  UserID :: string
  FirstPath :: string

text \<open>The expression \<^verbatim>\<open>^[a-zA-Z0-9_-]{8,128}$\<close>.\<close>

definition id_char :: "char \<Rightarrow> bool" where
  "id_char c \<longleftrightarrow>
     list_ex (\<lambda>(lo, hi). lo \<le> c \<and> c \<le> hi) [(CHR ''a'', CHR ''z''), (CHR ''A'', CHR ''Z''), (CHR ''0'', CHR ''9'')] \<or>
     c \<in> set ''_-''"

definition ValidID :: "string \<Rightarrow> bool" where
  "ValidID s \<longleftrightarrow> 8 \<le> length s \<and> length s \<le> 128 \<and> list_all id_char s"

definition fp_fields :: "visit \<Rightarrow> string list" where
  "fp_fields r = map TrimSpace [VisitorID r, IP r, Country r, City r, UserAgent r, Referer r]"

definition Fingerprint :: "(string \<Rightarrow> 8 word list) \<Rightarrow> visit \<Rightarrow> string" where
  "Fingerprint sha r = hex_encode (sha (Join (fp_fields r) [CHR 0x1F]))"

section \<open>Statements\<close>

definition stmt_insert_visitor :: "visitor_row \<Rightarrow> unit stmt" where
  "stmt_insert_visitor r t d =
     (case tbl_insert v_fp r (visitors d) of
        None \<Rightarrow> (Inl UniqueViolation, d)
      | Some vs \<Rightarrow>
          if set_option (v_user r) \<subseteq> set (map u_id (users d)) then (Inr (), d\<lparr>visitors := vs\<rparr>)
          else (Inl ForeignKeyViolation, d))"

text \<open>
  UPDATE visitors SET last_seen_at, session_id and, for a signed-in visitor,
  COALESCE(user_id, ...), WHERE fingerprint. The foreign key is checked when the column
  changes.
\<close>

definition seen :: "time \<Rightarrow> string \<Rightarrow> string option \<Rightarrow> visitor_row \<Rightarrow> visitor_row" where
  "seen now session user r =
     r\<lparr>v_last_seen := pg_time now, v_session := session,
       v_user := (case v_user r of Some u \<Rightarrow> Some u | None \<Rightarrow> user)\<rparr>"

definition stmt_update_seen :: "string \<Rightarrow> time \<Rightarrow> string \<Rightarrow> string option \<Rightarrow> unit stmt" where
  "stmt_update_seen fp now session user t d =
     (case tbl_lookup v_fp fp (visitors d) of
        Some r \<Rightarrow>
          if v_user r = None \<and> \<not> set_option user \<subseteq> set (map u_id (users d)) then (Inl ForeignKeyViolation, d)
          else (Inr (), d\<lparr>visitors := tbl_update v_fp fp (seen now session user) (visitors d)\<rparr>)
      | None \<Rightarrow> (Inr (), d))"

section \<open>Store\<close>

definition user_param :: "visit \<Rightarrow> string option" where
  "user_param r = (if UserID r \<noteq> '''' then Some (UserID r) else None)"

definition visitor_insert :: "env \<Rightarrow> visit \<Rightarrow> string \<Rightarrow> 'k world \<Rightarrow> (go_error + unit) \<times> 'k world" where
  "visitor_insert e r fp w =
     (let (now, w) = time_Now e w in
      sql_exec e ([fp, VisitorID r, SessionID r, IP r, UserAgent r, Referer r, Origin r, Country r,
                  City r, FirstPath r] @ (case user_param r of None \<Rightarrow> [] | Some u \<Rightarrow> [u]))
        (stmt_insert_visitor
           \<lparr>v_fp = fp, v_visitor = VisitorID r, v_session = SessionID r, v_ip = IP r,
            v_agent = UserAgent r, v_referer = Referer r, v_origin = Origin r,
            v_country = Country r, v_city = City r, v_user = user_param r,
            v_first_seen = pg_time now, v_last_seen = pg_time now, v_path = FirstPath r\<rparr>) w)"

definition updateSeen :: "env \<Rightarrow> visit \<Rightarrow> string \<Rightarrow> 'k world \<Rightarrow> (go_error + unit) \<times> 'k world" where
  "updateSeen e r fp w =
     (let (now, w) = time_Now e w in
      if UserID r \<noteq> ''''
      then sql_exec e [fp, SessionID r, UserID r] (stmt_update_seen fp now (SessionID r) (Some (UserID r))) w
      else sql_exec e [fp, SessionID r] (stmt_update_seen fp now (SessionID r) None) w)"

definition persist :: "env \<Rightarrow> visit \<Rightarrow> string \<Rightarrow> bool \<Rightarrow> 'k world \<Rightarrow> (go_error + unit) \<times> 'k world" where
  "persist e r fp allowInsert w =
     (case (if allowInsert then map_prod Some id (visitor_insert e r fp w) else (None, w)) of
        (Some (Inr _), w) \<Rightarrow> (Inr (), w)
      | (_, w) \<Rightarrow> updateSeen e r fp w)"

definition cut :: "nat \<Rightarrow> string \<Rightarrow> string" where
  "cut n s = (if n < length s then take n s else s)"

definition trim_visit :: "visit \<Rightarrow> visit" where
  "trim_visit r = r\<lparr>VisitorID := TrimSpace (VisitorID r), SessionID := TrimSpace (SessionID r),
     IP := TrimSpace (IP r), UserAgent := TrimSpace (UserAgent r), Referer := TrimSpace (Referer r),
     Origin := TrimSpace (Origin r), Country := TrimSpace (Country r), City := TrimSpace (City r)\<rparr>"

definition cut_visit :: "visit \<Rightarrow> visit" where
  "cut_visit r = r\<lparr>FirstPath := cut 512 (FirstPath r), Referer := cut 1024 (Referer r),
     Origin := cut 512 (Origin r), UserAgent := cut 1024 (UserAgent r)\<rparr>"

definition marker :: "string \<Rightarrow> string" where
  "marker fp = ''visitor:fp:'' @ fp"

definition track :: "env \<Rightarrow> (string \<Rightarrow> 8 word list) \<Rightarrow> 'k valkey option \<Rightarrow> visit \<Rightarrow> 'k world
    \<Rightarrow> (go_error + unit) \<times> 'k world" where
  "track e sha s r w =
     (let r = trim_visit r in
      if \<not> ValidID (VisitorID r) \<or> \<not> ValidID (SessionID r)
      then (Inl (Errorf ''invalid visitor/session id''), w)
      else
     (let r = cut_visit r; fp = Fingerprint sha r in
      case s of
        None \<Rightarrow> persist e r fp True w
      | Some kv \<Rightarrow>
          (case kv_do (\<lambda>t. kv_SetNX kv t (marker fp) ''1'' 0) w of
             (Inl _, w) \<Rightarrow> persist e r fp True w
           | (Inr fresh, w) \<Rightarrow>
               if \<not> fresh then updateSeen e r fp w
               else (case visitor_insert e r fp w of
                       (Inl _, w) \<Rightarrow> updateSeen e r fp w
                     | (Inr _, w) \<Rightarrow> (Inr (), w)))))"

text \<open>The body of the goroutine \<^verbatim>\<open>TrackAsync\<close> starts.\<close>

definition track_job :: "env \<Rightarrow> (string \<Rightarrow> 8 word list) \<Rightarrow> 'k valkey option \<Rightarrow> visit \<Rightarrow> 'k world \<Rightarrow> 'k world" where
  "track_job e sha s r w =
     (case track e sha s r w of
        (Inl er, w) \<Rightarrow> log_line ''visitor track failed'' [(''err'', error_text er), (''visitor_id'', VisitorID r)] w
      | (Inr _, w) \<Rightarrow> w)"

section \<open>Fingerprints\<close>

lemma fp_fields_length [simp]: "length (fp_fields r) = 6"
  by (simp add: fp_fields_def)


definition demo_visit :: visit where
  "demo_visit = \<lparr>VisitorID = ''visitor-1'', SessionID = ''session-1'', IP = ''1.2.3.4'', UserAgent = ''ua'',
     Referer = [], Origin = [], Country = ''ID'', City = ''Jakarta'', UserID = [], FirstPath = ''/''\<rparr>"

definition demo_sha :: "string \<Rightarrow> 8 word list" where
  "demo_sha s = map (\<lambda>c. word_of_nat (of_char c)) s"

lemma TrimSpace_demo [simp]:
  "TrimSpace ''visitor-1'' = ''visitor-1''" "TrimSpace ''session-1'' = ''session-1''"
  "TrimSpace ''1.2.3.4'' = ''1.2.3.4''" "TrimSpace ''5.6.7.8'' = ''5.6.7.8''" "TrimSpace ''ua'' = ''ua''"
  "TrimSpace ''ID'' = ''ID''" "TrimSpace ''Jakarta'' = ''Jakarta''"
  by code_simp+


section \<open>What a visit does to the table\<close>

text \<open>A later visit refreshes a row: identity, context and first visit stay, a user id stays once set.\<close>

definition refreshed :: "visitor_row \<Rightarrow> visitor_row \<Rightarrow> bool" where
  "refreshed r r' \<longleftrightarrow>
     r' = r\<lparr>v_session := v_session r', v_user := v_user r', v_last_seen := v_last_seen r'\<rparr> \<and>
     (v_user r \<noteq> None \<longrightarrow> v_user r' = v_user r)"

definition evolves :: "db \<Rightarrow> db \<Rightarrow> bool" where
  "evolves d d' \<longleftrightarrow>
     webhook_bins d' = webhook_bins d \<and> webhook_hits d' = webhook_hits d \<and> users d' = users d \<and>
     (db_ok d \<longrightarrow> db_ok d') \<and>
     (\<forall>fp r. tbl_lookup v_fp fp (visitors d) = Some r \<longrightarrow>
        (\<exists>r'. tbl_lookup v_fp fp (visitors d') = Some r' \<and> refreshed r r'))"

lemma refreshed_refl [simp]: "refreshed r r"
  by (simp add: refreshed_def)

lemma refreshed_trans: "refreshed a b \<Longrightarrow> refreshed b c \<Longrightarrow> refreshed a c"
  by (cases a, cases b, cases c) (auto simp: refreshed_def)

lemma refreshed_seen [simp]: "refreshed r (seen now session user r)"
  by (cases r) (auto simp: refreshed_def seen_def split: option.split)

lemma evolves_refl [simp]: "evolves d d"
  by (auto simp: evolves_def)

lemma evolves_trans: "evolves a b \<Longrightarrow> evolves b c \<Longrightarrow> evolves a c"
  unfolding evolves_def by (auto; blast intro: refreshed_trans)

lemma evolves_insert:
  assumes "stmt_insert_visitor r t d = (Inr x, d')"
  shows "evolves d d'" "tbl_lookup v_fp (v_fp r) (visitors d') = Some r"
proof -
  have new: "v_fp r \<notin> v_fp ` set (visitors d)" and d': "d' = d\<lparr>visitors := visitors d @ [r]\<rparr>"
    and fk: "set_option (v_user r) \<subseteq> u_id ` set (users d)"
    using assms by (auto simp: stmt_insert_visitor_def tbl_insert_def split: if_splits option.splits)
  show "evolves d d'"
    using new fk by (auto simp: evolves_def d' tbl_lookup_def find_append db_ok_def tbl_ok_def hits_fk_def
        visitors_fk_def)
  have "find (\<lambda>x. v_fp x = v_fp r) (visitors d) = None" using new by (simp add: find_None_all) (metis imageI)
  then show "tbl_lookup v_fp (v_fp r) (visitors d') = Some r"
    by (simp add: d' tbl_lookup_def find_append)
qed

lemma v_fp_seen [simp]: "v_fp (seen now session user r) = v_fp r"
  by (simp add: seen_def)

lemma evolves_update:
  assumes "stmt_update_seen fp now session user t d = (Inr x, d')"
  shows "evolves d d'"
    "tbl_lookup v_fp fp (visitors d') = map_option (seen now session user) (tbl_lookup v_fp fp (visitors d))"
proof -
  have up: "tbl_lookup v_fp k (tbl_update v_fp fp (seen now session user) vs) =
      (if k = fp then map_option (seen now session user) (tbl_lookup v_fp k vs) else tbl_lookup v_fp k vs)" for k vs
    by (rule tbl_lookup_update) simp
  show "tbl_lookup v_fp fp (visitors d') = map_option (seen now session user) (tbl_lookup v_fp fp (visitors d))"
    using assms by (auto simp: stmt_update_seen_def up split: option.splits if_splits)
  show "evolves d d'"
  proof (cases "tbl_lookup v_fp fp (visitors d)")
    case (Some r)
    then have fk: "v_user r = None \<longrightarrow> set_option user \<subseteq> u_id ` set (users d)"
      and d': "d' = d\<lparr>visitors := tbl_update v_fp fp (seen now session user) (visitors d)\<rparr>"
      using assms by (auto simp: stmt_update_seen_def split: if_splits)
    have ok: "db_ok d'" if "db_ok d"
    proof -
      have one: "q = r" if "q \<in> set (visitors d)" "v_fp q = fp" for q
        using Some that \<open>db_ok d\<close> by (auto simp: db_ok_def tbl_ok_def tbl_lookup_def find_key_Some_iff
            dest: distinct_map_unique)
      have "set_option (v_user q') \<subseteq> u_id ` set (users d)" if "q' \<in> set (visitors d')" for q'
      proof -
        obtain q where "q \<in> set (visitors d)" "q' = (if v_fp q = fp then seen now session user q else q)"
          using \<open>q' \<in> set (visitors d')\<close> unfolding d' tbl_update_def by auto
        then show ?thesis using one [of q] fk \<open>db_ok d\<close>
          by (auto simp: db_ok_def visitors_fk_def seen_def split: if_splits option.splits)
      qed
      then show ?thesis
        using \<open>db_ok d\<close> by (auto simp: db_ok_def d' tbl_ok_def map_pk_update hits_fk_def visitors_fk_def)
    qed
    show ?thesis unfolding evolves_def using ok by (auto simp: d' up)
  qed (use assms in \<open>simp add: stmt_update_seen_def\<close>)
qed

lemma visitor_insert_evolves: "evolves (db w) (db (snd (visitor_insert e r fp w)))"
  unfolding visitor_insert_def time_Now_def Let_def prod.case
  by (rule stmt_effect_inv [OF sql_exec_effect]) (auto dest: evolves_insert(1))

lemma updateSeen_evolves: "evolves (db w) (db (snd (updateSeen e r fp w)))"
proof -
  have "evolves (db w) (db (snd (sql_exec e ps (stmt_update_seen fp now s u) (bump w))))" for ps now s u
    by (rule stmt_effect_inv [OF sql_exec_effect]) (auto dest: evolves_update(1))
  then show ?thesis by (simp add: updateSeen_def time_Now_def)
qed

lemma persist_evolves: "evolves (db w) (db (snd (persist e r fp True w)))"
proof -
  obtain x w1 where i: "visitor_insert e r fp w = (x, w1)" by fastforce
  have "evolves (db w) (db w1)" using visitor_insert_evolves [of w e r fp] i by simp
  then show ?thesis
    using updateSeen_evolves [of w1 e r fp] by (auto simp: persist_def i split: sum.split intro: evolves_trans)
qed

lemma track_evolves: "evolves (db w) (db (snd (track e sha s r w)))"
proof (cases "ValidID (VisitorID (trim_visit r)) \<and> ValidID (SessionID (trim_visit r))")
  case True
  show ?thesis
  proof (cases s)
    case None
    then show ?thesis using True by (simp add: track_def Let_def persist_evolves)
  next
    case (Some kv)
    let ?r = "cut_visit (trim_visit r)"
    let ?fp = "Fingerprint sha ?r"
    obtain x w1 where k: "kv_do (\<lambda>t. kv_SetNX kv t (marker ?fp) ''1'' 0) w = (x, w1)" by fastforce
    obtain y w2 where i: "visitor_insert e ?r ?fp w1 = (y, w2)" by fastforce
    have w1: "db w1 = db w" using kv_do_eqD [OF k] by simp
    have w2: "evolves (db w1) (db w2)" using visitor_insert_evolves [of w1 e ?r ?fp] i by simp
    show ?thesis
      using True w2 persist_evolves [of w1 e ?r ?fp] updateSeen_evolves [of w1 e ?r ?fp]
        updateSeen_evolves [of w2 e ?r ?fp] w1
      by (auto simp: track_def Let_def Some k i split: sum.split intro: evolves_trans)
  qed
qed (auto simp: track_def Let_def)

text \<open>Jobs run one after the other in any order; each may meet its own failures.\<close>

fun track_jobs :: "(env \<times> visit) list \<Rightarrow> (string \<Rightarrow> 8 word list) \<Rightarrow> 'k valkey option \<Rightarrow> 'k world \<Rightarrow> 'k world" where
  "track_jobs [] sha s w = w"
| "track_jobs ((e, r) # js) sha s w = track_jobs js sha s (track_job e sha s r w)"

lemma track_job_db [simp]: "db (track_job e sha s r w) = db (snd (track e sha s r w))"
  by (auto simp: track_job_def split: prod.split sum.split)

lemma track_jobs_evolve: "evolves (db w) (db (track_jobs js sha s w))"
proof (induction js sha s w rule: track_jobs.induct)
  case (2 e r js sha s w)
  then show ?case using track_evolves [of w e sha s r] by (auto intro: evolves_trans)
qed simp

text \<open>
  C33. The record of a first visit is permanent: whatever visits follow and whatever fails,
  a visitor row keeps its fingerprint, context, first time and first path, and a user id
  once it has one; the other tables stay as they are, and so do the constraints.
\<close>

theorem first_visit_is_permanent:
  assumes "tbl_lookup v_fp fp (visitors (db w)) = Some r" and "db_ok (db w)"
  shows "\<exists>r'. tbl_lookup v_fp fp (visitors (db (track_jobs js sha s w))) = Some r' \<and>
    v_first_seen r' = v_first_seen r \<and> v_path r' = v_path r \<and> v_visitor r' = v_visitor r \<and>
    v_ip r' = v_ip r \<and> v_agent r' = v_agent r \<and> v_referer r' = v_referer r \<and>
    v_country r' = v_country r \<and> v_city r' = v_city r \<and> (v_user r \<noteq> None \<longrightarrow> v_user r' = v_user r) \<and>
    db_ok (db (track_jobs js sha s w)) \<and> users (db (track_jobs js sha s w)) = users (db w)"
proof -
  have ev: "evolves (db w) (db (track_jobs js sha s w))" by (rule track_jobs_evolve)
  then obtain r' where r': "tbl_lookup v_fp fp (visitors (db (track_jobs js sha s w))) = Some r'" "refreshed r r'"
    using assms(1) unfolding evolves_def by blast
  moreover have "v_first_seen r' = v_first_seen r \<and> v_path r' = v_path r \<and> v_visitor r' = v_visitor r \<and>
    v_ip r' = v_ip r \<and> v_agent r' = v_agent r \<and> v_referer r' = v_referer r \<and>
    v_country r' = v_country r \<and> v_city r' = v_city r"
    using r'(2) by (cases r; cases r') (auto simp: refreshed_def)
  moreover have "v_user r \<noteq> None \<longrightarrow> v_user r' = v_user r" using r'(2) by (simp add: refreshed_def)
  ultimately show ?thesis using ev assms(2) unfolding evolves_def by blast
qed

section \<open>Recorded and lost visits\<close>

lemma visitor_insert_new:
  assumes "pg_healthy e" "\<forall>t. pg_text_ok e t" "set_option (user_param r) \<subseteq> u_id ` set (users (db w))"
    and "tbl_lookup v_fp fp (visitors (db w)) = None"
  shows "\<exists>w' row. visitor_insert e r fp w = (Inr (), w') \<and> tbl_lookup v_fp fp (visitors (db w')) = Some row \<and>
    v_session row = SessionID r \<and> visitors (db w') = visitors (db w) @ [row] \<and> v_visitor row = VisitorID r"
proof -
  let ?row = "\<lparr>v_fp = fp, v_visitor = VisitorID r, v_session = SessionID r, v_ip = IP r,
            v_agent = UserAgent r, v_referer = Referer r, v_origin = Origin r,
            v_country = Country r, v_city = City r, v_user = user_param r,
            v_first_seen = pg_time (go_Now e (tick w)), v_last_seen = pg_time (go_Now e (tick w)), v_path = FirstPath r\<rparr>"
  let ?ps = "[fp, VisitorID r, SessionID r, IP r, UserAgent r, Referer r, Origin r, Country r,
                  City r, FirstPath r] @ (case user_param r of None \<Rightarrow> [] | Some u \<Rightarrow> [u])"
  have "fp \<notin> v_fp ` set (visitors (db w))" using assms(4) by (simp add: tbl_lookup_None)
  then have st: "stmt_insert_visitor ?row t (db w) = (Inr (), (db w)\<lparr>visitors := visitors (db w) @ [?row]\<rparr>)" for t
    using assms(3) by (simp add: stmt_insert_visitor_def tbl_insert_def)
  have "sql_exec e ?ps (stmt_insert_visitor ?row) (bump w) =
      (Inr (), bump ((bump w)\<lparr>db := (db w)\<lparr>visitors := visitors (db w) @ [?row]\<rparr>\<rparr>))"
    by (rule sql_exec_ok) (use assms(1,2) st in \<open>auto simp: list_all_iff\<close>)
  then show ?thesis
    using evolves_insert(2) [OF st [of 0]] by (simp add: visitor_insert_def time_Now_def Let_def)
qed

lemma visitor_insert_dup:
  assumes "tbl_lookup v_fp fp (visitors (db w)) \<noteq> None"
  shows "\<exists>er w'. visitor_insert e r fp w = (Inl er, w') \<and> db w' = db w"
proof -
  have dup: "stmt_insert_visitor row t (db w) = (Inl UniqueViolation, db w)" if "v_fp row = fp" for row t
    using assms that by (simp add: stmt_insert_visitor_def tbl_insert_def tbl_lookup_None)
  show ?thesis
    unfolding visitor_insert_def time_Now_def Let_def prod.case
    by (auto simp: sql_exec_def sql_run_def dup bump_def split: pg_outcome.split)
qed

lemma updateSeen_row:
  assumes "pg_healthy e" "\<forall>t. pg_text_ok e t" "set_option (user_param r) \<subseteq> u_id ` set (users (db w))"
    and "tbl_lookup v_fp fp (visitors (db w)) = Some row"
  shows "\<exists>w' row'. updateSeen e r fp w = (Inr (), w') \<and> tbl_lookup v_fp fp (visitors (db w')) = Some row' \<and>
    v_session row' = SessionID r"
proof -
  let ?st = "stmt_update_seen fp (go_Now e (tick w)) (SessionID r) (user_param r)"
  obtain d where st: "?st t (db w) = (Inr (), d)" for t
    using assms(3,4) by (simp add: stmt_update_seen_def)
  have "sql_exec e ps ?st (bump w) = (Inr (), bump ((bump w)\<lparr>db := d\<rparr>))" for ps
    by (rule sql_exec_ok) (use assms(1,2) st in \<open>auto simp: list_all_iff\<close>)
  then have "updateSeen e r fp w = (Inr (), bump ((bump w)\<lparr>db := d\<rparr>))"
    by (auto simp: updateSeen_def time_Now_def user_param_def split: if_splits)
  then show ?thesis
    using evolves_update(2) [OF st [of 0]] assms(4) by (simp add: seen_def)
qed

lemma insert_or_update:
  assumes "pg_healthy e" "\<forall>t. pg_text_ok e t" "set_option (user_param r) \<subseteq> u_id ` set (users (db w))"
  shows "\<exists>w' row. (case visitor_insert e r fp w of (Inl _, w) \<Rightarrow> updateSeen e r fp w | (Inr _, w) \<Rightarrow> (Inr (), w)) = (Inr (), w') \<and>
    tbl_lookup v_fp fp (visitors (db w')) = Some row \<and> v_session row = SessionID r"
proof (cases "tbl_lookup v_fp fp (visitors (db w))")
  case None
  then show ?thesis using visitor_insert_new [OF assms None] by auto
next
  case (Some row)
  obtain er w1 where i: "visitor_insert e r fp w = (Inl er, w1)" "db w1 = db w"
    using visitor_insert_dup [of fp w e r] Some by auto
  then show ?thesis using updateSeen_row [OF assms(1,2), of r w1 fp row] assms(3) Some by simp
qed

lemma persist_eq:
  "persist e r fp True w =
     (case visitor_insert e r fp w of (Inl _, w) \<Rightarrow> updateSeen e r fp w | (Inr _, w) \<Rightarrow> (Inr (), w))"
  by (auto simp: persist_def split: prod.split sum.split)


lemma ValidID_demo: "ValidID ''visitor-1''" "ValidID ''session-1''"
  by code_simp+


lemma updateSeen_none:
  assumes "tbl_lookup v_fp fp (visitors (db w)) = None"
  shows "tbl_lookup v_fp fp (visitors (db (snd (updateSeen e r fp w)))) = None \<and> vk (snd (updateSeen e r fp w)) = vk w"
proof -
  have "tbl_lookup v_fp fp (visitors (db (snd (sql_exec e ps (stmt_update_seen fp now s u) (bump w))))) = None" for ps now s u
    by (rule stmt_effect_inv [OF sql_exec_effect]) (use assms in \<open>auto dest!: evolves_update(2)\<close>)
  then show ?thesis by (simp add: updateSeen_def time_Now_def)
qed

lemma track_lost:
  assumes "valkey_spec kv view" and "\<forall>n k. \<not> isl (fst (kv_SetNX kv n (marker fp) ''1'' 0 k))"
    and "view (vk w) (marker fp) = Some (c, None)" and "tbl_lookup v_fp fp (visitors (db w)) = None"
    and "Fingerprint sha (cut_visit (trim_visit r)) = fp"
  shows "view (vk (snd (track e sha (Some kv) r w))) (marker fp) = Some (c, None) \<and>
    tbl_lookup v_fp fp (visitors (db (snd (track e sha (Some kv) r w)))) = None"
proof (cases "ValidID (VisitorID (trim_visit r)) \<and> ValidID (SessionID (trim_visit r))")
  case True
  obtain x k where nx: "kv_SetNX kv (tick w) (marker fp) ''1'' 0 (vk w) = (x, k)" by fastforce
  have "live (kv_clock kv (tick w)) (marker fp) (view (vk w)) = Some (c, None)"
    using assms(3) by (simp add: live_def)
  then have v: "view k = view (vk w)" "\<forall>b. x = Inr b \<longrightarrow> \<not> b"
    using valkey_SetNX [OF assms(1) nx] by auto
  then have x: "x = Inr False"
    using assms(2) nx by (cases x) (auto, metis fst_conv isl_def)
  let ?w1 = "bump (w\<lparr>vk := k\<rparr>)"
  have "track e sha (Some kv) r w = updateSeen e (cut_visit (trim_visit r)) fp ?w1"
    using True assms(5) by (simp add: track_def Let_def kv_do_def nx x)
  then show ?thesis
    using updateSeen_none [of fp ?w1 e "cut_visit (trim_visit r)"] assms(3,4) v(1) by simp
next
  case False
  then have "snd (track e sha (Some kv) r w) = w" by (auto simp: track_def Let_def)
  then show ?thesis using assms(3,4) by simp
qed

text \<open>
  C35. A visitor can be lost for good: once the marker of a fingerprint is set without a row
  (the insertion failed after SETNX), no later visit with that fingerprint ever inserts the
  row while Valkey answers, however healthy the database is.
\<close>

theorem visitor_lost_after_failed_insert:
  assumes "valkey_spec kv view" and "\<forall>n k. \<not> isl (fst (kv_SetNX kv n (marker fp) ''1'' 0 k))"
    and "view (vk w) (marker fp) = Some (c, None)" and "tbl_lookup v_fp fp (visitors (db w)) = None"
    and "\<forall>(e, r) \<in> set js. Fingerprint sha (cut_visit (trim_visit r)) = fp"
  shows "tbl_lookup v_fp fp (visitors (db (track_jobs js sha (Some kv) w))) = None"
  using assms(3-5)
proof (induction js arbitrary: w)
  case (Cons j js)
  obtain e r where j: "j = (e, r)" by fastforce
  have "view (vk (track_job e sha (Some kv) r w)) (marker fp) = Some (c, None) \<and>
      tbl_lookup v_fp fp (visitors (db (track_job e sha (Some kv) r w))) = None"
    using track_lost [OF assms(1,2) Cons.prems(1,2), of sha r e] Cons.prems(3)
    by (auto simp: j track_job_def split: prod.splits sum.splits)
  then show ?case using Cons.IH [of "track_job e sha (Some kv) r w"] Cons.prems(3) by (simp add: j)
qed simp

text \<open>The one failing insertion after which the visitor is lost.\<close>

definition failing_env :: env where
  "failing_env = (demo_env 0)\<lparr>pg_outcome_at := (\<lambda>n. if n = 2 then PgFail ''timeout'' else PgOk)\<rparr>"

definition demo_fp :: string where
  "demo_fp = Fingerprint demo_sha demo_visit"

definition demo_kv :: "kv_map valkey" where
  "demo_kv = mem_valkey (\<lambda>n. int n) (\<lambda>_. False)"

lemma demo_visit_cut [simp]: "cut_visit (trim_visit demo_visit) = demo_visit"
  by (simp add: cut_visit_def trim_visit_def demo_visit_def cut_def)

lemma demo_visit_valid [simp]: "ValidID (VisitorID (trim_visit demo_visit))" "ValidID (SessionID (trim_visit demo_visit))"
  by (simp_all add: trim_visit_def demo_visit_def ValidID_demo)

lemma demo_SetNX:
  "kv_SetNX demo_kv 0 (marker demo_fp) ''1'' 0 Map.empty = (Inr True, [marker demo_fp \<mapsto> (1, None)])"
  by (simp add: demo_kv_def mem_valkey_def kv_reply_def kv_apply_def live_def kv_set_spec_def)

lemma lost_start:
  "view = id \<Longrightarrow> let w = snd (track failing_env demo_sha (Some demo_kv) demo_visit (demo_world empty_db)) in
     view (vk w) (marker demo_fp) = Some (1, None) \<and> visitors (db w) = []"
proof -
  let ?w1 = "bump ((demo_world empty_db)\<lparr>vk := [marker demo_fp \<mapsto> (1, None)]\<rparr>)"
  have "fst (visitor_insert failing_env demo_visit demo_fp ?w1) = Inl (Errorf ''timeout'')"
    and i: "snd (visitor_insert failing_env demo_visit demo_fp ?w1) = bump (bump ?w1)"
    by (simp_all add: visitor_insert_def time_Now_def sql_exec_def failing_env_def numeral_2_eq_2)
  then have ins: "visitor_insert failing_env demo_visit demo_fp ?w1 = (Inl (Errorf ''timeout''), bump (bump ?w1))"
    by (metis prod.collapse)
  have "track failing_env demo_sha (Some demo_kv) demo_visit (demo_world empty_db) =
      updateSeen failing_env demo_visit demo_fp (bump (bump ?w1))"
    by (simp add: track_def Let_def kv_do_def demo_fp_def [symmetric] demo_SetNX ins)
  moreover have "db (snd (updateSeen failing_env demo_visit demo_fp (bump (bump ?w1)))) = empty_db"
    by (simp add: updateSeen_def time_Now_def demo_visit_def sql_exec_def sql_run_def stmt_update_seen_def
        tbl_lookup_def failing_env_def) (simp add: empty_db_def)
  moreover have "vk (snd (updateSeen failing_env demo_visit demo_fp (bump (bump ?w1)))) = [marker demo_fp \<mapsto> (1, None)]"
    by (simp add: updateSeen_def time_Now_def demo_visit_def)
  ultimately show "view = id \<Longrightarrow> let w = snd (track failing_env demo_sha (Some demo_kv) demo_visit (demo_world empty_db)) in
     view (vk w) (marker demo_fp) = Some (1, None) \<and> visitors (db w) = []"
    by (simp add: Let_def empty_db_def)
qed

theorem visitor_lost_after_failed_insert_witness:
  "let w = snd (track failing_env demo_sha (Some demo_kv) demo_visit (demo_world empty_db)) in
   tbl_lookup v_fp demo_fp (visitors (db (track_jobs
     [(demo_env 0, demo_visit), (demo_env 0, demo_visit)] demo_sha (Some demo_kv) w))) = None"
proof -
  have sp: "valkey_spec demo_kv id" unfolding demo_kv_def by (rule mem_valkey_spec)
  have nx: "\<forall>n k. \<not> isl (fst (kv_SetNX demo_kv n (marker demo_fp) ''1'' 0 k))"
    by (simp add: demo_kv_def mem_valkey_def kv_reply_def)
  show ?thesis
    using visitor_lost_after_failed_insert [OF sp nx, of "snd (track failing_env demo_sha (Some demo_kv) demo_visit
        (demo_world empty_db))" 1 "[(demo_env 0, demo_visit), (demo_env 0, demo_visit)]" demo_sha] lost_start [of id]
    by (simp add: Let_def tbl_lookup_def demo_fp_def)
qed

text \<open>A stored row stays through a run in which one insertion fails.\<close>

definition demo_visitor :: visitor_row where
  "demo_visitor = \<lparr>v_fp = demo_fp, v_visitor = ''visitor-1'', v_session = ''session-0'', v_ip = ''1.2.3.4'',
     v_agent = ''ua'', v_referer = [], v_origin = [], v_country = ''ID'', v_city = ''Jakarta'', v_user = None,
     v_first_seen = 0, v_last_seen = 0, v_path = ''/tools''\<rparr>"

theorem first_visit_is_permanent_witness:
  "\<exists>r'. tbl_lookup v_fp demo_fp (visitors (db (track_jobs [(failing_env, demo_visit), (demo_env 0, demo_visit)]
     demo_sha (Some demo_kv) (demo_world (empty_db\<lparr>visitors := [demo_visitor]\<rparr>))))) = Some r' \<and>
   v_path r' = ''/tools'' \<and> v_first_seen r' = 0"
proof -
  let ?w = "demo_world (empty_db\<lparr>visitors := [demo_visitor]\<rparr>)"
  have l: "tbl_lookup v_fp demo_fp (visitors (db ?w)) = Some demo_visitor"
    by (simp add: tbl_lookup_def demo_visitor_def)
  have ok: "db_ok (db ?w)"
    by (simp add: db_ok_def tbl_ok_def hits_fk_def visitors_fk_def empty_db_def demo_visitor_def)
  have "v_path demo_visitor = ''/tools''" "v_first_seen demo_visitor = 0" by (simp_all add: demo_visitor_def)
  then show ?thesis
    using first_visit_is_permanent [OF l ok, of "[(failing_env, demo_visit), (demo_env 0, demo_visit)]"
        demo_sha "Some demo_kv"] by metis
qed

end
