(* ===== verification/Smtp_Tester.thy ===== *)
theory Smtp_Tester
  imports Effects
begin

text \<open>
  \<^verbatim>\<open>internal/smtp/test.go\<close>: the SMTP credential check and the test message, on a
  model of the part of \<^verbatim>\<open>net/smtp\<close> they use. The far end is the argument \<open>peer\<close>:
  what it answers after a sequence of events of the connection (a network error, or a reply
  code and text), so theorems for all peers cover every server and every failure.
\<close>

section \<open>The wire\<close>

datatype event =
    DialTCP string
  | DialTLS string string
  | Greeting
  | Cmd string
  | Handshake string
  | Body string
  | EndData
  | Close

type_synonym peer = "event list \<Rightarrow> string + (nat \<times> string)"

text \<open>\<^verbatim>\<open>smtp.Client\<close>, with the events of its connection.\<close>

record client =
  c_name :: string
  c_tls :: bool
  c_ext :: "str_map option"
  c_hello :: bool
  c_hello_err :: "go_error option"
  c_log :: "event list"

type_synonym 'a smtp = "client \<Rightarrow> (go_error + 'a) \<times> client"

text \<open>\<^verbatim>\<open>textproto.Reader.ReadResponse(expect)\<close>: a prefix of the code, 0 for any.\<close>

definition code_ok :: "nat \<Rightarrow> nat \<Rightarrow> bool" where
  "code_ok expect code \<longleftrightarrow>
     \<not> (1 \<le> expect \<and> expect < 10 \<and> code div 100 \<noteq> expect \<or>
        10 \<le> expect \<and> expect < 100 \<and> code div 10 \<noteq> expect \<or>
        100 \<le> expect \<and> expect < 1000 \<and> code \<noteq> expect)"

definition pad3 :: "nat \<Rightarrow> string" where
  "pad3 n = (let s = dec_digits n in replicate (3 - length s) (CHR ''0'') @ s)"

definition ask :: "peer \<Rightarrow> event \<Rightarrow> nat \<Rightarrow> (nat \<times> string) smtp" where
  "ask peer ev expect c =
     (let c = c\<lparr>c_log := c_log c @ [ev]\<rparr> in
      case peer (c_log c) of
        Inl m \<Rightarrow> (Inl (Errorf m), c)
      | Inr (code, msg) \<Rightarrow>
          if code_ok expect code then (Inr (code, msg), c)
          else (Inl (Errorf (pad3 code @ '' '' @ msg)), c))"

definition close :: "client \<Rightarrow> client" where
  "close c = c\<lparr>c_log := c_log c @ [Close]\<rparr>"

section \<open>net/smtp\<close>

definition NewClient :: "peer \<Rightarrow> string \<Rightarrow> bool \<Rightarrow> event list \<Rightarrow> (go_error + unit) \<times> client" where
  "NewClient peer host tls log =
     (let c = \<lparr>c_name = host, c_tls = tls, c_ext = None, c_hello = False, c_hello_err = None, c_log = log\<rparr> in
      case ask peer Greeting 220 c of
        (Inl er, c) \<Rightarrow> (Inl er, close c)
      | (Inr _, c) \<Rightarrow> (Inr (), c))"

text \<open>The extensions of an EHLO reply: one a line after the first, name and parameters.\<close>

definition cut_space :: "string \<Rightarrow> string \<times> string" where
  "cut_space l = (takeWhile (\<lambda>x. x \<noteq> CHR '' '') l, drop 1 (dropWhile (\<lambda>x. x \<noteq> CHR '' '') l))"

definition ehlo :: "peer \<Rightarrow> unit smtp" where
  "ehlo peer c =
     (case ask peer (Cmd ''EHLO localhost'') 250 c of
        (Inl er, c) \<Rightarrow> (Inl er, c)
      | (Inr (_, msg), c) \<Rightarrow> (Inr (), c\<lparr>c_ext := Some (rev (map cut_space (tl (Split msg (CHR 0x0A)))))\<rparr>))"

definition helo :: "peer \<Rightarrow> unit smtp" where
  "helo peer c =
     (case ask peer (Cmd ''HELO localhost'') 250 (c\<lparr>c_ext := None\<rparr>) of
        (Inl er, c) \<Rightarrow> (Inl er, c)
      | (Inr _, c) \<Rightarrow> (Inr (), c))"

definition hello :: "peer \<Rightarrow> client \<Rightarrow> go_error option \<times> client" where
  "hello peer c =
     (if c_hello c then (c_hello_err c, c)
      else
        (case ehlo peer (c\<lparr>c_hello := True\<rparr>) of
           (Inr _, c) \<Rightarrow> (c_hello_err c, c)
         | (Inl _, c) \<Rightarrow>
             (case helo peer c of
                (Inl er, c) \<Rightarrow> (Some er, c\<lparr>c_hello_err := Some er\<rparr>)
              | (Inr _, c) \<Rightarrow> (None, c\<lparr>c_hello_err := None\<rparr>))))"

definition has_ext :: "client \<Rightarrow> string \<Rightarrow> bool" where
  "has_ext c ext \<longleftrightarrow> (case c_ext c of None \<Rightarrow> False | Some m \<Rightarrow> ext \<in> fst ` set m)"

definition Extension :: "peer \<Rightarrow> string \<Rightarrow> client \<Rightarrow> bool \<times> client" where
  "Extension peer ext c =
     (case hello peer c of
        (Some _, c) \<Rightarrow> (False, c)
      | (None, c) \<Rightarrow> (has_ext c ext, c))"

definition cmd_line :: "peer \<Rightarrow> nat \<Rightarrow> string \<Rightarrow> (nat \<times> string) smtp" where
  "cmd_line peer expect line = ask peer (Cmd line) expect"

definition StartTLS :: "peer \<Rightarrow> string \<Rightarrow> unit smtp" where
  "StartTLS peer name c =
     (case hello peer c of
        (Some er, c) \<Rightarrow> (Inl er, c)
      | (None, c) \<Rightarrow>
     (case cmd_line peer 220 ''STARTTLS'' c of
        (Inl er, c) \<Rightarrow> (Inl er, c)
      | (Inr _, c) \<Rightarrow>
     (case ask peer (Handshake name) 0 c of
        (Inl er, c) \<Rightarrow> (Inl er, c\<lparr>c_tls := True\<rparr>)
      | (Inr _, c) \<Rightarrow> ehlo peer (c\<lparr>c_tls := True\<rparr>))))"

text \<open>\<^verbatim>\<open>smtp.PlainAuth("", user, password, host)\<close>.\<close>

record plain_auth =
  pa_user :: string
  pa_password :: string
  pa_host :: string

definition isLocalhost :: "string \<Rightarrow> bool" where
  "isLocalhost name \<longleftrightarrow> name \<in> {''localhost'', ''127.0.0.1'', ''::1''}"

definition plain_Start :: "plain_auth \<Rightarrow> client \<Rightarrow> go_error + string" where
  "plain_Start a c =
     (if \<not> c_tls c \<and> \<not> isLocalhost (c_name c) then Inl (Errorf ''unencrypted connection'')
      else if c_name c \<noteq> pa_host a then Inl (Errorf ''wrong host name'')
      else Inr ([CHR 0x00] @ pa_user a @ [CHR 0x00] @ pa_password a))"

definition Quit :: "peer \<Rightarrow> unit smtp" where
  "Quit peer c =
     (case hello peer c of
        (Some er, c) \<Rightarrow> (Inl er, c)
      | (None, c) \<Rightarrow>
     (case cmd_line peer 221 ''QUIT'' c of
        (Inl er, c) \<Rightarrow> (Inl er, c)
      | (Inr _, c) \<Rightarrow> (Inr (), c)))"

definition auth_cmd :: "string \<Rightarrow> string" where
  "auth_cmd resp = TrimSpace (''AUTH PLAIN '' @ StdEncoding resp)"

text \<open>
  \<^verbatim>\<open>client.Auth\<close>: any challenge ends the exchange, since the mechanism has none;
  \<open>bad64\<close> is the error of \<^verbatim>\<open>base64.StdEncoding.DecodeString\<close> on a challenge, if any.
\<close>

definition Auth :: "peer \<Rightarrow> (string \<Rightarrow> string option) \<Rightarrow> plain_auth \<Rightarrow> unit smtp" where
  "Auth peer bad64 a c =
     (case hello peer c of
        (Some er, c) \<Rightarrow> (Inl er, c)
      | (None, c) \<Rightarrow>
     (case plain_Start a c of
        Inl er \<Rightarrow> (Inl er, snd (Quit peer c))
      | Inr resp \<Rightarrow>
     (case cmd_line peer 0 (auth_cmd resp) c of
        (Inl er, c) \<Rightarrow> (Inl er, c)
      | (Inr (code, msg), c) \<Rightarrow>
          if code = 235 then (Inr (), c)
          else
            (let er = (if code = 334
                       then (case bad64 msg of Some m \<Rightarrow> Errorf m | None \<Rightarrow> Errorf ''unexpected server challenge'')
                       else Errorf (pad3 code @ '' '' @ msg));
                 c = snd (cmd_line peer 501 ''*'' c)
             in (Inl er, snd (Quit peer c))))))"

definition validateLine :: "string \<Rightarrow> go_error option" where
  "validateLine l =
     (if ContainsAny l [CHR 0x0A, CHR 0x0D] then Some (Errorf ''smtp: A line must not contain CR or LF'') else None)"

definition Mail :: "peer \<Rightarrow> string \<Rightarrow> unit smtp" where
  "Mail peer sender c =
     (case validateLine sender of
        Some er \<Rightarrow> (Inl er, c)
      | None \<Rightarrow>
     (case hello peer c of
        (Some er, c) \<Rightarrow> (Inl er, c)
      | (None, c) \<Rightarrow>
     (case cmd_line peer 250 (''MAIL FROM:<'' @ sender @ ''>'' @
             (if has_ext c ''8BITMIME'' then '' BODY=8BITMIME'' else []) @
             (if has_ext c ''SMTPUTF8'' then '' SMTPUTF8'' else [])) c of
        (Inl er, c) \<Rightarrow> (Inl er, c)
      | (Inr _, c) \<Rightarrow> (Inr (), c))))"

definition Rcpt :: "peer \<Rightarrow> string \<Rightarrow> unit smtp" where
  "Rcpt peer rcpt c =
     (case validateLine rcpt of
        Some er \<Rightarrow> (Inl er, c)
      | None \<Rightarrow>
     (case cmd_line peer 25 (''RCPT TO:<'' @ rcpt @ ''>'') c of
        (Inl er, c) \<Rightarrow> (Inl er, c)
      | (Inr _, c) \<Rightarrow> (Inr (), c)))"

text \<open>\<^verbatim>\<open>Data\<close>, \<^verbatim>\<open>Write\<close> and \<^verbatim>\<open>Close\<close> of its writer; the dot-stuffing of
  the body is the transport's.\<close>

definition unit_result :: "(go_error + 'a) \<times> client \<Rightarrow> (go_error + unit) \<times> client" where
  "unit_result = map_prod (map_sum id (\<lambda>_. ())) id"

definition Data :: "peer \<Rightarrow> unit smtp" where
  "Data peer c = unit_result (cmd_line peer 354 ''DATA'' c)"

definition data_Write :: "peer \<Rightarrow> string \<Rightarrow> unit smtp" where
  "data_Write peer msg c = unit_result (ask peer (Body msg) 0 c)"

definition data_Close :: "peer \<Rightarrow> unit smtp" where
  "data_Close peer c = unit_result (ask peer EndData 250 c)"

section \<open>Authentication and sending\<close>

definition wrapf :: "string \<Rightarrow> (go_error + 'a) \<times> client \<Rightarrow> (go_error + 'a) \<times> client" where
  "wrapf p = map_prod (map_sum (Wrap p) id) id"

definition doAuth :: "peer \<Rightarrow> (string \<Rightarrow> string option) \<Rightarrow> plain_auth \<Rightarrow> unit smtp" where
  "doAuth peer bad64 a c =
     (case Extension peer ''AUTH'' c of
        (False, c) \<Rightarrow> (Inl (Errorf ''server does not support AUTH''), c)
      | (True, c) \<Rightarrow> wrapf ''auth'' (Auth peer bad64 a c))"

definition dataSend :: "peer \<Rightarrow> string \<Rightarrow> string \<Rightarrow> string \<Rightarrow> unit smtp" where
  "dataSend peer sender rcpt msg c =
     (case wrapf ''MAIL FROM'' (Mail peer sender c) of
        (Inl er, c) \<Rightarrow> (Inl er, c)
      | (Inr _, c) \<Rightarrow>
     (case wrapf ''RCPT TO'' (Rcpt peer rcpt c) of
        (Inl er, c) \<Rightarrow> (Inl er, c)
      | (Inr _, c) \<Rightarrow>
     (case wrapf ''DATA'' (Data peer c) of
        (Inl er, c) \<Rightarrow> (Inl er, c)
      | (Inr _, c) \<Rightarrow>
     (case wrapf ''write body'' (data_Write peer msg c) of
        (Inl er, c) \<Rightarrow> (Inl er, c)
      | (Inr _, c) \<Rightarrow>
     (case wrapf ''end DATA'' (data_Close peer c) of
        (Inl er, c) \<Rightarrow> (Inl er, c)
      | (Inr _, c) \<Rightarrow> wrapf ''QUIT'' (Quit peer c))))))"

text \<open>The deferred \<^verbatim>\<open>client.Close\<close> and what is left of a call: its error and the events.\<close>

definition finish :: "(go_error + unit) \<times> client \<Rightarrow> (go_error + unit) \<times> event list" where
  "finish = map_prod id (c_log \<circ> close)"

definition with_client :: "peer \<Rightarrow> string \<Rightarrow> bool \<Rightarrow> unit smtp \<Rightarrow> event list \<Rightarrow> (go_error + unit) \<times> event list" where
  "with_client peer host tls act log =
     (case NewClient peer host tls log of
        (Inl er, c) \<Rightarrow> (Inl (Wrap ''smtp client'' er), c_log c)
      | (Inr _, c) \<Rightarrow> finish (act c))"

definition dial :: "peer \<Rightarrow> event \<Rightarrow> string \<Rightarrow> (event list \<Rightarrow> (go_error + unit) \<times> event list) \<Rightarrow> (go_error + unit) \<times> event list" where
  "dial peer ev what k =
     (case peer [ev] of
        Inl m \<Rightarrow> (Inl (Wrap what (Errorf m)), [ev])
      | Inr _ \<Rightarrow> k [ev])"

text \<open>\<^verbatim>\<open>authOverConn\<close>: QUIT's answer is ignored.\<close>

definition authOverConn :: "peer \<Rightarrow> (string \<Rightarrow> string option) \<Rightarrow> plain_auth \<Rightarrow> unit smtp" where
  "authOverConn peer bad64 a c =
     (case doAuth peer bad64 a c of
        (Inl er, c) \<Rightarrow> (Inl er, c)
      | (Inr _, c) \<Rightarrow> (Inr (), snd (Quit peer c)))"

definition authImplicitTLS :: "peer \<Rightarrow> (string \<Rightarrow> string option) \<Rightarrow> string \<Rightarrow> string \<Rightarrow> plain_auth \<Rightarrow> (go_error + unit) \<times> event list" where
  "authImplicitTLS peer bad64 addr host a =
     dial peer (DialTLS addr host) ''tls dial'' (with_client peer host True (authOverConn peer bad64 a))"

definition authPlain :: "peer \<Rightarrow> (string \<Rightarrow> string option) \<Rightarrow> string \<Rightarrow> string \<Rightarrow> plain_auth \<Rightarrow> (go_error + unit) \<times> event list" where
  "authPlain peer bad64 addr host a =
     dial peer (DialTCP addr) ''dial'' (with_client peer host False (authOverConn peer bad64 a))"

text \<open>The upgrade both STARTTLS functions begin with.\<close>

definition upgrade :: "peer \<Rightarrow> string \<Rightarrow> unit smtp" where
  "upgrade peer host c =
     (case Extension peer ''STARTTLS'' c of
        (False, c) \<Rightarrow> (Inl (Errorf ''server does not support STARTTLS''), c)
      | (True, c) \<Rightarrow> wrapf ''starttls'' (StartTLS peer host c))"

definition authSTARTTLS :: "peer \<Rightarrow> (string \<Rightarrow> string option) \<Rightarrow> string \<Rightarrow> string \<Rightarrow> plain_auth \<Rightarrow> (go_error + unit) \<times> event list" where
  "authSTARTTLS peer bad64 addr host a =
     dial peer (DialTCP addr) ''dial''
       (with_client peer host False (\<lambda>c.
          case upgrade peer host c of
            (Inl er, c) \<Rightarrow> (Inl er, c)
          | (Inr _, c) \<Rightarrow> doAuth peer bad64 a c))"

definition smtpOverConn :: "peer \<Rightarrow> (string \<Rightarrow> string option) \<Rightarrow> plain_auth \<Rightarrow> string \<Rightarrow> string \<Rightarrow> string \<Rightarrow> unit smtp" where
  "smtpOverConn peer bad64 a sender rcpt msg c =
     (case doAuth peer bad64 a c of
        (Inl er, c) \<Rightarrow> (Inl er, c)
      | (Inr _, c) \<Rightarrow> dataSend peer sender rcpt msg c)"

definition sendImplicitTLS :: "peer \<Rightarrow> (string \<Rightarrow> string option) \<Rightarrow> string \<Rightarrow> string \<Rightarrow> plain_auth \<Rightarrow> string \<Rightarrow> string \<Rightarrow> string
    \<Rightarrow> (go_error + unit) \<times> event list" where
  "sendImplicitTLS peer bad64 addr host a sender rcpt msg =
     dial peer (DialTLS addr host) ''tls dial'' (with_client peer host True (smtpOverConn peer bad64 a sender rcpt msg))"

definition sendPlain :: "peer \<Rightarrow> (string \<Rightarrow> string option) \<Rightarrow> string \<Rightarrow> string \<Rightarrow> plain_auth \<Rightarrow> string \<Rightarrow> string \<Rightarrow> string
    \<Rightarrow> (go_error + unit) \<times> event list" where
  "sendPlain peer bad64 addr host a sender rcpt msg =
     dial peer (DialTCP addr) ''dial'' (with_client peer host False (smtpOverConn peer bad64 a sender rcpt msg))"

definition sendSTARTTLS :: "peer \<Rightarrow> (string \<Rightarrow> string option) \<Rightarrow> string \<Rightarrow> string \<Rightarrow> plain_auth \<Rightarrow> string \<Rightarrow> string \<Rightarrow> string
    \<Rightarrow> (go_error + unit) \<times> event list" where
  "sendSTARTTLS peer bad64 addr host a sender rcpt msg =
     dial peer (DialTCP addr) ''dial''
       (with_client peer host False (\<lambda>c.
          case upgrade peer host c of
            (Inl er, c) \<Rightarrow> (Inl er, c)
          | (Inr _, c) \<Rightarrow>
         (case doAuth peer bad64 a c of
            (Inl er, c) \<Rightarrow> (Inl er, c)
          | (Inr _, c) \<Rightarrow> dataSend peer sender rcpt msg c)))"

section \<open>The two entry points\<close>

record smtp_request =
  rq_host :: string
  rq_port :: int
  rq_security :: string
  rq_username :: string
  rq_password :: string
  rq_from :: string
  rq_to :: string
  rq_subject :: string
  rq_text :: string
  rq_html :: bool

record auth_check_request =
  ac_host :: string
  ac_port :: int
  ac_security :: string
  ac_username :: string
  ac_password :: string

record smtp_step =
  st_step :: string
  st_ok :: bool
  st_detail :: string
  st_at :: time

record smtp_result =
  r_ok :: bool
  r_steps :: "smtp_step list"
  r_error :: string

record auth_check_result =
  a_ok :: bool
  a_message :: string
  a_error :: string
  a_host :: string
  a_port :: int
  a_security :: string

definition normalizeSecurity :: "string \<Rightarrow> string" where
  "normalizeSecurity sec = (if sec = '''' then ''starttls'' else sec)"

definition JoinHostPort :: "string \<Rightarrow> string \<Rightarrow> string" where
  "JoinHostPort host port =
     (if CHR '':'' \<in> set host then ''['' @ host @ '']:'' @ port else host @ '':'' @ port)"

definition looksLikeEmail :: "string \<Rightarrow> bool" where
  "looksLikeEmail s =
     (let at = LastIndex s (CHR ''@'') in
      if at \<le> 0 \<or> at = int (length s) - 1 then False
      else CHR ''.'' \<in> set (drop (nat at + 1) s))"

definition check_fail :: "string \<Rightarrow> auth_check_result" where
  "check_fail er = \<lparr>a_ok = False, a_message = [], a_error = er, a_host = [], a_port = 0, a_security = []\<rparr>"

definition CheckAuth :: "peer \<Rightarrow> (string \<Rightarrow> string option) \<Rightarrow> auth_check_request \<Rightarrow> auth_check_result \<times> event list" where
  "CheckAuth peer bad64 req =
     (let host = TrimSpace (ac_host req);
          user = TrimSpace (ac_username req);
          sec = normalizeSecurity (ac_security req) in
      if host = '''' then (check_fail ''SMTP host is required'', [])
      else if ac_port req < 1 \<or> 65535 < ac_port req then (check_fail ''Valid SMTP port is required'', [])
      else if user = '''' \<or> ac_password req = '''' then (check_fail ''Username and password are required'', [])
      else
     (let addr = JoinHostPort host (Itoa (ac_port req));
          a = \<lparr>pa_user = user, pa_password = ac_password req, pa_host = host\<rparr>;
          (r, log) =
            (if sec = ''ssl'' then authImplicitTLS peer bad64 addr host a
             else if sec = ''none'' then authPlain peer bad64 addr host a
             else authSTARTTLS peer bad64 addr host a)
      in case r of
           Inl er \<Rightarrow> (\<lparr>a_ok = False, a_message = [], a_error = error_text er, a_host = host,
                       a_port = ac_port req, a_security = sec\<rparr>, log)
         | Inr _ \<Rightarrow> (\<lparr>a_ok = True, a_message = ''Credentials accepted by SMTP server'', a_error = [],
                      a_host = host, a_port = ac_port req, a_security = sec\<rparr>, log)))"

definition step :: "env \<Rightarrow> string \<Rightarrow> bool \<Rightarrow> string \<Rightarrow> 'k world \<Rightarrow> smtp_step \<times> 'k world" where
  "step e name ok detail w =
     (let (now, w) = time_Now e w in (\<lparr>st_step = name, st_ok = ok, st_detail = detail, st_at = now\<rparr>, w))"

definition crlf :: string where
  "crlf = [CHR 0x0D, CHR 0x0A]"

definition message :: "string \<Rightarrow> string \<Rightarrow> string \<Rightarrow> bool \<Rightarrow> string \<Rightarrow> string" where
  "message sender rcpt subject html body =
     Join [''From: '' @ sender, ''To: '' @ rcpt, ''Subject: '' @ subject, ''MIME-Version: 1.0'',
           ''Content-Type: '' @ (if html then ''text/html; charset=UTF-8'' else ''text/plain; charset=UTF-8''),
           ''X-Mailer: tools-api.riyanathariq.space'', [], body] crlf"

definition default_body :: "(time \<Rightarrow> string) \<Rightarrow> time \<Rightarrow> string" where
  "default_body rfc3339 now =
     ''SMTP test OK at '' @ rfc3339 now @ [CHR 0x0A] @
     ''Sent via tools.riyanathariq.space SMTP Tester (BYO credentials).''"

definition RunTest :: "env \<Rightarrow> (time \<Rightarrow> string) \<Rightarrow> peer \<Rightarrow> (string \<Rightarrow> string option) \<Rightarrow> smtp_request \<Rightarrow> 'k world
    \<Rightarrow> (smtp_result \<times> event list) \<times> 'k world" where
  "RunTest e rfc3339 peer bad64 req w =
     (let fail = (\<lambda>steps er. \<lparr>r_ok = False, r_steps = steps, r_error = er\<rparr>);
          host = TrimSpace (rq_host req);
          sender = TrimSpace (rq_from req);
          rcpt = TrimSpace (rq_to req);
          user = TrimSpace (rq_username req);
          sec = normalizeSecurity (rq_security req) in
      if host = '''' then ((fail [] ''SMTP host is required'', []), w)
      else if rq_port req < 1 \<or> 65535 < rq_port req then ((fail [] ''Valid SMTP port is required'', []), w)
      else if sender = '''' \<or> rcpt = '''' then ((fail [] ''From and To are required'', []), w)
      else if user = '''' \<or> rq_password req = '''' then ((fail [] ''Username and password are required'', []), w)
      else if \<not> looksLikeEmail sender \<or> \<not> looksLikeEmail rcpt
      then ((fail [] ''From and To must look like email addresses'', []), w)
      else
     (let (s1, w) = step e ''validate'' True (host @ '':'' @ Itoa (rq_port req) @ '' ('' @ sec @ '')'') w;
          subject = TrimSpace (rq_subject req);
          subject = (if subject = '''' then ''SMTP test from tools.riyanathariq.space'' else subject);
          body = TrimSpace (rq_text req);
          (body, w) = (if body = '''' then (let (now, w) = time_Now e w in (default_body rfc3339 now, w)) else (body, w))
      in
      if 200 < length subject then ((fail [s1] ''Subject too long (max 200)'', []), w)
      else if 20000 < length body then ((fail [s1] ''Body too long (max 20000)'', []), w)
      else
     (let msg = message sender rcpt subject (rq_html req) body;
          addr = JoinHostPort host (Itoa (rq_port req));
          a = \<lparr>pa_user = user, pa_password = rq_password req, pa_host = host\<rparr>;
          (r, log) =
            (if sec = ''ssl'' then sendImplicitTLS peer bad64 addr host a sender rcpt msg
             else if sec = ''none'' then sendPlain peer bad64 addr host a sender rcpt msg
             else sendSTARTTLS peer bad64 addr host a sender rcpt msg)
      in case r of
           Inl er \<Rightarrow>
             (let (s2, w) = step e ''send'' False (error_text er) w
              in ((fail [s1, s2] (error_text er), log), w))
         | Inr _ \<Rightarrow>
             (let (s2, w) = step e ''connect+auth+send'' True ''Message accepted by SMTP server'' w
              in ((\<lparr>r_ok = True, r_steps = [s1, s2], r_error = []\<rparr>, log), w)))))"

section \<open>What a call may send\<close>

text \<open>\<open>sends S c c'\<close>: between \<open>c\<close> and \<open>c'\<close> only events of \<open>S\<close> happened.\<close>

definition sends :: "event set \<Rightarrow> client \<Rightarrow> client \<Rightarrow> bool" where
  "sends S c c' \<longleftrightarrow> c_name c' = c_name c \<and> (\<exists>evs. c_log c' = c_log c @ evs \<and> set evs \<subseteq> S)"

lemma sends_refl [simp, intro]: "sends S c c"
  by (simp add: sends_def)

lemma sends_trans: "sends S a b \<Longrightarrow> sends S b c \<Longrightarrow> sends S a c"
  by (auto simp: sends_def)

lemma sends_mono: "sends S a b \<Longrightarrow> S \<subseteq> T \<Longrightarrow> sends T a b"
  by (auto simp: sends_def)

lemma sends_upd [simp]:
  "sends S (c\<lparr>c_tls := x\<rparr>) c' = sends S c c'" "sends S c (c'\<lparr>c_tls := x\<rparr>) = sends S c c'"
  "sends S (c\<lparr>c_ext := y\<rparr>) c' = sends S c c'" "sends S c (c'\<lparr>c_ext := y\<rparr>) = sends S c c'"
  "sends S (c\<lparr>c_hello := z\<rparr>) c' = sends S c c'" "sends S c (c'\<lparr>c_hello := z\<rparr>) = sends S c c'"
  "sends S (c\<lparr>c_hello_err := u\<rparr>) c' = sends S c c'" "sends S c (c'\<lparr>c_hello_err := u\<rparr>) = sends S c c'"
  by (simp_all add: sends_def)

lemma ask_log: "snd (ask peer ev n c) = c\<lparr>c_log := c_log c @ [ev]\<rparr>"
  by (auto simp: ask_def Let_def split: sum.split prod.split)

lemma ask_sends: "ev \<in> S \<Longrightarrow> sends S c (snd (ask peer ev n c))"
  by (simp add: ask_log sends_def)

lemma ask_eqD: "ask peer ev n c = (r, c') \<Longrightarrow> c' = c\<lparr>c_log := c_log c @ [ev]\<rparr>"
  using ask_log [of peer ev n c] by simp

lemma ask_Inr:
  "ask peer ev n c = (Inr (code, msg), c') \<Longrightarrow>
     peer (c_log c @ [ev]) = Inr (code, msg) \<and> code_ok n code \<and> c' = c\<lparr>c_log := c_log c @ [ev]\<rparr>"
  by (auto simp: ask_def Let_def split: sum.splits prod.splits if_splits)

definition hello_events :: "event set" where
  "hello_events = {Cmd ''EHLO localhost'', Cmd ''HELO localhost''}"

lemma ehlo_sends: "sends hello_events c (snd (ehlo peer c))" "c_tls (snd (ehlo peer c)) = c_tls c"
  by (auto simp: ehlo_def sends_def hello_events_def dest!: ask_eqD split: prod.splits sum.splits)

lemma helo_sends: "sends hello_events c (snd (helo peer c))" "c_tls (snd (helo peer c)) = c_tls c"
  by (auto simp: helo_def sends_def hello_events_def dest!: ask_eqD split: prod.splits sum.splits)

lemma hello_sends: "sends hello_events c (snd (hello peer c))" "c_tls (snd (hello peer c)) = c_tls c"
proof -
  obtain r1 c1 where 1: "ehlo peer (c\<lparr>c_hello := True\<rparr>) = (r1, c1)" by fastforce
  obtain r2 c2 where 2: "helo peer c1 = (r2, c2)" by fastforce
  have "sends hello_events c c1" "c_tls c1 = c_tls c" "sends hello_events c1 c2" "c_tls c2 = c_tls c1"
    using ehlo_sends [where c = "c\<lparr>c_hello := True\<rparr>" and peer = peer] helo_sends [where c = c1 and peer = peer] 1 2 by simp_all
  then show "sends hello_events c (snd (hello peer c))" "c_tls (snd (hello peer c)) = c_tls c"
    by (auto simp: hello_def 1 2 split: sum.split intro: sends_trans)
qed

lemma hello_eqD: "hello peer c = (r, c') \<Longrightarrow> sends hello_events c c' \<and> c_tls c' = c_tls c"
  using hello_sends [where c = c and peer = peer] by simp

lemma Extension_eqD: "Extension peer x c = (r, c') \<Longrightarrow> sends hello_events c c' \<and> c_tls c' = c_tls c"
  by (auto simp: Extension_def dest: hello_eqD split: prod.splits option.splits)

definition session_events :: "event set" where
  "session_events = hello_events \<union> {Cmd ''QUIT'', Cmd ''*''}"

lemma sends_snoc: "sends S c c' \<Longrightarrow> ev \<in> S \<Longrightarrow> sends S c (c'\<lparr>c_log := c_log c' @ [ev]\<rparr>)"
  by (auto simp: sends_def)

lemma Quit_sends: "sends session_events c (snd (Quit peer c))" "c_tls (snd (Quit peer c)) = c_tls c"
proof -
  obtain r c1 where 1: "hello peer c = (r, c1)" by fastforce
  have s: "sends session_events c c1" "c_tls c1 = c_tls c"
    using hello_eqD [OF 1] by (auto simp: session_events_def intro: sends_mono)
  show "sends session_events c (snd (Quit peer c))" "c_tls (snd (Quit peer c)) = c_tls c"
    using s sends_snoc [OF s(1), of "Cmd ''QUIT''"]
    by (auto simp: Quit_def 1 cmd_line_def session_events_def dest!: ask_eqD split: option.split prod.splits sum.splits)
qed

definition auth_line :: "plain_auth \<Rightarrow> string" where
  "auth_line a = auth_cmd ([CHR 0x00] @ pa_user a @ [CHR 0x00] @ pa_password a)"

text \<open>AUTH is sent over TLS or to the local host, and nothing else than it that carries secrets.\<close>

lemma Auth_sends_in:
  assumes S: "session_events \<subseteq> S" "c_tls c \<or> isLocalhost (c_name c) \<Longrightarrow> Cmd (auth_line a) \<in> S"
  shows "sends S c (snd (Auth peer bad64 a c))"
proof -
  obtain r c1 where 1: "hello peer c = (r, c1)" by fastforce
  have s: "sends S c c1" and f: "c_tls c1 = c_tls c" "c_name c1 = c_name c"
    using hello_eqD [OF 1] S(1) by (auto simp: session_events_def sends_def)
  have q: "sends S c (snd (Quit peer c'))" if "sends S c c'" for c'
    using that sends_mono [OF Quit_sends(1) S(1)] by (rule sends_trans)
  show ?thesis
  proof (cases "plain_Start a c1")
    case (Inl er)
    then show ?thesis using s q by (simp add: Auth_def 1 split: option.split)
  next
    case (Inr resp)
    then have resp: "auth_cmd resp = auth_line a" "Cmd (auth_line a) \<in> S"
      using f S(2) by (auto simp: plain_Start_def auth_line_def split: if_splits)
    obtain x c2 where 2: "cmd_line peer 0 (auth_line a) c1 = (x, c2)" by fastforce
    obtain y c3 where 3: "cmd_line peer 501 ''*'' c2 = (y, c3)" by fastforce
    have s2: "sends S c c2"
      using sends_snoc [OF s resp(2)] ask_eqD [OF 2 [unfolded cmd_line_def]] by simp
    have "sends S c c3"
      using sends_snoc [OF s2, of "Cmd ''*''"] ask_eqD [OF 3 [unfolded cmd_line_def]] S(1)
      by (auto simp: session_events_def)
    then show ?thesis
      using s s2 q by (simp add: Auth_def 1 Inr resp(1) 2 3 Let_def split: option.split sum.split prod.split)
  qed
qed

lemma Auth_sends:
  "sends (session_events \<union> (if c_tls c \<or> isLocalhost (c_name c) then {Cmd (auth_line a)} else {})) c
     (snd (Auth peer bad64 a c))"
  by (rule Auth_sends_in) auto

lemma snd_wrapf [simp]: "snd (wrapf p r) = snd r"
  by (simp add: wrapf_def)

lemma snd_unit_result [simp]: "snd (unit_result r) = snd r"
  by (simp add: unit_result_def)

lemma doAuth_sends:
  "sends (session_events \<union> (if c_tls c \<or> isLocalhost (c_name c) then {Cmd (auth_line a)} else {})) c
     (snd (doAuth peer bad64 a c))"
proof -
  obtain b c1 where 1: "Extension peer ''AUTH'' c = (b, c1)" by fastforce
  have "sends session_events c c1" "c_tls c1 = c_tls c" "c_name c1 = c_name c"
    using Extension_eqD [OF 1] by (auto simp: session_events_def sends_def)
  then show ?thesis
    using Auth_sends [of c1 a peer bad64] by (auto simp: doAuth_def 1 intro: sends_trans sends_mono split: bool.split)
qed

lemma authOverConn_sends:
  "sends (session_events \<union> (if c_tls c \<or> isLocalhost (c_name c) then {Cmd (auth_line a)} else {})) c
     (snd (authOverConn peer bad64 a c))"
proof -
  obtain r c1 where 1: "doAuth peer bad64 a c = (r, c1)" by fastforce
  then show ?thesis
    using doAuth_sends [of c a peer bad64] Quit_sends(1) [where c = c1 and peer = peer]
    by (auto simp: authOverConn_def intro: sends_trans sends_mono split: sum.split)
qed

definition upgrade_events :: "string \<Rightarrow> event set" where
  "upgrade_events host = hello_events \<union> {Cmd ''STARTTLS'', Handshake host}"

text \<open>A TLS handshake with the right name that the peer completed.\<close>

definition tls_done :: "peer \<Rightarrow> string \<Rightarrow> event list \<Rightarrow> bool" where
  "tls_done peer host log \<longleftrightarrow>
     (\<exists>p ev q. log = p @ ev # q \<and> (ev = Handshake host \<or> (\<exists>addr. ev = DialTLS addr host)) \<and>
        \<not> isl (peer (p @ [ev])))"

lemma tls_done_append: "tls_done peer host log \<Longrightarrow> tls_done peer host (log @ evs)"
  unfolding tls_done_def by fastforce

lemma upgrade_sends:
  "sends (upgrade_events host) c (snd (upgrade peer host c)) \<and>
   (fst (upgrade peer host c) = Inr () \<longrightarrow>
      c_tls (snd (upgrade peer host c)) \<and> tls_done peer host (c_log (snd (upgrade peer host c))))"
proof -
  obtain b c1 where 1: "Extension peer ''STARTTLS'' c = (b, c1)" by fastforce
  obtain r c2 where 2: "hello peer c1 = (r, c2)" by fastforce
  obtain x c3 where 3: "cmd_line peer 220 ''STARTTLS'' c2 = (x, c3)" by fastforce
  obtain y c4 where 4: "ask peer (Handshake host) 0 c3 = (y, c4)" by fastforce
  obtain z c5 where 5: "ehlo peer (c4\<lparr>c_tls := True\<rparr>) = (z, c5)" by fastforce
  have s2: "sends (upgrade_events host) c c2"
    using Extension_eqD [OF 1] hello_eqD [OF 2] by (auto simp: upgrade_events_def intro: sends_trans sends_mono)
  have s3: "sends (upgrade_events host) c c3"
    using sends_snoc [OF s2, of "Cmd ''STARTTLS''"] ask_eqD [OF 3 [unfolded cmd_line_def]]
    by (simp add: upgrade_events_def)
  have s4: "sends (upgrade_events host) c c4"
    using sends_snoc [OF s3, of "Handshake host"] ask_eqD [OF 4] by (simp add: upgrade_events_def)
  have e5: "sends hello_events c4 c5" "c_tls c5" using ehlo_sends [where c = "c4\<lparr>c_tls := True\<rparr>" and peer = peer] 5 by simp_all
  have s5: "sends (upgrade_events host) c c5"
    using s4 e5 by (auto simp: upgrade_events_def intro: sends_trans sends_mono)
  have s1: "sends (upgrade_events host) c c1"
    using Extension_eqD [OF 1] by (auto simp: upgrade_events_def intro: sends_mono)
  have tls: "tls_done peer host (c_log c5)" if "y = Inr (code, msg)" for code msg
  proof -
    have a: "peer (c_log c3 @ [Handshake host]) = Inr (code, msg)" "c_log c4 = c_log c3 @ [Handshake host]"
      using ask_Inr [OF 4 [unfolded that]] by simp_all
    obtain evs where "c_log c5 = c_log c4 @ evs" using e5(1) by (auto simp: sends_def)
    then have "c_log c5 = c_log c3 @ Handshake host # evs" using a(2) by simp
    then show ?thesis using a(1) unfolding tls_done_def by (metis isl_def sum.distinct(1))
  qed
  show ?thesis
    using s1 s2 s3 s4 s5 tls e5(2)
    by (cases b; cases r; cases x; cases y; cases z)
      (auto simp: upgrade_def 1 StartTLS_def 2 3 4 5 wrapf_def)
qed

definition mail_events :: "string \<Rightarrow> string \<Rightarrow> string \<Rightarrow> event set" where
  "mail_events sender rcpt msg =
     {Cmd (''MAIL FROM:<'' @ sender @ ''>'' @ x) | x. True} \<union>
     (if validateLine sender = None \<and> validateLine rcpt = None
      then {Cmd (''RCPT TO:<'' @ rcpt @ ''>''), Cmd ''DATA'', Body msg, EndData} else {})"

lemma Mail_eqD:
  assumes "Mail peer sender c = (r, c')" "session_events \<union> mail_events sender rcpt msg \<subseteq> S"
  shows "sends S c c' \<and> (r = Inr () \<longrightarrow> validateLine sender = None)"
proof -
  obtain h c1 where 1: "hello peer c = (h, c1)" by fastforce
  have s: "sends S c c1"
    using hello_eqD [OF 1] assms(2) by (auto simp: session_events_def intro: sends_mono)
  have "Cmd (''MAIL FROM:<'' @ sender @ ''>'' @ x) \<in> S" for x
    using assms(2) by (auto simp: mail_events_def)
  from sends_snoc [OF s this] show ?thesis
    using assms(1) s by (auto simp: Mail_def 1 cmd_line_def dest!: ask_eqD split: option.splits prod.splits sum.splits)
qed

lemma Rcpt_eqD:
  assumes "Rcpt peer rcpt c = (r, c')" "validateLine sender = None" "session_events \<union> mail_events sender rcpt msg \<subseteq> S"
  shows "sends S c c' \<and> (r = Inr () \<longrightarrow> validateLine rcpt = None)"
proof -
  have "Cmd (''RCPT TO:<'' @ rcpt @ ''>'') \<in> S" if "validateLine rcpt = None"
    using assms(2,3) that by (auto simp: mail_events_def)
  from sends_snoc [OF sends_refl this] show ?thesis
    using assms(1) by (auto simp: Rcpt_def cmd_line_def dest!: ask_eqD split: option.splits prod.splits sum.splits)
qed

lemma wrapf_eqD: "wrapf p x = (Inr a, c') \<Longrightarrow> x = (Inr a, c')" "wrapf p x = (Inl er, c') \<Longrightarrow> \<exists>er'. x = (Inl er', c')"
  by (cases x; cases "fst x"; auto simp: wrapf_def)+

lemma unit_result_eqD: "unit_result x = (Inr (), c') \<Longrightarrow> \<exists>a. x = (Inr a, c')" "unit_result x = (r, c') \<Longrightarrow> snd x = c'"
  by (cases x; cases "fst x"; auto simp: unit_result_def)+

lemma dataSend_sends:
  "sends (session_events \<union> mail_events sender rcpt msg) c (snd (dataSend peer sender rcpt msg c))"
proof -
  let ?S = "session_events \<union> mail_events sender rcpt msg"
  obtain r1 c1 where 1: "Mail peer sender c = (r1, c1)" by fastforce
  note m1 = Mail_eqD [OF 1 order_refl]
  obtain r2 c2 where 2: "Rcpt peer rcpt c1 = (r2, c2)" by fastforce
  obtain c3 c4 c5 where e: "c3 = snd (Data peer c2)" "c4 = snd (data_Write peer msg c3)" "c5 = snd (data_Close peer c4)" by simp
  have s1: "sends ?S c c1" using m1 by simp
  show ?thesis
  proof (cases "r1 = Inr ()")
    case False
    then show ?thesis using s1 by (cases r1) (auto simp: dataSend_def 1 wrapf_def)
  next
    case True
    note m2 = Rcpt_eqD [OF 2 _ order_refl, of sender msg]
    have s2: "sends ?S c c2" using m1 m2 True by (auto intro: sends_trans)
    show ?thesis
    proof (cases "r2 = Inr ()")
      case False
      then show ?thesis using s2 True by (cases r2) (auto simp: dataSend_def 1 2 wrapf_def)
    next
      case ok: True
      have ev: "Cmd ''DATA'' \<in> ?S" "Body msg \<in> ?S" "EndData \<in> ?S"
        using m1 m2 True ok by (auto simp: mail_events_def)
      have s3: "sends ?S c c3" using sends_snoc [OF s2 ev(1)] by (simp add: e(1) Data_def cmd_line_def ask_log)
      have s4: "sends ?S c c4" using sends_snoc [OF s3 ev(2)] by (simp add: e(2) data_Write_def ask_log)
      have s5: "sends ?S c c5" using sends_snoc [OF s4 ev(3)] by (simp add: e(3) data_Close_def ask_log)
      have s6: "sends ?S c (snd (Quit peer c5))"
        by (rule sends_trans [OF s5 sends_mono [OF Quit_sends(1)]]) simp
      obtain r3 r4 r5 where "Data peer c2 = (r3, c3)" "data_Write peer msg c3 = (r4, c4)" "data_Close peer c4 = (r5, c5)"
        using e by (metis prod.collapse)
      then show ?thesis
        using s3 s4 s5 s6 True ok by (auto simp: dataSend_def 1 2 wrapf_def split: sum.split)
    qed
  qed
qed

lemma smtpOverConn_sends:
  assumes "session_events \<union> mail_events sender rcpt msg \<subseteq> S" "c_tls c \<or> isLocalhost (c_name c) \<Longrightarrow> Cmd (auth_line a) \<in> S"
  shows "sends S c (snd (smtpOverConn peer bad64 a sender rcpt msg c))"
proof -
  obtain r c1 where 1: "doAuth peer bad64 a c = (r, c1)" by fastforce
  have "sends S c c1" using doAuth_sends [of c a peer bad64] 1 assms by (auto intro: sends_mono split: if_splits)
  moreover have "sends S c1 (snd (dataSend peer sender rcpt msg c1))"
    by (rule sends_mono [OF dataSend_sends assms(1)])
  ultimately show ?thesis by (auto simp: smtpOverConn_def 1 intro: sends_trans split: sum.split)
qed

section \<open>The events of a connection\<close>

definition fresh_client :: "string \<Rightarrow> bool \<Rightarrow> event list \<Rightarrow> client" where
  "fresh_client host tls log =
     \<lparr>c_name = host, c_tls = tls, c_ext = None, c_hello = False, c_hello_err = None, c_log = log\<rparr>"

lemma dial_log:
  "snd (dial peer ev what (with_client peer host tls act)) \<in>
     {[ev], [ev, Greeting, Close], c_log (snd (act (fresh_client host tls [ev, Greeting]))) @ [Close]} \<and>
   (isl (peer [ev]) \<longrightarrow> snd (dial peer ev what (with_client peer host tls act)) = [ev])"
  by (auto simp: dial_def with_client_def NewClient_def Let_def finish_def close_def fresh_client_def isl_def
      dest!: ask_eqD split: sum.splits prod.splits)

definition is_auth :: "event \<Rightarrow> bool" where
  "is_auth ev \<longleftrightarrow> (case ev of Cmd l \<Rightarrow> prefix ''AUTH'' l | _ \<Rightarrow> False)"

lemma not_auth [simp]:
  "\<not> is_auth (DialTCP a)" "\<not> is_auth (DialTLS a h)" "\<not> is_auth Greeting" "\<not> is_auth Close"
  "ev \<in> session_events \<Longrightarrow> \<not> is_auth ev" "ev \<in> upgrade_events host \<Longrightarrow> \<not> is_auth ev"
  "ev \<in> mail_events f t m \<Longrightarrow> \<not> is_auth ev"
  by (auto simp: is_auth_def session_events_def hello_events_def upgrade_events_def mail_events_def split: if_splits)

definition auth_over_tls :: "peer \<Rightarrow> string \<Rightarrow> event list \<Rightarrow> bool" where
  "auth_over_tls peer host log \<longleftrightarrow>
     (\<forall>pre ev post. log = pre @ ev # post \<longrightarrow> is_auth ev \<longrightarrow> tls_done peer host pre)"

lemma auth_over_tls_none: "\<forall>ev \<in> set log. \<not> is_auth ev \<Longrightarrow> auth_over_tls peer host log"
  by (auto simp: auth_over_tls_def)

lemma auth_over_tls_append:
  assumes "\<forall>ev \<in> set A. \<not> is_auth ev" "tls_done peer host A"
  shows "auth_over_tls peer host (A @ B)"
  unfolding auth_over_tls_def
proof (intro allI impI)
  fix pre ev post
  assume e: "A @ B = pre @ ev # post" and a: "is_auth ev"
  then consider us where "A = pre @ us" "us @ B = ev # post" | us where "pre = A @ us"
    by (auto simp: append_eq_append_conv2)
  then show "tls_done peer host pre"
  proof cases
    case 1
    then have "us = []" using assms(1) a by (cases us) auto
    then show ?thesis using 1 assms(2) by simp
  next
    case 2
    then show ?thesis using tls_done_append [OF assms(2)] by simp
  qed
qed

lemma tls_dial_safe:
  assumes "\<And>c. c_log c \<noteq> [] \<Longrightarrow> \<exists>evs. c_log (snd (act c)) = c_log c @ evs"
  shows "auth_over_tls peer host (snd (dial peer (DialTLS addr host) what (with_client peer host tls act)))"
proof (cases "isl (peer [DialTLS addr host])")
  case True
  then show ?thesis using dial_log [of peer "DialTLS addr host" what host tls act] by (simp add: auth_over_tls_none)
next
  case False
  then have t: "tls_done peer host [DialTLS addr host]" unfolding tls_done_def by fastforce
  have "\<exists>evs. snd (dial peer (DialTLS addr host) what (with_client peer host tls act)) = [DialTLS addr host] @ evs"
    using dial_log [of peer "DialTLS addr host" what host tls act]
      assms [of "fresh_client host tls [DialTLS addr host, Greeting]"]
    by (auto simp: fresh_client_def)
  then show ?thesis using auth_over_tls_append [OF _ t] by auto
qed

lemma plain_dial_safe:
  assumes "sends S (fresh_client host False [DialTCP addr, Greeting]) (snd (act (fresh_client host False [DialTCP addr, Greeting])))"
    and "\<forall>ev \<in> S. \<not> is_auth ev"
  shows "auth_over_tls peer host (snd (dial peer (DialTCP addr) what (with_client peer host False act)))"
proof (rule auth_over_tls_none)
  obtain evs where "c_log (snd (act (fresh_client host False [DialTCP addr, Greeting]))) = [DialTCP addr, Greeting] @ evs"
      "set evs \<subseteq> S"
    using assms(1) by (auto simp: sends_def fresh_client_def)
  moreover from this(2) assms(2) have "\<forall>ev \<in> set evs. \<not> is_auth ev" by blast
  ultimately show "\<forall>ev \<in> set (snd (dial peer (DialTCP addr) what (with_client peer host False act))). \<not> is_auth ev"
    using dial_log [of peer "DialTCP addr" what host False act] by auto
qed

lemma upgrade_dial_safe:
  assumes "\<And>c. \<exists>evs. c_log (snd (k c)) = c_log c @ evs"
  shows "auth_over_tls peer host (snd (dial peer (DialTCP addr) what (with_client peer host False (\<lambda>c.
     case upgrade peer host c of (Inl er, c) \<Rightarrow> (Inl er, c) | (Inr _, c) \<Rightarrow> k c))))"
proof -
  let ?act = "\<lambda>c. case upgrade peer host c of (Inl er, c) \<Rightarrow> (Inl er, c) | (Inr _, c) \<Rightarrow> k c"
  let ?c = "fresh_client host False [DialTCP addr, Greeting]"
  obtain r c1 where u: "upgrade peer host ?c = (r, c1)" by fastforce
  obtain evs where evs: "c_log c1 = [DialTCP addr, Greeting] @ evs" "set evs \<subseteq> upgrade_events host"
    using upgrade_sends [of host ?c peer] u by (auto simp: sends_def fresh_client_def)
  have na: "\<forall>ev \<in> set (c_log c1). \<not> is_auth ev" using evs by auto
  have "auth_over_tls peer host (c_log (snd (?act ?c)) @ [Close])"
  proof (cases r)
    case (Inl er)
    then show ?thesis using na by (simp add: u auth_over_tls_none)
  next
    case (Inr x)
    then have "tls_done peer host (c_log c1)" using upgrade_sends [of host ?c peer] u by simp
    moreover obtain es where "c_log (snd (k c1)) = c_log c1 @ es" using assms by blast
    ultimately show ?thesis
      using auth_over_tls_append [OF na] by (simp add: u Inr)
  qed
  then show ?thesis
    using dial_log [of peer "DialTCP addr" what host False ?act]
      auth_over_tls_none [of "[DialTCP addr]" peer host] auth_over_tls_none [of "[DialTCP addr, Greeting, Close]" peer host]
    by auto
qed

lemma sends_log: "sends S c c' \<Longrightarrow> \<exists>evs. c_log c' = c_log c @ evs"
  by (auto simp: sends_def)

text \<open>The six ways a connection is used, with what it may send.\<close>

lemma auth_modes_safe:
  "auth_over_tls peer host (snd (authImplicitTLS peer bad64 addr host a))"
  "auth_over_tls peer host (snd (authSTARTTLS peer bad64 addr host a))"
  "\<not> isLocalhost host \<Longrightarrow> auth_over_tls peer host (snd (authPlain peer bad64 addr host a))"
proof -
  show "auth_over_tls peer host (snd (authImplicitTLS peer bad64 addr host a))"
    unfolding authImplicitTLS_def by (rule tls_dial_safe) (rule sends_log [OF authOverConn_sends])
  show "auth_over_tls peer host (snd (authSTARTTLS peer bad64 addr host a))"
    unfolding authSTARTTLS_def by (rule upgrade_dial_safe) (rule sends_log [OF doAuth_sends])
  assume h: "\<not> isLocalhost host"
  show "auth_over_tls peer host (snd (authPlain peer bad64 addr host a))"
    unfolding authPlain_def
    by (rule plain_dial_safe, rule authOverConn_sends) (simp add: fresh_client_def h)
qed

lemma send_modes_safe:
  "auth_over_tls peer host (snd (sendImplicitTLS peer bad64 addr host a sender rcpt msg))"
  "auth_over_tls peer host (snd (sendSTARTTLS peer bad64 addr host a sender rcpt msg))"
  "\<not> isLocalhost host \<Longrightarrow> auth_over_tls peer host (snd (sendPlain peer bad64 addr host a sender rcpt msg))"
proof -
  have s: "\<exists>evs. c_log (snd (smtpOverConn peer bad64 a sender rcpt msg c)) = c_log c @ evs" for c
    by (rule sends_log [OF smtpOverConn_sends [of sender rcpt msg UNIV]]) auto
  show "auth_over_tls peer host (snd (sendImplicitTLS peer bad64 addr host a sender rcpt msg))"
    unfolding sendImplicitTLS_def by (rule tls_dial_safe) (rule s)
  show "auth_over_tls peer host (snd (sendSTARTTLS peer bad64 addr host a sender rcpt msg))"
    unfolding sendSTARTTLS_def smtpOverConn_def [symmetric] by (rule upgrade_dial_safe) (rule s)
  assume h: "\<not> isLocalhost host"
  show "auth_over_tls peer host (snd (sendPlain peer bad64 addr host a sender rcpt msg))"
    unfolding sendPlain_def
    by (rule plain_dial_safe [where S = "session_events \<union> mail_events sender rcpt msg"],
        rule smtpOverConn_sends) (auto simp: fresh_client_def h)
qed

section \<open>Properties\<close>

text \<open>The request fields both entry points insist on before they open a connection.\<close>

definition valid_target :: "string \<Rightarrow> int \<Rightarrow> string \<Rightarrow> string \<Rightarrow> bool" where
  "valid_target host port user password \<longleftrightarrow>
     TrimSpace host \<noteq> [] \<and> 1 \<le> port \<and> port \<le> 65535 \<and> TrimSpace user \<noteq> [] \<and> password \<noteq> []"

lemma CheckAuth_run:
  assumes "CheckAuth peer bad64 req = (res, log)"
  defines "host \<equiv> TrimSpace (ac_host req)" and "sec \<equiv> normalizeSecurity (ac_security req)"
  shows "log = [] \<and> \<not> a_ok res \<or>
    valid_target (ac_host req) (ac_port req) (ac_username req) (ac_password req) \<and>
    (\<exists>addr a. log = (if sec = ''ssl'' then snd (authImplicitTLS peer bad64 addr host a)
        else if sec = ''none'' then snd (authPlain peer bad64 addr host a)
        else snd (authSTARTTLS peer bad64 addr host a)))"
proof (cases "valid_target (ac_host req) (ac_port req) (ac_username req) (ac_password req)")
  case False
  then have "log = [] \<and> \<not> a_ok res"
    using assms(1) by (auto simp: CheckAuth_def valid_target_def check_fail_def Let_def split: if_splits)
  then show ?thesis by blast
next
  case True
  define addr where "addr = JoinHostPort host (Itoa (ac_port req))"
  define a where "a = \<lparr>pa_user = TrimSpace (ac_username req), pa_password = ac_password req, pa_host = host\<rparr>"
  define rl where "rl = (if sec = ''ssl'' then authImplicitTLS peer bad64 addr host a
             else if sec = ''none'' then authPlain peer bad64 addr host a
             else authSTARTTLS peer bad64 addr host a)"
  have "snd (CheckAuth peer bad64 req) = snd rl"
    using True unfolding valid_target_def
    by (auto simp: CheckAuth_def Let_def host_def [symmetric] sec_def [symmetric] addr_def [symmetric]
        a_def [symmetric] rl_def [symmetric] split: prod.split sum.split)
  then have "log = snd rl" using assms(1) by simp
  then show ?thesis using True unfolding rl_def by auto
qed

definition send_by :: "peer \<Rightarrow> (string \<Rightarrow> string option) \<Rightarrow> string \<Rightarrow> string \<Rightarrow> string \<Rightarrow> plain_auth \<Rightarrow> string \<Rightarrow> string \<Rightarrow> string
    \<Rightarrow> (go_error + unit) \<times> event list" where
  "send_by peer bad64 sec addr host a sender rcpt msg =
     (if sec = ''ssl'' then sendImplicitTLS peer bad64 addr host a sender rcpt msg
      else if sec = ''none'' then sendPlain peer bad64 addr host a sender rcpt msg
      else sendSTARTTLS peer bad64 addr host a sender rcpt msg)"

lemma RunTest_run:
  assumes "RunTest e rfc3339 peer bad64 req w = ((res, log), w')"
  defines "host \<equiv> TrimSpace (rq_host req)" and "sec \<equiv> normalizeSecurity (rq_security req)"
    and "sender \<equiv> TrimSpace (rq_from req)" and "rcpt \<equiv> TrimSpace (rq_to req)"
  shows "log = [] \<and> \<not> r_ok res \<or>
    valid_target (rq_host req) (rq_port req) (rq_username req) (rq_password req) \<and>
    looksLikeEmail sender \<and> looksLikeEmail rcpt \<and>
    (\<exists>addr a subject body r. length subject \<le> 200 \<and> length body \<le> 20000 \<and>
       send_by peer bad64 sec addr host a sender rcpt (message sender rcpt subject (rq_html req) body) = (r, log) \<and>
       (r_ok res \<longleftrightarrow> r = Inr ()))"
proof (cases "valid_target (rq_host req) (rq_port req) (rq_username req) (rq_password req) \<and>
    sender \<noteq> [] \<and> rcpt \<noteq> [] \<and> looksLikeEmail sender \<and> looksLikeEmail rcpt")
  case False
  then have "log = [] \<and> \<not> r_ok res"
    using assms(1) unfolding valid_target_def sender_def rcpt_def
    by (auto simp: RunTest_def Let_def split: if_splits)
  then show ?thesis by blast
next
  case True
  define subject where "subject = (if TrimSpace (rq_subject req) = [] then ''SMTP test from tools.riyanathariq.space''
    else TrimSpace (rq_subject req))"
  define body where "body = (if TrimSpace (rq_text req) = [] then default_body rfc3339 (go_Now e (Suc (tick w)))
    else TrimSpace (rq_text req))"
  define addr where "addr = JoinHostPort host (Itoa (rq_port req))"
  define a where "a = \<lparr>pa_user = TrimSpace (rq_username req), pa_password = rq_password req, pa_host = host\<rparr>"
  define rl where "rl = send_by peer bad64 sec addr host a sender rcpt (message sender rcpt subject (rq_html req) body)"
  obtain r lg where rl: "rl = (r, lg)" by fastforce
  have "fst (RunTest e rfc3339 peer bad64 req w) = (res, log)" using assms(1) by simp
  then have "if 200 < length subject \<or> 20000 < length body then log = [] \<and> \<not> r_ok res
    else lg = log \<and> (r_ok res \<longleftrightarrow> r = Inr ())"
    using True rl unfolding valid_target_def rl_def
    unfolding RunTest_def Let_def host_def [symmetric] sec_def [symmetric] sender_def [symmetric]
      rcpt_def [symmetric] step_def time_Now_def prod.case subject_def [symmetric] send_by_def [symmetric]
      addr_def [symmetric] a_def [symmetric]
    by (cases "TrimSpace (rq_text req) = []")
      (auto simp: body_def split: sum.splits if_splits)
  then consider "log = [] \<and> \<not> r_ok res"
    | "length subject \<le> 200" "length body \<le> 20000" "lg = log" "r_ok res \<longleftrightarrow> r = Inr ()"
    by (auto split: if_splits)
  then show ?thesis
  proof cases
    case 2
    then show ?thesis
      using True rl unfolding rl_def
      by (intro disjI2 conjI exI [of _ addr] exI [of _ a] exI [of _ subject] exI [of _ body] exI [of _ r]) simp_all
  qed simp
qed

text \<open>
  C9. Passwords need TLS: whatever the server answers, an AUTH command of the credential
  check or of the test message goes out only after a completed TLS handshake with the
  requested host, unless the user chose no security and the host is the local one.
\<close>

theorem passwords_need_tls:
  assumes "\<not> (normalizeSecurity (rq_security req) = ''none'' \<and> isLocalhost (TrimSpace (rq_host req)))"
    and "\<not> (normalizeSecurity (ac_security chk) = ''none'' \<and> isLocalhost (TrimSpace (ac_host chk)))"
  shows "auth_over_tls peer (TrimSpace (rq_host req)) (snd (fst (RunTest e rfc3339 peer bad64 req w))) \<and>
    auth_over_tls peer (TrimSpace (ac_host chk)) (snd (CheckAuth peer bad64 chk))"
proof
  obtain res log w' where r: "RunTest e rfc3339 peer bad64 req w = ((res, log), w')" by (metis prod.collapse)
  have "auth_over_tls peer (TrimSpace (rq_host req)) log"
    using RunTest_run [OF r] assms(1) send_modes_safe [where peer = peer and host = "TrimSpace (rq_host req)"]
    by (auto simp: send_by_def auth_over_tls_none split: if_splits) (metis snd_conv)+
  then show "auth_over_tls peer (TrimSpace (rq_host req)) (snd (fst (RunTest e rfc3339 peer bad64 req w)))"
    by (simp add: r)
next
  obtain res log where r: "CheckAuth peer bad64 chk = (res, log)" by fastforce
  have "auth_over_tls peer (TrimSpace (ac_host chk)) log"
    using CheckAuth_run [OF r] assms(2) auth_modes_safe [where peer = peer and host = "TrimSpace (ac_host chk)"]
    by (auto simp: auth_over_tls_none split: if_splits)
  then show "auth_over_tls peer (TrimSpace (ac_host chk)) (snd (CheckAuth peer bad64 chk))" by (simp add: r)
qed

definition demo_request :: smtp_request where
  "demo_request = \<lparr>rq_host = ''mail.x.org'', rq_port = 25, rq_security = ''none'', rq_username = ''u'', rq_password = ''p'',
     rq_from = ''a@x.org'', rq_to = ''b@x.org'', rq_subject = [], rq_text = ''hi'', rq_html = False\<rparr>"

definition demo_check :: auth_check_request where
  "demo_check = \<lparr>ac_host = ''localhost'', ac_port = 25, ac_security = [], ac_username = ''u'', ac_password = ''p''\<rparr>"

theorem passwords_need_tls_witness:
  "auth_over_tls (\<lambda>_. Inr (250, [])) (TrimSpace (rq_host demo_request))
     (snd (fst (RunTest (demo_env 0) (\<lambda>_. []) (\<lambda>_. Inr (250, [])) (\<lambda>_. None) demo_request (demo_world empty_db))))"
proof -
  have "\<not> isLocalhost (TrimSpace (rq_host demo_request))" by code_simp
  moreover have "normalizeSecurity (ac_security demo_check) \<noteq> ''none''" by code_simp
  ultimately show ?thesis
    using passwords_need_tls [of demo_request demo_check] by blast
qed

text \<open>What belongs to sending a message.\<close>

definition mail_event :: "event \<Rightarrow> bool" where
  "mail_event ev \<longleftrightarrow>
     (case ev of
        Cmd l \<Rightarrow> prefix ''MAIL'' l \<or> prefix ''RCPT'' l \<or> prefix ''DATA'' l
      | Body _ \<Rightarrow> True | EndData \<Rightarrow> True | _ \<Rightarrow> False)"

lemma auth_cmd_no_mail: "\<not> mail_event (Cmd (auth_cmd resp))"
proof -
  have "prefix (auth_cmd resp) (''AUTH PLAIN '' @ StdEncoding resp)"
    unfolding auth_cmd_def by (rule TrimSpace_prefix) (simp_all add: plain_byte_def)
  then show ?thesis by (auto simp: mail_event_def prefix_def Cons_eq_append_conv)
qed

lemma no_mail [simp]:
  "\<not> mail_event (DialTCP a)" "\<not> mail_event (DialTLS a h)" "\<not> mail_event Greeting" "\<not> mail_event Close"
  "\<not> mail_event (Cmd (auth_line a'))"
  "ev \<in> session_events \<Longrightarrow> \<not> mail_event ev" "ev \<in> upgrade_events host \<Longrightarrow> \<not> mail_event ev"
  using auth_cmd_no_mail
  by (auto simp: mail_event_def session_events_def hello_events_def upgrade_events_def auth_line_def)

lemma no_mail_dial:
  assumes "sends S (fresh_client host tls [ev, Greeting]) (snd (act (fresh_client host tls [ev, Greeting])))"
    and "\<forall>e \<in> S. \<not> mail_event e" and "\<not> mail_event ev"
  shows "\<forall>e \<in> set (snd (dial peer ev what (with_client peer host tls act))). \<not> mail_event e"
proof -
  obtain evs where "c_log (snd (act (fresh_client host tls [ev, Greeting]))) = [ev, Greeting] @ evs" "set evs \<subseteq> S"
    using assms(1) by (auto simp: sends_def fresh_client_def)
  moreover from this(2) assms(2) have "\<forall>e \<in> set evs. \<not> mail_event e" by blast
  ultimately show ?thesis using dial_log [of peer ev what host tls act] assms(3) by auto
qed

lemma upgrade_then_auth_sends:
  "sends (session_events \<union> upgrade_events host \<union> {Cmd (auth_line a)}) c
     (snd (case upgrade peer host c of (Inl er, c) \<Rightarrow> (Inl er, c) | (Inr _, c) \<Rightarrow> doAuth peer bad64 a c))"
proof -
  obtain r c1 where u: "upgrade peer host c = (r, c1)" by fastforce
  have "sends (session_events \<union> upgrade_events host \<union> {Cmd (auth_line a)}) c c1"
    using upgrade_sends [of host c peer] u by (auto intro: sends_mono)
  moreover have "sends (session_events \<union> upgrade_events host \<union> {Cmd (auth_line a)}) c1 (snd (doAuth peer bad64 a c1))"
    using doAuth_sends [of c1 a peer bad64] by (rule sends_mono) auto
  ultimately show ?thesis by (auto simp: u intro: sends_trans split: sum.split)
qed

text \<open>
  The credential check sends no mail: its connection has no MAIL, RCPT or DATA command
  and no message, whatever the server answers.
\<close>

theorem credential_check_sends_no_mail:
  "filter mail_event (snd (CheckAuth peer bad64 chk)) = []"
proof -
  obtain res log where r: "CheckAuth peer bad64 chk = (res, log)" by fastforce
  have 1: "\<forall>e \<in> set (snd (authImplicitTLS peer bad64 addr host a)). \<not> mail_event e" for addr host a
    unfolding authImplicitTLS_def by (rule no_mail_dial, rule authOverConn_sends) auto
  have 2: "\<forall>e \<in> set (snd (authPlain peer bad64 addr host a)). \<not> mail_event e" for addr host a
    unfolding authPlain_def by (rule no_mail_dial, rule authOverConn_sends) auto
  have 3: "\<forall>e \<in> set (snd (authSTARTTLS peer bad64 addr host a)). \<not> mail_event e" for addr host a
    unfolding authSTARTTLS_def by (rule no_mail_dial, rule upgrade_then_auth_sends) auto
  have "\<forall>ev \<in> set log. \<not> mail_event ev"
    using CheckAuth_run [OF r] 1 2 3 by (auto split: if_splits)
  then show ?thesis by (simp add: r filter_empty_conv)
qed

section \<open>Accepted messages\<close>

lemma hello_done: "c_hello (snd (hello peer c))"
proof -
  have e: "c_hello (snd (ehlo peer c)) = c_hello c" for c
    by (auto simp: ehlo_def dest!: ask_eqD split: prod.splits sum.splits)
  have h: "c_hello (snd (helo peer c)) = c_hello c" for c
    by (auto simp: helo_def dest!: ask_eqD split: prod.splits sum.splits)
  obtain r1 c1 where 1: "ehlo peer (c\<lparr>c_hello := True\<rparr>) = (r1, c1)" by fastforce
  obtain r2 c2 where 2: "helo peer c1 = (r2, c2)" by fastforce
  show ?thesis
    using e [of "c\<lparr>c_hello := True\<rparr>"] h [of c1] 1 2 by (auto simp: hello_def split: sum.split)
qed

lemma Quit_log:
  "c_hello c \<Longrightarrow> Quit peer c = (Inr (), c') \<Longrightarrow>
     c_log c' = c_log c @ [Cmd ''QUIT''] \<and> (\<exists>m. peer (c_log c @ [Cmd ''QUIT'']) = Inr (221, m))"
  by (auto simp: Quit_def hello_def cmd_line_def code_ok_def dest!: ask_Inr split: option.splits prod.splits sum.splits)

text \<open>The tail of a conversation in which the server took the message.\<close>

definition message_taken :: "peer \<Rightarrow> event list \<Rightarrow> string \<Rightarrow> event list \<Rightarrow> bool" where
  "message_taken peer p msg log \<longleftrightarrow>
     log = p @ [Cmd ''DATA'', Body msg, EndData, Cmd ''QUIT''] \<and>
     (\<exists>m. peer (p @ [Cmd ''DATA'']) = Inr (354, m)) \<and>
     (\<exists>m. peer (p @ [Cmd ''DATA'', Body msg, EndData]) = Inr (250, m)) \<and>
     (\<exists>m. peer (p @ [Cmd ''DATA'', Body msg, EndData, Cmd ''QUIT'']) = Inr (221, m))"

lemma dataSend_taken:
  assumes "dataSend peer sender rcpt msg c = (Inr (), c')"
  shows "validateLine sender = None \<and> validateLine rcpt = None \<and> (\<exists>p. message_taken peer p msg (c_log c'))"
proof -
  obtain c1 c2 c3 c4 c5 where
    1: "Mail peer sender c = (Inr (), c1)" and 2: "Rcpt peer rcpt c1 = (Inr (), c2)" and
    3: "Data peer c2 = (Inr (), c3)" and 4: "data_Write peer msg c3 = (Inr (), c4)" and
    5: "data_Close peer c4 = (Inr (), c5)" and 6: "Quit peer c5 = (Inr (), c')"
    using assms by (auto simp: dataSend_def dest!: wrapf_eqD split: prod.splits sum.splits)
  have v: "validateLine sender = None" "validateLine rcpt = None"
    using Mail_eqD [OF 1 order_refl] Rcpt_eqD [OF 2 _ order_refl] by auto
  have h1: "c_hello c1"
    using 1 hello_done [of peer c]
    by (auto simp: Mail_def cmd_line_def dest!: ask_eqD split: option.splits prod.splits sum.splits)
  have h2: "c_hello c2"
    using 2 h1 by (auto simp: Rcpt_def cmd_line_def dest!: ask_eqD split: option.splits prod.splits sum.splits)
  obtain m3 where d: "c3 = c2\<lparr>c_log := c_log c2 @ [Cmd ''DATA'']\<rparr>" "peer (c_log c2 @ [Cmd ''DATA'']) = Inr (354, m3)"
    using unit_result_eqD(1) [OF 3 [unfolded Data_def cmd_line_def]] by (auto simp: code_ok_def dest!: ask_Inr)
  have w: "c4 = c3\<lparr>c_log := c_log c3 @ [Body msg]\<rparr>"
    using unit_result_eqD(1) [OF 4 [unfolded data_Write_def]] by (auto dest!: ask_Inr)
  obtain m5 where e: "c5 = c4\<lparr>c_log := c_log c4 @ [EndData]\<rparr>" "peer (c_log c4 @ [EndData]) = Inr (250, m5)"
    using unit_result_eqD(1) [OF 5 [unfolded data_Close_def]] by (auto simp: code_ok_def dest!: ask_Inr)
  have h5: "c_hello c5" using h2 d(1) w e(1) by simp
  have "message_taken peer (c_log c2) msg (c_log c')"
    unfolding message_taken_def using d w e Quit_log [OF h5 6] by auto
  then show ?thesis using v by blast
qed

text \<open>
  C20. OK means delivered: when \<^verbatim>\<open>RunTest\<close> reports OK, the last things that happened on
  the connection are DATA answered with 354, the message with the From, To and Subject of
  the request, its end answered with 250 and QUIT answered with 221; and neither address
  contains a line break, so that the From and To headers are single lines.
\<close>

theorem ok_means_delivered:
  assumes "RunTest e rfc3339 peer bad64 req w = ((res, log), w')" and "r_ok res"
  shows "\<exists>p subject body.
    message_taken peer p (message (TrimSpace (rq_from req)) (TrimSpace (rq_to req)) subject (rq_html req) body) (butlast log) \<and>
    last log = Close \<and> length subject \<le> 200 \<and> length body \<le> 20000 \<and>
    validateLine (TrimSpace (rq_from req)) = None \<and> validateLine (TrimSpace (rq_to req)) = None"
proof -
  let ?f = "TrimSpace (rq_from req)" and ?t = "TrimSpace (rq_to req)"
  let ?host = "TrimSpace (rq_host req)" and ?sec = "normalizeSecurity (rq_security req)"
  obtain addr a subject body where b: "length subject \<le> 200" "length body \<le> 20000"
      "send_by peer bad64 ?sec addr ?host a ?f ?t (message ?f ?t subject (rq_html req) body) = (Inr (), log)"
    using RunTest_run [OF assms(1)] assms(2) by auto
  let ?msg = "message ?f ?t subject (rq_html req) body"
  have fin: "\<exists>c'. x = (Inr (), c') \<and> lg = c_log c' @ [Close]" if "finish x = (Inr (), lg)" for x lg
    using that by (cases x) (auto simp: finish_def close_def)
  have so: "\<exists>c1 c'. dataSend peer ?f ?t ?msg c1 = (Inr (), c') \<and> log = c_log c' @ [Close]"
    if "finish (smtpOverConn peer bad64 a ?f ?t ?msg c) = (Inr (), log)" for c
    using fin [OF that] by (auto simp: smtpOverConn_def split: prod.splits sum.splits)
  have "\<exists>c. finish (smtpOverConn peer bad64 a ?f ?t ?msg c) = (Inr (), log)"
    using b(3) by (auto simp: send_by_def sendImplicitTLS_def sendPlain_def sendSTARTTLS_def smtpOverConn_def [symmetric]
        dial_def with_client_def split: if_splits sum.splits prod.splits dest: fin)
  then have "\<exists>c c'. dataSend peer ?f ?t ?msg c = (Inr (), c') \<and> log = c_log c' @ [Close]" using so by blast
  then obtain c c' where "dataSend peer ?f ?t ?msg c = (Inr (), c')" "log = c_log c' @ [Close]" by blast
  then show ?thesis using dataSend_taken b(1,2) by fastforce
qed

text \<open>A server that accepts everything, for a closed example.\<close>

definition kind_peer :: peer where
  "kind_peer log =
     Inr (case last log of
            Greeting \<Rightarrow> (220, [])
          | EndData \<Rightarrow> (250, [])
          | Cmd l \<Rightarrow>
              if l = ''EHLO localhost'' then (250, ''ok'' @ [CHR 0x0A] @ ''AUTH PLAIN'')
              else if l = ''DATA'' then (354, [])
              else if l = ''QUIT'' then (221, [])
              else if prefix ''AUTH'' l then (235, [])
              else (250, [])
          | _ \<Rightarrow> (0, []))"

definition local_request :: smtp_request where
  "local_request = demo_request\<lparr>rq_host := ''localhost''\<rparr>"

lemma demo_run_ok:
  "r_ok (fst (fst (RunTest (demo_env 0) (\<lambda>_. []) kind_peer (\<lambda>_. None) local_request (demo_world empty_db))))"
  by code_simp

theorem ok_means_delivered_witness:
  "\<exists>p msg. message_taken kind_peer p msg (butlast (snd (fst (RunTest (demo_env 0) (\<lambda>_. []) kind_peer (\<lambda>_. None)
     local_request (demo_world empty_db)))))"
proof -
  obtain res log w' where r: "RunTest (demo_env 0) (\<lambda>_. []) kind_peer (\<lambda>_. None) local_request (demo_world empty_db)
      = ((res, log), w')" by (metis prod.collapse)
  have "r_ok res" using demo_run_ok by (simp add: r)
  from ok_means_delivered [OF r this] show ?thesis by (auto simp: r)
qed

end
