(* ===== verification/Rate_Limit.thy ===== *)
theory Rate_Limit
  imports Effects
begin

text \<open>
  \<^verbatim>\<open>internal/ratelimit\<close>: the fixed-window counter in Valkey. \<open>Allow\<close> is the
  code's function; \<open>allow_all\<close> runs a list of calls; the lemmas bound what a key is granted
  in a window whatever commands fail, and describe the counter that never expires.
\<close>

section \<open>Limiter.Allow\<close>

definition rl_key :: "string \<Rightarrow> string" where
  "rl_key key = ''rl:'' @ key"

lemma rl_key_inj [simp]: "rl_key j = rl_key k \<longleftrightarrow> j = k"
  by (simp add: rl_key_def)

definition Allow :: "'k valkey \<Rightarrow> string \<Rightarrow> int \<Rightarrow> duration \<Rightarrow> 'k world
    \<Rightarrow> (bool \<times> duration) \<times> 'k world" where
  "Allow kv key limit window w =
     (let rk = rl_key key in
      case kv_do (\<lambda>t. kv_Incr kv t rk) w of
        (Inl _, w1) \<Rightarrow> ((False, Second), w1)
      | (Inr n, w1) \<Rightarrow>
          (let w2 = (if n = 1 then snd (kv_do (\<lambda>t. kv_Expire kv t rk window) w1) else w1) in
           if limit < n
           then (case kv_do (\<lambda>t. kv_TTL kv t rk) w2 of
                   (Inl _, w3) \<Rightarrow> ((False, window), w3)
                 | (Inr ttl, w3) \<Rightarrow> ((False, if ttl < 0 then window else ttl), w3))
           else ((True, 0), w2)))"

text \<open>A list of calls, each a key with its limit and window, and the answers.\<close>

type_synonym call = "string \<times> int \<times> duration"

fun allow_all :: "'k valkey \<Rightarrow> call list \<Rightarrow> 'k world \<Rightarrow> bool list \<times> 'k world" where
  "allow_all kv [] w = ([], w)"
| "allow_all kv ((key, limit, window) # cs) w =
     (case Allow kv key limit window w of
        ((ok, _), w1) \<Rightarrow> (case allow_all kv cs w1 of (oks, w2) \<Rightarrow> (ok # oks, w2)))"

text \<open>How many calls for a key were granted.\<close>

definition granted :: "string \<Rightarrow> call list \<Rightarrow> bool list \<Rightarrow> nat" where
  "granted key cs oks = length (filter (\<lambda>(c, ok). fst c = key \<and> ok) (zip cs oks))"

section \<open>Whatever the service answers\<close>

lemma Allow_frame [simp, frame]:
  "db (snd (Allow kv key limit window w)) = db w"
  "logs (snd (Allow kv key limit window w)) = logs w"
  by (auto simp: Allow_def Let_def dest!: kv_do_eqD split: prod.split sum.split)

lemma Allow_retry_nonneg:
  "0 \<le> window \<Longrightarrow> 0 \<le> snd (fst (Allow kv key limit window w))"
  by (auto simp: Allow_def Let_def split: prod.split sum.split)

lemma Allow_granted:
  assumes "fst (Allow kv key limit window w) = (True, r)"
  shows "r = 0 \<and> (\<exists>v. fst (kv_Incr kv (tick w) (rl_key key) (vk w)) = Inr v \<and> v \<le> limit)"
  using assms
  by (cases "kv_Incr kv (tick w) (rl_key key) (vk w)"; cases "fst (kv_Incr kv (tick w) (rl_key key) (vk w))")
    (auto simp: Allow_def Let_def kv_do_def split: prod.splits sum.splits if_splits)

text \<open>
  The contract the request handlers rely on: a limiter call touches neither the tables nor
  the log, and the time it tells a denied client to wait is not negative.
\<close>

locale limiter =
  fixes allow :: "string \<Rightarrow> int \<Rightarrow> duration \<Rightarrow> 'w \<Rightarrow> (bool \<times> duration) \<times> 'w"
    and tables :: "'w \<Rightarrow> 'd"
  assumes tables_allow: "tables (snd (allow key limit window w)) = tables w"
    and retry_nonneg: "0 \<le> window \<Longrightarrow> 0 \<le> snd (fst (allow key limit window w))"
begin

lemma retry_header: "0 \<le> window \<Longrightarrow> 1 \<le> int_Seconds (snd (fst (allow key limit window w))) + 1"
  using int_Seconds_nonneg [OF retry_nonneg] by simp

lemma guard_tables:
  assumes "\<And>w. tables (snd (deny w)) = tables w" and "\<not> fst (fst (allow key limit window w))"
  shows "tables (snd (if fst (fst (allow key limit window w)) then go (snd (allow key limit window w))
                      else deny (snd (allow key limit window w)))) = tables w"
  using assms by (simp add: tables_allow)

end

interpretation lim: limiter "Allow kv" db for kv
  by unfold_locales (auto intro: Allow_retry_nonneg)

section \<open>The counter under the documented behaviour of Valkey\<close>

definition count_of :: "kv_entry option \<Rightarrow> int" where
  "count_of c = (case c of None \<Rightarrow> 0 | Some (v, _) \<Rightarrow> v)"

text \<open>An entry that does not expire before \<open>D\<close>; the absent one counts as such.\<close>

definition lasts :: "time \<Rightarrow> kv_entry option \<Rightarrow> bool" where
  "lasts D c = (case c of Some (_, Some d) \<Rightarrow> D \<le> d | _ \<Rightarrow> True)"

definition deadline_of :: "kv_entry option \<Rightarrow> time option" where
  "deadline_of c = (case c of None \<Rightarrow> None | Some (_, d) \<Rightarrow> d)"

abbreviation counter :: "'k valkey \<Rightarrow> ('k \<Rightarrow> kv_map) \<Rightarrow> string \<Rightarrow> 'k world \<Rightarrow> kv_entry option" where
  "counter kv view key w \<equiv> live (kv_clock kv (tick w)) (rl_key key) (view (vk w))"

lemma incr_step:
  assumes "valkey_spec kv view" "kv_do (\<lambda>t. kv_Incr kv t rk) w = (r, w1)"
  defines "old \<equiv> live (kv_clock kv (tick w)) rk (view (vk w))"
  shows "tick w1 = Suc (tick w)"
    and "r = Inr n \<Longrightarrow> n = count_of old + 1 \<and> view (vk w1) = (view (vk w))(rk \<mapsto> (n, deadline_of old))"
    and "r = Inl er \<Longrightarrow> view (vk w1) = view (vk w) \<or>
           view (vk w1) = (view (vk w))(rk \<mapsto> (count_of old + 1, deadline_of old))"
proof -
  obtain ri k1 where incr: "kv_Incr kv (tick w) rk (vk w) = (ri, k1)" by fastforce
  have w1: "r = map_sum Errorf id ri" "w1 = bump (w\<lparr>vk := k1\<rparr>)"
    using assms(2) by (auto simp: kv_do_def incr)
  have s: "kv_incr_spec (kv_clock kv (tick w)) rk (view (vk w)) =
      (count_of old + 1, (view (vk w))(rk \<mapsto> (count_of old + 1, deadline_of old)))"
    by (auto simp: kv_incr_spec_def old_def count_of_def deadline_of_def split: option.split)
  note f = valkey_Incr [OF assms(1) incr, unfolded s]
  show "tick w1 = Suc (tick w)" by (simp add: w1)
  show "n = count_of old + 1 \<and> view (vk w1) = (view (vk w))(rk \<mapsto> (n, deadline_of old))" if "r = Inr n"
    using that f by (cases ri) (auto simp: w1)
  show "view (vk w1) = view (vk w) \<or>
      view (vk w1) = (view (vk w))(rk \<mapsto> (count_of old + 1, deadline_of old))" if "r = Inl er"
    using f by (auto simp: w1 kv_effect_def)
qed

lemma expire_step:
  assumes "valkey_spec kv view" "view (vk w1) rk = Some (n, dl)"
  shows "\<exists>dl'. view (vk (snd (kv_do (\<lambda>t. kv_Expire kv t rk window) w1))) = (view (vk w1))(rk \<mapsto> (n, dl'))
    \<and> (dl' = dl \<or> dl' = Some (kv_clock kv (tick w1) + window))"
proof -
  obtain re k2 where e: "kv_Expire kv (tick w1) rk window (vk w1) = (re, k2)" by fastforce
  have same: "view (vk w1) = (view (vk w1))(rk \<mapsto> (n, dl))" using assms(2) by (auto simp: fun_eq_iff)
  have "view k2 = view (vk w1) \<or> view k2 = kv_expire_spec (kv_clock kv (tick w1)) rk window (view (vk w1))"
    using valkey_Expire [OF assms(1) e] by (auto simp: kv_effect_def)
  moreover have "kv_expire_spec (kv_clock kv (tick w1)) rk window (view (vk w1)) =
      (view (vk w1))(rk \<mapsto> (n, Some (kv_clock kv (tick w1) + window))) \<or>
      kv_expire_spec (kv_clock kv (tick w1)) rk window (view (vk w1)) = view (vk w1)"
    using assms(2) by (auto simp: kv_expire_spec_def dest!: live_Some split: option.split)
  ultimately have "view k2 = (view (vk w1))(rk \<mapsto> (n, dl)) \<or>
      view k2 = (view (vk w1))(rk \<mapsto> (n, Some (kv_clock kv (tick w1) + window)))"
    using same by metis
  then show ?thesis by (auto simp: kv_do_def e)
qed

lemma ttl_step: "valkey_spec kv view \<Longrightarrow> view (vk (snd (kv_do (\<lambda>t. kv_TTL kv t rk) w))) = view (vk w)"
  by (cases "kv_TTL kv (tick w) rk (vk w)") (auto simp: kv_do_def dest: valkey_TTL)

text \<open>
  The effect of a counted call: the count goes up by one, the deadline stays or, for the
  first call of a window, becomes a window from then on.
\<close>

definition counted :: "'k valkey \<Rightarrow> ('k \<Rightarrow> kv_map) \<Rightarrow> string \<Rightarrow> duration \<Rightarrow> 'k world \<Rightarrow> 'k world \<Rightarrow> bool" where
  "counted kv view key window w w' \<longleftrightarrow>
     (let old = counter kv view key w in
      \<exists>dl. view (vk w') = (view (vk w))(rl_key key \<mapsto> (count_of old + 1, dl)) \<and>
        (dl = deadline_of old \<or>
         count_of old = 0 \<and> dl = Some (kv_clock kv (Suc (tick w)) + window)))"

text \<open>
  What one call does, whatever fails: it is denied with the counter untouched, or it is
  counted, and then it is granted only if the new count is within the limit. If the
  service answers the increment, it is counted and granted exactly within the limit.
\<close>

lemma Allow_counter:
  assumes spec: "valkey_spec kv view" and call: "Allow kv key limit window w = ((ok, r), w')"
  defines "old \<equiv> counter kv view key w"
  shows "tick w < tick w'"
    and "view (vk w') = view (vk w) \<and> \<not> ok \<or>
      counted kv view key window w w' \<and> (ok \<longrightarrow> count_of old + 1 \<le> limit)"
    and "fst (kv_do (\<lambda>t. kv_Incr kv t (rl_key key)) w) = Inr n \<Longrightarrow>
      (ok \<longleftrightarrow> count_of old + 1 \<le> limit) \<and> counted kv view key window w w'"
proof -
  define rk where "rk = rl_key key"
  obtain ri w1 where i: "kv_do (\<lambda>t. kv_Incr kv t rk) w = (ri, w1)" by fastforce
  have old: "old = live (kv_clock kv (tick w)) rk (view (vk w))" by (simp add: old_def rk_def)
  note inc = incr_step [OF spec i, folded old]
  define w2 where "w2 n = (if n = (1::int) then snd (kv_do (\<lambda>t. kv_Expire kv t rk window) w1) else w1)" for n
  define w3 where "w3 n = snd (kv_do (\<lambda>t. kv_TTL kv t rk) (w2 n))" for n
  have ticks: "tick w < tick (w2 n)" "tick (w2 n) < tick (w3 n)" for n
    using inc(1) by (auto simp: w2_def w3_def)
  have res: "w' = (case ri of Inl _ \<Rightarrow> w1 | Inr n \<Rightarrow> if limit < n then w3 n else w2 n)"
    "ok \<longleftrightarrow> (case ri of Inl _ \<Rightarrow> False | Inr n \<Rightarrow> n \<le> limit)"
    using call [unfolded Allow_def Let_def, folded rk_def] i
    by (auto simp: w2_def w3_def split: sum.splits prod.splits if_splits)
  show "tick w < tick w'"
    using res(1) ticks inc(1) by (auto split: sum.splits if_splits intro: less_trans)
  have answered: "(ok \<longleftrightarrow> count_of old + 1 \<le> limit) \<and> counted kv view key window w w'" if "ri = Inr n" for n
  proof -
    have n: "n = count_of old + 1" "view (vk w1) = (view (vk w))(rk \<mapsto> (n, deadline_of old))"
      using inc(2) [of n] that by auto
    have "\<exists>dl. view (vk (w2 n)) = (view (vk w))(rk \<mapsto> (n, dl)) \<and>
        (dl = deadline_of old \<or> count_of old = 0 \<and> dl = Some (kv_clock kv (Suc (tick w)) + window))"
      using expire_step [OF spec, of w1 rk n "deadline_of old" window] n inc(1) by (auto simp: w2_def)
    moreover have "view (vk (w3 n)) = view (vk (w2 n))" by (simp add: w3_def ttl_step [OF spec])
    ultimately show ?thesis
      using res that n(1) by (auto simp: counted_def old_def rk_def Let_def split: if_splits)
  qed
  show "(ok \<longleftrightarrow> count_of old + 1 \<le> limit) \<and> counted kv view key window w w'"
    if "fst (kv_do (\<lambda>t. kv_Incr kv t (rl_key key)) w) = Inr n"
    using that answered [of n] i by (simp add: rk_def)
  show "view (vk w') = view (vk w) \<and> \<not> ok \<or>
      counted kv view key window w w' \<and> (ok \<longrightarrow> count_of old + 1 \<le> limit)"
  proof (cases ri)
    case (Inl er)
    then have "view (vk w') = view (vk w) \<or>
        view (vk w') = (view (vk w))(rk \<mapsto> (count_of old + 1, deadline_of old))" and "\<not> ok"
      using res inc(3) [of er] by auto
    then show ?thesis by (auto simp: counted_def old_def rk_def Let_def)
  next
    case (Inr n)
    then show ?thesis using answered by blast
  qed
qed

section \<open>How much a key is granted in a window\<close>

text \<open>
  What can still be granted before \<open>D\<close>: what the live counter leaves of the limit, and a
  full limit more if that counter expires before \<open>D\<close>.
\<close>

definition budget :: "time \<Rightarrow> int \<Rightarrow> kv_entry option \<Rightarrow> int" where
  "budget D L c =
     (case c of
        None \<Rightarrow> max 0 L
      | Some (v, dl) \<Rightarrow> max 0 (L - v) +
          (case dl of Some d \<Rightarrow> if d < D then max 0 L else 0 | None \<Rightarrow> 0))"

lemma budget_nonneg: "0 \<le> budget D L c"
  by (auto simp: budget_def split: option.split)

lemma budget_time:
  "t \<le> t' \<Longrightarrow> t' < D \<Longrightarrow> budget D L (live t' k m) \<le> budget D L (live t k m)"
  by (auto simp: budget_def live_def split: option.split)

lemma counted_other:
  "counted kv view key window w w' \<Longrightarrow> k \<noteq> key \<Longrightarrow> view (vk w') (rl_key k) = view (vk w) (rl_key k)"
  by (auto simp: counted_def Let_def)

lemma counted_budget:
  assumes "counted kv view key W w w'" and "kv_clock kv (tick w) < D"
    and "D \<le> kv_clock kv (Suc (tick w)) + W" and "ok \<longrightarrow> count_of (counter kv view key w) + 1 \<le> L"
  shows "(if ok then 1 else 0) + budget D L (live (kv_clock kv (tick w)) (rl_key key) (view (vk w')))
    \<le> budget D L (counter kv view key w)"
proof -
  obtain dl where v: "view (vk w') = (view (vk w))(rl_key key \<mapsto> (count_of (counter kv view key w) + 1, dl))"
    and dl: "dl = deadline_of (counter kv view key w) \<or>
      count_of (counter kv view key w) = 0 \<and> dl = Some (kv_clock kv (Suc (tick w)) + W)"
    using assms(1) by (auto simp: counted_def Let_def)
  have lt: "kv_clock kv (tick w) < d" if "counter kv view key w = Some (n, Some d)" for n d
    using that by (auto simp: live_def split: option.splits if_splits prod.splits)
  show ?thesis
    using assms(2-4) dl lt unfolding v
    by (cases "counter kv view key w")
      (auto simp: budget_def count_of_def deadline_of_def split: option.split)
qed

lemma allow_all_tick: "allow_all kv cs w = (oks, w') \<Longrightarrow> tick w \<le> tick w'"
proof (induction cs arbitrary: w oks)
  case (Cons c cs)
  obtain key L W where c: "c = (key, L, W)" by (cases c)
  obtain ok r w1 where a: "Allow kv key L W w = ((ok, r), w1)" by (metis surj_pair)
  have "tick w \<le> tick w1"
    using a by (auto simp: Allow_def Let_def dest!: kv_do_eqD split: prod.splits sum.splits if_splits)
  then show ?case using Cons a by (force simp: c split: prod.splits)
qed simp

lemma granted_simps [simp]:
  "granted key [] oks = 0"
  "granted key (c # cs) (ok # oks) = (if fst c = key \<and> ok then 1 else 0) + granted key cs oks"
  by (simp_all add: granted_def)

lemma granted_budget:
  assumes spec: "valkey_spec kv view" and mono: "mono (kv_clock kv)"
    and D: "D \<le> kv_clock kv t0 + W"
  shows "\<forall>c \<in> set cs. fst c = key \<longrightarrow> snd c = (L, W) \<Longrightarrow> allow_all kv cs w = (oks, w') \<Longrightarrow>
    t0 \<le> tick w \<Longrightarrow> kv_clock kv (tick w') < D \<Longrightarrow>
    int (granted key cs oks) \<le> budget D L (counter kv view key w)"
proof (induction cs arbitrary: w oks)
  case Nil
  then show ?case by (simp add: budget_nonneg)
next
  case (Cons c cs)
  obtain k L' W' where c: "c = (k, L', W')" by (cases c)
  obtain ok r w1 where a: "Allow kv k L' W' w = ((ok, r), w1)" by (metis surj_pair)
  obtain oks1 where rest: "allow_all kv cs w1 = (oks1, w')" and oks: "oks = ok # oks1"
    using Cons.prems(2) by (auto simp: c a split: prod.splits)
  note step = Allow_counter [OF spec a]
  have le: "tick w1 \<le> tick w'" by (rule allow_all_tick [OF rest])
  have IH: "int (granted key cs oks1) \<le> budget D L (counter kv view key w1)"
    using Cons.IH [OF _ rest] Cons.prems step(1) by auto
  have now: "kv_clock kv (tick w) \<le> kv_clock kv (tick w1)" "kv_clock kv (tick w1) < D"
    "kv_clock kv t0 \<le> kv_clock kv (Suc (tick w))"
    using monoD [OF mono, of "tick w" "tick w1"] monoD [OF mono, of "tick w1" "tick w'"]
      monoD [OF mono, of t0 "Suc (tick w)"] step(1) le Cons.prems(3,4) by auto
  have "budget D L (counter kv view key w1)
      \<le> budget D L (live (kv_clock kv (tick w)) (rl_key key) (view (vk w1)))"
    by (rule budget_time [OF now(1,2)])
  moreover have "(if k = key \<and> ok then 1 else 0)
      + budget D L (live (kv_clock kv (tick w)) (rl_key key) (view (vk w1)))
    \<le> budget D L (counter kv view key w)"
  proof (cases "k = key")
    case True
    then have LW: "L' = L" "W' = W" using Cons.prems(1) c by auto
    have "kv_clock kv (tick w) < D" "D \<le> kv_clock kv (Suc (tick w)) + W" using now D by auto
    then show ?thesis
      using step(2) counted_budget [of kv view key W w w1 D ok L] True LW by auto
  next
    case False
    then have "view (vk w1) (rl_key key) = view (vk w) (rl_key key)"
      using step(2) counted_other by metis
    then show ?thesis using False by (simp add: live_def)
  qed
  ultimately show ?case using IH by (auto simp: oks c)
qed

lemma budget_le: "0 \<le> count_of c \<Longrightarrow> 0 \<le> L \<Longrightarrow> budget D L c \<le> 2 * L"
  by (auto simp: budget_def count_of_def split: option.splits)

text \<open>
  A healthy service, a fresh counter, calls for one key only: the first \<open>L\<close> calls are
  granted and the others denied, as long as the window lasts.
\<close>

definition kv_up :: "'k valkey \<Rightarrow> bool" where
  "kv_up kv \<longleftrightarrow> (\<forall>n key k. \<exists>v. fst (kv_Incr kv n key k) = Inr v)"

lemma kv_up_do: "kv_up kv \<Longrightarrow> \<exists>v. fst (kv_do (\<lambda>t. kv_Incr kv t rk) w) = Inr v"
proof -
  assume "kv_up kv"
  then obtain v where "fst (kv_Incr kv (tick w) rk (vk w)) = Inr v" unfolding kv_up_def by blast
  then show ?thesis by (cases "kv_Incr kv (tick w) rk (vk w)") (auto simp: kv_do_def)
qed

lemma counted_live:
  assumes "counted kv view key W w w'" "counter kv view key w = c"
    "c = None \<or> (\<exists>v dl. c = Some (v, dl) \<and> (case dl of None \<Rightarrow> True | Some d \<Rightarrow> t < d))"
    "t < kv_clock kv (Suc (tick w)) + W"
  shows "\<exists>dl. live t (rl_key key) (view (vk w')) = Some (count_of c + 1, dl) \<and>
    (dl = deadline_of c \<or> dl = Some (kv_clock kv (Suc (tick w)) + W))"
proof -
  obtain dl where "view (vk w') = (view (vk w))(rl_key key \<mapsto> (count_of c + 1, dl))"
    "dl = deadline_of c \<or> dl = Some (kv_clock kv (Suc (tick w)) + W)"
    using assms(1,2) by (auto simp: counted_def Let_def)
  then show ?thesis using assms(3,4)
    by (intro exI [of _ dl]) (auto simp: live_def deadline_of_def split: option.splits)
qed

lemma allow_all_exact_aux:
  assumes spec: "valkey_spec kv view" and up: "kv_up kv" and mono: "mono (kv_clock kv)"
    and D: "D \<le> kv_clock kv t0 + W"
  shows "allow_all kv (replicate n (key, L, W)) w = (oks, w') \<Longrightarrow> t0 \<le> tick w \<Longrightarrow>
    kv_clock kv (tick w') < D \<Longrightarrow>
    counter kv view key w = c \<Longrightarrow> count_of c = int i \<Longrightarrow>
    (case deadline_of c of None \<Rightarrow> True | Some d \<Rightarrow> D \<le> d) \<Longrightarrow>
    oks = map (\<lambda>j. int j < L) [i..<i + n]"
proof (induction n arbitrary: w oks c i)
  case (Suc n)
  obtain ok r w1 where a: "Allow kv key L W w = ((ok, r), w1)" by (metis surj_pair)
  obtain oks1 where rest: "allow_all kv (replicate n (key, L, W)) w1 = (oks1, w')"
    and oks: "oks = ok # oks1"
    using Suc.prems(1) by (auto simp: a split: prod.splits)
  note step = Allow_counter [OF spec a]
  obtain v where "fst (kv_do (\<lambda>t. kv_Incr kv t (rl_key key)) w) = Inr v" using kv_up_do [OF up] by blast
  then have ok: "ok \<longleftrightarrow> int i < L" and ctd: "counted kv view key W w w1"
    using step(3) Suc.prems(4,5) by auto
  have le: "tick w1 \<le> tick w'" by (rule allow_all_tick [OF rest])
  have now: "kv_clock kv (tick w1) < D" "D \<le> kv_clock kv (Suc (tick w)) + W"
    using monoD [OF mono, of "tick w1" "tick w'"] monoD [OF mono, of t0 "Suc (tick w)"]
      step(1) le Suc.prems(2,3) D by auto
  obtain dl where c1: "counter kv view key w1 = Some (int i + 1, dl)"
    and dl: "dl = deadline_of c \<or> dl = Some (kv_clock kv (Suc (tick w)) + W)"
    using counted_live [OF ctd Suc.prems(4), of "kv_clock kv (tick w1)"] Suc.prems(5,6) now
    by (cases c) (auto simp: deadline_of_def split: option.splits)
  have "oks1 = map (\<lambda>j. int j < L) [Suc i..<Suc i + n]"
    by (rule Suc.IH [OF rest _ Suc.prems(3) c1])
      (use Suc.prems(2,6) step(1) dl now(2) in
        \<open>auto simp: count_of_def deadline_of_def split: option.splits\<close>)
  then show ?case by (simp add: oks ok upt_rec [of i])
qed simp

section \<open>A counter that never expires\<close>

text \<open>
  INCR and EXPIRE are two commands and the error of the second is ignored. A counter that
  was left without a deadline at its limit denies its key in every later run, however much
  time passes.
\<close>

lemma locked_out:
  assumes spec: "valkey_spec kv view"
  shows "\<forall>c \<in> set cs. fst c = key \<longrightarrow> fst (snd c) \<le> v \<Longrightarrow>
    view (vk w) (rl_key key) = Some (v', None) \<Longrightarrow> v \<le> v' \<Longrightarrow> 1 \<le> v' \<Longrightarrow>
    allow_all kv cs w = (oks, w') \<Longrightarrow> granted key cs oks = 0"
proof (induction cs arbitrary: w oks v')
  case (Cons c cs)
  obtain k L' W' where c: "c = (k, L', W')" by (cases c)
  obtain ok r w1 where a: "Allow kv k L' W' w = ((ok, r), w1)" by (metis surj_pair)
  obtain oks1 where rest: "allow_all kv cs w1 = (oks1, w')" and oks: "oks = ok # oks1"
    using Cons.prems(5) by (auto simp: c a split: prod.splits)
  note step = Allow_counter(2) [OF spec a]
  have cnt: "counter kv view key w = Some (v', None)" using Cons.prems(2) by (simp add: live_def)
  have nxt: "\<exists>v''. view (vk w1) (rl_key key) = Some (v'', None) \<and> v' \<le> v'' \<and> (k = key \<longrightarrow> \<not> ok)"
  proof (cases "k = key")
    case True
    then have "L' \<le> v'" using Cons.prems(1,3) c by auto
    then show ?thesis
      using step cnt Cons.prems(2,4) True
      by (auto simp: counted_def Let_def count_of_def deadline_of_def)
  next
    case False
    then show ?thesis using step Cons.prems(2) counted_other [of kv view k W' w w1 key] by auto
  qed
  then obtain v'' where "view (vk w1) (rl_key key) = Some (v'', None)" "v' \<le> v''" by blast
  then have "granted key cs oks1 = 0"
    using Cons.IH [OF _ _ _ _ rest] Cons.prems(1,3,4) by auto
  then show ?case using nxt by (auto simp: oks c)
qed simp

lemmas limiter_eval = Allow_def kv_do_def mem_valkey_def kv_reply_def kv_apply_def
  kv_incr_spec_def kv_expire_spec_def live_def rl_key_def bump_def demo_world_def

section \<open>Properties\<close>

text \<open>
  C13. In any run of limiter calls that takes less than a window, whatever commands fail and
  whatever other keys are called, a key is granted at most twice its limit, and at most its
  limit if it had no live counter at the start.
\<close>

theorem limiter_window_bound:
  assumes "valkey_spec kv view" and "mono (kv_clock kv)"
    and "\<forall>c \<in> set cs. fst c = key \<longrightarrow> snd c = (L, W)"
    and "allow_all kv cs w = (oks, w')"
    and "kv_clock kv (tick w') < kv_clock kv (tick w) + W"
    and "0 \<le> L" and "0 \<le> count_of (counter kv view key w)"
  shows "granted key cs oks \<le> 2 * nat L \<and>
    (counter kv view key w = None \<longrightarrow> granted key cs oks \<le> nat L)"
proof -
  have b: "int (granted key cs oks) \<le> budget (kv_clock kv (tick w) + W) L (counter kv view key w)"
    by (rule granted_budget [OF assms(1,2) _ assms(3,4) order_refl assms(5)]) simp
  have "int (granted key cs oks) \<le> 2 * L" using b budget_le [OF assms(7,6)] by (rule order_trans)
  moreover have "int (granted key cs oks) \<le> L" if "counter kv view key w = None"
    using b that assms(6) by (simp add: budget_def)
  ultimately show ?thesis by (auto simp: le_nat_iff)
qed

theorem limiter_window_bound_witness:
  "granted ''a'' (replicate 3 (''a'', 2, 100))
     (fst (allow_all (mem_valkey int (\<lambda>_. False)) (replicate 3 (''a'', 2, 100)) (demo_world empty_db))) \<le> 2"
proof -
  let ?kv = "mem_valkey int (\<lambda>_. False)"
  let ?r = "allow_all ?kv (replicate 3 (''a'', 2, 100)) (demo_world empty_db)"
  have "granted ''a'' (replicate 3 (''a'', 2, 100)) (fst ?r) \<le> 2 * nat 2 \<and>
    (counter ?kv id ''a'' (demo_world empty_db) = None \<longrightarrow>
     granted ''a'' (replicate 3 (''a'', 2, 100)) (fst ?r) \<le> nat 2)"
    by (rule limiter_window_bound [OF mem_valkey_spec, where W = 100 and w' = "snd ?r"])
      (simp_all add: limiter_eval mono_def count_of_def eval_nat_numeral)
  then show ?thesis by (simp add: limiter_eval)
qed

text \<open>
  C30. With a service that answers and a fresh counter, the first \<open>L\<close> of \<open>n\<close> calls made
  within the window are granted and all others are denied.
\<close>

theorem limiter_exact:
  assumes "valkey_spec kv view" and "kv_up kv" and "mono (kv_clock kv)"
    and "counter kv view key w = None"
    and "allow_all kv (replicate n (key, L, W)) w = (oks, w')"
    and "kv_clock kv (tick w') < kv_clock kv (tick w) + W"
  shows "oks = map (\<lambda>j. int j < L) [0..<n]"
  using allow_all_exact_aux [OF assms(1-3) order_refl assms(5) order_refl assms(6,4), of 0]
  by (simp add: count_of_def deadline_of_def)

theorem limiter_exact_witness:
  "fst (allow_all (mem_valkey int (\<lambda>_. False)) (replicate 3 (''a'', 2, 100)) (demo_world empty_db)) =
     [True, True, False]"
proof -
  let ?kv = "mem_valkey int (\<lambda>_. False)"
  let ?r = "allow_all ?kv (replicate 3 (''a'', 2, 100)) (demo_world empty_db)"
  have "fst ?r = map (\<lambda>j. int j < 2) [0..<3]"
    by (rule limiter_exact [where kv = ?kv and key = "''a''" and W = 100 and w = "demo_world empty_db"
          and w' = "snd ?r", OF mem_valkey_spec])
      (simp_all add: limiter_eval mono_def kv_up_def eval_nat_numeral)
  then show ?thesis by (simp add: eval_nat_numeral)
qed

text \<open>
  C31. A counter that lost its EXPIRE and has reached its limit is never granted again: in
  every later run, at any clock, each call for the key is denied.
\<close>

theorem limiter_lockout:
  assumes "valkey_spec kv view"
    and "view (vk w) (rl_key key) = Some (v, None)" and "1 \<le> v"
    and "\<forall>c \<in> set cs. fst c = key \<longrightarrow> fst (snd c) \<le> v"
    and "allow_all kv cs w = (oks, w')"
  shows "granted key cs oks = 0"
  by (rule locked_out [OF assms(1,4,2) order_refl assms(3,5)])

text \<open>The EXPIRE of the first call is lost (tick 1); the key stays denied after 10^9 ticks.\<close>

theorem limiter_lockout_witness:
  "let kv = mem_valkey (\<lambda>n. int n * 1000000000) (\<lambda>n. n = 1);
       w = snd (allow_all kv [(''a'', 1, 3600)] (demo_world empty_db))
   in granted ''a'' (replicate 5 (''a'', 1, 3600)) (fst (allow_all kv (replicate 5 (''a'', 1, 3600)) w)) = 0"
proof -
  define kv where "kv = mem_valkey (\<lambda>n. int n * 1000000000) (\<lambda>n. n = 1)"
  define w where "w = snd (allow_all kv [(''a'', 1, 3600)] (demo_world empty_db))"
  have "granted ''a'' (replicate 5 (''a'', 1, 3600)) (fst (allow_all kv (replicate 5 (''a'', 1, 3600)) w)) = 0"
  proof (rule limiter_lockout)
    show "valkey_spec kv id" unfolding kv_def by (rule mem_valkey_spec)
    show "id (vk w) (rl_key ''a'') = Some (1, None)" by (simp add: kv_def w_def limiter_eval)
  qed (simp_all add: prod_eq_iff)
  then show ?thesis by (simp add: kv_def w_def)
qed
end
