(* ===== verification/Handlers.thy ===== *)
theory Handlers
  imports Auth_Spec Webhook_Store Visitor_Store Smtp_Tester Rate_Limit
begin

text \<open>
  The handlers of \<^verbatim>\<open>internal/httpapi\<close>: webhook bins (\<^verbatim>\<open>webhook.go\<close>), the SMTP
  tester (\<^verbatim>\<open>smtp.go\<close>), visitor events and the guard of the cloud tools
  (\<^verbatim>\<open>visitor.go\<close>), health and readiness (\<^verbatim>\<open>router.go\<close>). The JSON decoder, the
  SMTP peers, SHA-256 and the pings are fields of the server.
\<close>

section \<open>The server\<close>

text \<open>\<^verbatim>\<open>visitorPayload\<close>.\<close>

record visitor_payload =
  vp_visitor :: string
  vp_session :: string
  vp_path :: string
  vp_referer :: string
  vp_origin :: string

text \<open>
  \<^verbatim>\<open>Server\<close> with the parts of the configuration the handlers read, and the libraries
  behind it: \<open>lib_name\<close> is what the body of a create request leaves in \<^verbatim>\<open>Name\<close>,
  the other decoders return \<^const>\<open>None\<close> for an error. Pings are by interaction number.
\<close>

record 'k server =
  sv_env :: env
  sv_mode :: string
  sv_front :: string
  sv_base :: string
  sv_origins :: "string list"
  sv_google :: google_auth
  sv_sessions :: session_manager
  sv_kv :: "'k valkey"
  sv_started :: time
  lib_jwt :: jwt_lib
  lib_oauth :: oauth_lib
  lib_name :: "string \<Rightarrow> string"
  lib_smtp :: "string \<Rightarrow> smtp_request option"
  lib_check :: "string \<Rightarrow> auth_check_request option"
  lib_visit :: "string \<Rightarrow> visitor_payload option"
  lib_peer :: "nat \<Rightarrow> peer"
  lib_bad64 :: "string \<Rightarrow> string option"
  lib_rfc3339 :: "time \<Rightarrow> string"
  lib_sha :: "string \<Rightarrow> 8 word list"
  lib_dur :: "duration \<Rightarrow> string"
  pg_ping :: "nat \<Rightarrow> bool"
  kv_ping :: "nat \<Rightarrow> bool"
  lib_clean :: "request \<Rightarrow> string option"

definition hooks :: "'k server \<Rightarrow> 'k store" where
  "hooks sv = Some (sv_kv sv)"

section \<open>Guards\<close>

text \<open>The check every cloud handler starts with.\<close>

definition with_user :: "(session_user \<Rightarrow> 'k handler) \<Rightarrow> 'k handler" where
  "with_user next r s =
     (case UserFromContext r of
        None \<Rightarrow> (case s of (wr, w) \<Rightarrow> (None, writeJSON 401 (err_obj ''unauthenticated'') wr, w))
      | Some u \<Rightarrow> next u r s)"

definition RequireActiveUser :: "'k server \<Rightarrow> 'k handler \<Rightarrow> 'k handler" where
  "RequireActiveUser sv next =
     RequireUser (sv_env sv) (lib_jwt sv) (sv_sessions sv)
       (with_user (\<lambda>u r s.
          case s of (wr, w) \<Rightarrow>
            (case IsBanned (sv_env sv) (ID u) w of
               (Inl er, w) \<Rightarrow>
                 (None, writeJSON 500 (err_obj ''session check failed'') wr,
                  log_line ''ban check failed'' [(''err'', error_text er), (''user_id'', ID u)] w)
             | (Inr True, w) \<Rightarrow>
                 (None, writeJSON 403 (err_obj ''account banned'') (Clear (sv_sessions sv) wr), w)
             | (Inr False, w) \<Rightarrow> next r (wr, w))))"

text \<open>The limiter's answer in front of a handler.\<close>

definition too_many :: "duration \<Rightarrow> (string \<times> json) list \<Rightarrow> writer \<Rightarrow> writer" where
  "too_many retry extra wr =
     (let sec = int_Seconds retry + 1 in
      writeJSON 429 (JObj ([(''error'', JStr ''rate limit exceeded''), (''retryAfterSec'', JInt sec)] @ extra))
        (Header_Set ''Retry-After'' (Itoa sec) wr))"

definition rate_limited :: "'k server \<Rightarrow> string \<Rightarrow> int \<Rightarrow> duration \<Rightarrow> (string \<times> json) list \<Rightarrow> 'k handler \<Rightarrow> 'k handler" where
  "rate_limited sv key limit window extra next r s =
     (case s of (wr, w) \<Rightarrow>
        case Allow (sv_kv sv) key limit window w of
          ((False, retry), w) \<Rightarrow> (None, too_many retry extra wr, w)
        | ((True, _), w) \<Rightarrow> next r (wr, w))"

section \<open>JSON of the data\<close>

definition opt_str :: "string \<Rightarrow> string \<Rightarrow> (string \<times> json) list" where
  "opt_str k v = (if v = '''' then [] else [(k, JStr v)])"

definition map_json :: "str_map \<Rightarrow> json" where
  "map_json m = JObj (map (\<lambda>(k, v). (k, JStr v)) m)"

definition bin_json :: "bin \<Rightarrow> json" where
  "bin_json b =
     JObj ([(''id'', JStr (b_id b)), (''userId'', JStr (b_user b)), (''name'', JStr (b_name b)),
            (''createdAt'', JTime (b_created b)), (''expiresAt'', JTime (b_expires b)),
            (''hitCount'', JInt (b_hits b))] @
           (case b_last b of None \<Rightarrow> [] | Some t \<Rightarrow> [(''lastHitAt'', JTime t)]))"

definition hit_json :: "go_hit \<Rightarrow> json" where
  "hit_json h =
     JObj ([(''id'', JStr (h_id h)), (''binId'', JStr (h_bin h)), (''receivedAt'', JTime (h_received h)),
            (''method'', JStr (h_method h)), (''path'', JStr (h_path h))] @ opt_str ''query'' (h_query h) @
           (if h_params h = [] then [] else [(''queryParams'', map_json (h_params h))]) @
           [(''headers'', map_json (h_headers h))] @ opt_str ''contentType'' (h_ctype h) @
           [(''body'', JStr (h_body h)), (''bodyTruncated'', JBool (h_trunc h)), (''bodyBytes'', JInt (h_bytes h)),
            (''ip'', JStr (h_ip h))] @ opt_str ''userAgent'' (h_agent h))"

definition summary_json :: "hit_summary \<Rightarrow> json" where
  "summary_json h =
     JObj ([(''id'', JStr (s_id h)), (''receivedAt'', JTime (s_received h)), (''method'', JStr (s_method h)),
            (''path'', JStr (s_path h))] @ opt_str ''query'' (s_query h) @ opt_str ''contentType'' (s_ctype h) @
           [(''bodyBytes'', JInt (s_bytes h)), (''ip'', JStr (s_ip h))])"

definition result_json :: "smtp_result \<Rightarrow> json" where
  "result_json res =
     JObj ([(''ok'', JBool (r_ok res)),
            (''steps'', JArr (map (\<lambda>st. JObj [(''step'', JStr (st_step st)), (''ok'', JBool (st_ok st)),
               (''detail'', JStr (st_detail st)), (''at'', JTime (st_at st))]) (r_steps res)))] @
           opt_str ''error'' (r_error res))"

definition check_json :: "auth_check_result \<Rightarrow> json" where
  "check_json res =
     JObj ([(''ok'', JBool (a_ok res))] @ opt_str ''message'' (a_message res) @ opt_str ''error'' (a_error res) @
           opt_str ''host'' (a_host res) @ (if a_port res = 0 then [] else [(''port'', JInt (a_port res))]) @
           opt_str ''security'' (a_security res))"

section \<open>webhook.go\<close>

definition hookURL :: "'k server \<Rightarrow> string \<Rightarrow> string" where
  "hookURL sv binID =
     (let base = TrimRight (sv_front sv) ''/'';
          base = (if base = '''' then TrimRight (sv_base sv) ''/'' else base)
      in base @ ''/hook/'' @ binID)"

definition webhookLimits :: json where
  "webhookLimits =
     JObj [(''maxBinsPerUser'', JInt (int MaxBinsPerUser)), (''maxHitsPerBin'', JInt (int MaxHitsPerBin)),
           (''maxBodyBytes'', JInt (int MaxBodyBytes)), (''ttlHours'', JInt (BinTTL div Hour))]"

definition writeWebhookErr :: "go_error \<Rightarrow> writer \<Rightarrow> writer" where
  "writeWebhookErr er wr =
     writeJSON
       (if errors_Is er ErrNotFound \<or> errors_Is er ErrExpired then 404
        else if errors_Is er ErrForbidden then 403
        else if errors_Is er ErrLimitBins then 409
        else 400)
       (err_obj (FormatLimitErr er)) wr"

text \<open>The loop ranges over runes: a byte from 0x80 on starts a rune outside the classes.\<close>

definition looksLikeBinID :: "string \<Rightarrow> bool" where
  "looksLikeBinID bid \<longleftrightarrow>
     length bid = IDBytes * 2 \<and>
     list_all (\<lambda>c. CHR ''0'' \<le> c \<and> c \<le> CHR ''9'' \<or> CHR ''a'' \<le> c \<and> c \<le> CHR ''f'') bid"

text \<open>\<^verbatim>\<open>decodeJSONLimited\<close>: the decoder gets at most \<open>n\<close> bytes.\<close>

definition decodeJSONLimited :: "request \<Rightarrow> nat \<Rightarrow> (string \<Rightarrow> 'a) \<Rightarrow> 'a" where
  "decodeJSONLimited r n dec = dec (take n (body r))"

definition handleCreateBin :: "'k server \<Rightarrow> 'k handler" where
  "handleCreateBin sv =
     with_user (\<lambda>u. rate_limited sv (''webhook:create:'' @ ID u) 20 Hour []
       (\<lambda>r s. case s of (wr, w) \<Rightarrow>
          (case Create (sv_env sv) (hooks sv) (ID u) (decodeJSONLimited r 4096 (lib_name sv)) w of
             (Inl er, w) \<Rightarrow>
               (None, writeJSON (if errors_Is er ErrLimitBins then 409 else 400) (err_obj (FormatLimitErr er)) wr, w)
           | (Inr b, w) \<Rightarrow>
               (None, writeJSON 201 (JObj [(''bin'', bin_json b), (''hookUrl'', JStr (hookURL sv (b_id b))),
                  (''limits'', webhookLimits)]) wr, w))))"

definition handleListBins :: "'k server \<Rightarrow> 'k handler" where
  "handleListBins sv =
     with_user (\<lambda>u r s. case s of (wr, w) \<Rightarrow>
       (case List_bins (sv_env sv) (hooks sv) (ID u) w of
          (bins, w) \<Rightarrow>
            (let items = map (\<lambda>b. JObj [(''bin'', bin_json b), (''hookUrl'', JStr (hookURL sv (b_id b)))])
                           (case bins of None \<Rightarrow> [] | Some bs \<Rightarrow> bs)
             in (None, writeJSON 200 (JObj [(''bins'', JArr items), (''limits'', webhookLimits)]) wr, w))))"

definition handleGetBin :: "'k server \<Rightarrow> 'k handler" where
  "handleGetBin sv =
     with_user (\<lambda>u r s. case s of (wr, w) \<Rightarrow>
       (let binID = PathValue r ''id'' in
        case Get_bin (sv_env sv) (hooks sv) (ID u) binID w of
          (Inl er, w) \<Rightarrow> (None, writeWebhookErr er wr, w)
        | (Inr b, w) \<Rightarrow>
       (case ListHits (sv_env sv) (hooks sv) (ID u) binID (int MaxHitsPerBin) '''' w of
          (Inl er, w) \<Rightarrow> (None, writeWebhookErr er wr, w)
        | (Inr hits, w) \<Rightarrow>
            (None, writeJSON 200 (JObj [(''bin'', bin_json b), (''hookUrl'', JStr (hookURL sv (b_id b))),
               (''hits'', JArr (map summary_json hits)), (''limits'', webhookLimits)]) wr, w))))"

definition handleDeleteBin :: "'k server \<Rightarrow> 'k handler" where
  "handleDeleteBin sv =
     with_user (\<lambda>u r s. case s of (wr, w) \<Rightarrow>
       (case Delete_bin (sv_env sv) (hooks sv) (ID u) (PathValue r ''id'') w of
          (Inl er, w) \<Rightarrow> (None, writeWebhookErr er wr, w)
        | (Inr _, w) \<Rightarrow> (None, writeJSON 200 (JObj [(''ok'', JBool True)]) wr, w)))"

definition handleClearHits :: "'k server \<Rightarrow> 'k handler" where
  "handleClearHits sv =
     with_user (\<lambda>u r s. case s of (wr, w) \<Rightarrow>
       (case ClearHits (sv_env sv) (hooks sv) (ID u) (PathValue r ''id'') w of
          (Inl er, w) \<Rightarrow> (None, writeWebhookErr er wr, w)
        | (Inr b, w) \<Rightarrow> (None, writeJSON 200 (JObj [(''ok'', JBool True), (''bin'', bin_json b)]) wr, w)))"

definition handleListHits :: "'k server \<Rightarrow> 'k handler" where
  "handleListHits sv =
     with_user (\<lambda>u r s. case s of (wr, w) \<Rightarrow>
       (let binID = PathValue r ''id''; cursor = query_Get r ''after'' in
        case ListHits (sv_env sv) (hooks sv) (ID u) binID (int MaxHitsPerBin) cursor w of
          (Inl er, w) \<Rightarrow> (None, writeWebhookErr er wr, w)
        | (Inr hits, w) \<Rightarrow>
       (case Get_bin (sv_env sv) (hooks sv) (ID u) binID w of
          (Inl er, w) \<Rightarrow> (None, writeWebhookErr er wr, w)
        | (Inr b, w) \<Rightarrow>
            (None, writeJSON 200 (JObj [(''bin'', bin_json b), (''hits'', JArr (map summary_json hits))]) wr, w))))"

definition handleGetHit :: "'k server \<Rightarrow> 'k handler" where
  "handleGetHit sv =
     with_user (\<lambda>u r s. case s of (wr, w) \<Rightarrow>
       (case GetHit (sv_env sv) (hooks sv) (ID u) (PathValue r ''id'') (PathValue r ''hitId'') w of
          (Inl er, w) \<Rightarrow> (None, writeWebhookErr er wr, w)
        | (Inr h, w) \<Rightarrow> (None, writeJSON 200 (JObj [(''hit'', hit_json h)]) wr, w)))"

text \<open>What a captured request is given to \<^verbatim>\<open>Ingest\<close> as.\<close>

definition header_map :: "header \<Rightarrow> str_map" where
  "header_map h = map (\<lambda>(k, vals). (k, Join vals '', '')) (filter (\<lambda>(k, vals). vals \<noteq> []) h)"

definition query_map :: "(string \<times> string list) list \<Rightarrow> str_map" where
  "query_map q = map (\<lambda>(k, vals). (k, hd vals)) (filter (\<lambda>(k, vals). vals \<noteq> []) q)"

definition capture_of :: "request \<Rightarrow> string \<Rightarrow> string \<Rightarrow> ingest_input" where
  "capture_of r binID bytes =
     \<lparr>in_method = r_method r,
      in_path = ''/hook/'' @ binID @ (if PathValue r ''path'' = '''' then '''' else ''/'' @ PathValue r ''path''),
      in_query = raw_query r, in_params = Some (query_map (query r)), in_headers = Some (header_map (r_header r)),
      in_ctype = header_Get r ''Content-Type'', in_body = bytes, in_ip = clientIP r,
      in_agent = header_Get r ''User-Agent''\<rparr>"

text \<open>The part behind the limiter.\<close>

definition capture :: "'k server \<Rightarrow> string \<Rightarrow> 'k handler" where
  "capture sv binID r s =
     (case s of (wr, w) \<Rightarrow>
        if r_method r = ''HEAD'' then (None, WriteHeader 200 wr, w)
        else
          (case read_limited (MaxBodyBytes + 1) r of
             Inl _ \<Rightarrow> (None, writeJSON 400 (err_obj ''invalid body'') wr, w)
           | Inr bytes \<Rightarrow>
               if MaxBodyBytes < length bytes
               then (None, writeJSON 413 (JObj [(''error'', JStr ''body too large''), (''maxBytes'', JInt (int MaxBodyBytes))]) wr, w)
               else
                 (case Ingest (sv_env sv) (hooks sv) binID (capture_of r binID bytes) w of
                    (Inl er, w) \<Rightarrow> (None, writeWebhookErr er wr, w)
                  | (Inr h, w) \<Rightarrow>
                      (None, writeJSON 200 (JObj [(''ok'', JBool True), (''id'', JStr (h_id h)), (''bin'', JStr binID)]) wr, w))))"

definition handleHookIngest :: "'k server \<Rightarrow> 'k handler" where
  "handleHookIngest sv r s =
     (case s of (wr, w) \<Rightarrow>
        let binID = PathValue r ''id'' in
        if binID = '''' \<or> \<not> looksLikeBinID binID then (None, writeJSON 404 (err_obj ''not found'') wr, w)
        else
          (case PublicExists (sv_env sv) (hooks sv) binID w of
             (False, w) \<Rightarrow> (None, writeJSON 404 (err_obj ''not found'') wr, w)
           | (True, w) \<Rightarrow> rate_limited sv (''hook:'' @ binID) 120 Minute [] (capture sv binID) r (wr, w)))"

section \<open>smtp.go\<close>

definition handleSMTPTest :: "'k server \<Rightarrow> 'k handler" where
  "handleSMTPTest sv =
     with_user (\<lambda>u. rate_limited sv (''smtp:'' @ ID u) 10 Hour [(''limitPerHour'', JInt 10)]
       (\<lambda>r s. case s of (wr, w) \<Rightarrow>
          (case read_limited 65536 r of
             Inl _ \<Rightarrow> (None, writeJSON 400 (err_obj ''invalid body'') wr, w)
           | Inr bytes \<Rightarrow>
          (case lib_smtp sv bytes of
             None \<Rightarrow> (None, writeJSON 400 (err_obj ''invalid JSON body'') wr, w)
           | Some req \<Rightarrow>
               (let w = log_line ''smtp test requested''
                      [(''user_id'', ID u), (''host'', rq_host req), (''port'', Itoa (rq_port req)),
                       (''security'', rq_security req), (''from'', rq_from req), (''to'', rq_to req)] w
                in case RunTest (sv_env sv) (lib_rfc3339 sv) (lib_peer sv (tick w)) (lib_bad64 sv) req w of
                     ((res, _), w) \<Rightarrow> (None, writeJSON (if r_ok res then 200 else 422) (result_json res) wr, w))))))"

definition handleSMTPCheckAuth :: "'k server \<Rightarrow> 'k handler" where
  "handleSMTPCheckAuth sv =
     with_user (\<lambda>u. rate_limited sv (''smtp-auth:'' @ ID u) 30 Hour [(''limitPerHour'', JInt 30)]
       (\<lambda>r s. case s of (wr, w) \<Rightarrow>
          (case read_limited 16384 r of
             Inl _ \<Rightarrow> (None, writeJSON 400 (err_obj ''invalid body'') wr, w)
           | Inr bytes \<Rightarrow>
          (case lib_check sv bytes of
             None \<Rightarrow> (None, writeJSON 400 (err_obj ''invalid JSON body'') wr, w)
           | Some req \<Rightarrow>
               (let w = log_line ''smtp auth check requested''
                      [(''user_id'', ID u), (''host'', ac_host req), (''port'', Itoa (ac_port req)),
                       (''security'', ac_security req)] w
                in case CheckAuth (lib_peer sv (tick w)) (lib_bad64 sv) req of
                     (res, _) \<Rightarrow> (None, writeJSON (if a_ok res then 200 else 422) (check_json res) wr, bump w))))))"

section \<open>visitor.go\<close>

fun firstNonEmpty :: "string list \<Rightarrow> string" where
  "firstNonEmpty [] = ''''"
| "firstNonEmpty (v # vs) =
     (let v = TrimSpace v in if v \<noteq> '''' \<and> \<not> EqualFold_XX v then v else firstNonEmpty vs)"

definition visit_of :: "request \<Rightarrow> visitor_payload \<Rightarrow> string \<Rightarrow> visit" where
  "visit_of r p userID =
     (let referer = TrimSpace (vp_referer p); origin = TrimSpace (vp_origin p); path = TrimSpace (vp_path p) in
      \<lparr>VisitorID = vp_visitor p, SessionID = vp_session p, IP = clientIP r, UserAgent = header_Get r ''User-Agent'',
       Referer = (if referer = '''' then header_Get r ''Referer'' else referer),
       Origin = (if origin = '''' then header_Get r ''Origin'' else origin),
       Country = firstNonEmpty [header_Get r ''Cf-Ipcountry'', header_Get r ''Cloudfront-Viewer-Country''],
       City = firstNonEmpty [header_Get r ''Cf-Ipcity'', header_Get r ''X-City''],
       UserID = userID, FirstPath = (if path = '''' then ''/'' else path)\<rparr>)"

definition empty_payload :: visitor_payload where
  "empty_payload = \<lparr>vp_visitor = [], vp_session = [], vp_path = [], vp_referer = [], vp_origin = []\<rparr>"

text \<open>
  The response goes out before the job starts; the job is run at once here, one of the
  schedules of its goroutine (runs of jobs in any order are \<^const>\<open>track_jobs\<close>).
\<close>

definition visitor_event :: "'k server \<Rightarrow> visitor_payload \<Rightarrow> 'k handler" where
  "visitor_event sv p r s =
     (case s of (wr, w) \<Rightarrow>
        if \<not> ValidID (vp_visitor p) \<or> \<not> ValidID (vp_session p) then (None, WriteHeader 400 wr, w)
        else
          (case UserFromRequest (sv_env sv) (lib_jwt sv) (sv_sessions sv) r w of
             (u, w) \<Rightarrow>
               (let userID = (case u of Inl _ \<Rightarrow> '''' | Inr u \<Rightarrow> ID u)
                in (None, WriteHeader 204 wr,
                    track_job (sv_env sv) (lib_sha sv) (Some (sv_kv sv)) (visit_of r p userID) w))))"

definition visitor_key :: "request \<Rightarrow> string" where
  "visitor_key r = ''visitor:'' @ clientIP r"

definition handleVisitorEvent :: "'k server \<Rightarrow> 'k handler" where
  "handleVisitorEvent sv r s =
     (case s of (wr, w) \<Rightarrow>
        case Allow (sv_kv sv) (visitor_key r) 60 Minute w of
          ((False, retry), w) \<Rightarrow>
            (None, writeJSON 429 (JObj [(''error'', JStr ''rate limit exceeded''),
               (''retryAfterSec'', JInt (int_Seconds retry + 1))]) (Header_Set ''Retry-After'' ''60'' wr), w)
        | ((True, _), w) \<Rightarrow>
            (case read_limited 8192 r of
               Inl _ \<Rightarrow> (None, WriteHeader 400 wr, w)
             | Inr bytes \<Rightarrow>
                 (case (if bytes = '''' then Some empty_payload else lib_visit sv bytes) of
                    None \<Rightarrow> (None, WriteHeader 400 wr, w)
                  | Some p \<Rightarrow> visitor_event sv p r (wr, w))))"

section \<open>Health and readiness\<close>

definition handleHealthz :: "'k server \<Rightarrow> 'k handler" where
  "handleHealthz sv r s =
     (case s of (wr, w) \<Rightarrow>
        let (now, w) = time_Now (sv_env sv) w in
        (None, writeJSON 200 (JObj [(''ok'', JBool True), (''service'', JStr ''tools-api''),
           (''uptime'', JStr (lib_dur sv (now - sv_started sv)))]) wr, w))"

definition ready_reasons :: "'k server \<Rightarrow> nat \<Rightarrow> string list" where
  "ready_reasons sv t =
     (if \<not> Enabled (sv_google sv) \<and> sv_mode sv = ''production'' then [''google_oauth_not_configured''] else []) @
     (if pg_ping sv t then [] else [''postgres_unavailable'']) @
     (if kv_ping sv (Suc t) then [] else [''valkey_unavailable''])"

definition handleReadyz :: "'k server \<Rightarrow> 'k handler" where
  "handleReadyz sv r s =
     (case s of (wr, w) \<Rightarrow>
        let reasons = ready_reasons sv (tick w) in
        (None, writeJSON (if reasons = [] then 200 else 503)
           (JObj [(''ready'', JBool (reasons = [])), (''reasons'', JArr (map JStr reasons))]) wr, bump (bump w)))"

end
