(* ===== verification/Router.thy ===== *)
theory Router
  imports Handlers Webhook_Spec
begin

text \<open>
  \<^verbatim>\<open>internal/httpapi/router.go\<close>: the route table, the multiplexer of
  \<^verbatim>\<open>net/http\<close> as far as the table uses it, and the server \<^verbatim>\<open>New\<close> builds; what
  holds of every request the server answers.
\<close>

section \<open>The multiplexer\<close>

text \<open>
  A pattern is an optional method and the segments of a path: literal, \<^verbatim>\<open>{name}\<close>, and
  \<^verbatim>\<open>{name...}\<close> for the rest of the path after a slash.
\<close>

datatype pat = Lit string | Wild string | Rest string

record 'k route =
  rt_method :: "string option"
  rt_path :: "pat list"
  rt_handler :: "'k handler"

fun match_path :: "pat list \<Rightarrow> string list \<Rightarrow> str_map option" where
  "match_path [] ss = (if ss = [] then Some [] else None)"
| "match_path (p # ps) [] = None"
| "match_path (Lit l # ps) (sg # ss) = (if l = sg then match_path ps ss else None)"
| "match_path (Wild n # ps) (sg # ss) = (if sg = '''' then None else map_option ((#) (n, sg)) (match_path ps ss))"
| "match_path (Rest n # ps) (sg # ss) = Some [(n, Join (sg # ss) ''/'')]"

text \<open>A pattern with GET also matches HEAD.\<close>

definition method_match :: "string option \<Rightarrow> string \<Rightarrow> bool" where
  "method_match pm m \<longleftrightarrow> (case pm of None \<Rightarrow> True | Some x \<Rightarrow> m = x \<or> x = ''GET'' \<and> m = ''HEAD'')"

definition route_matches :: "request \<Rightarrow> 'k route \<Rightarrow> bool" where
  "route_matches r rt \<longleftrightarrow> method_match (rt_method rt) (r_method r) \<and> match_path (rt_path rt) (segs r) \<noteq> None"

definition run_route :: "'k route \<Rightarrow> 'k handler" where
  "run_route rt r s = rt_handler rt (r\<lparr>path_vals := the (match_path (rt_path rt) (segs r))\<rparr>) s"

text \<open>The methods that would match the path, in order.\<close>

definition allowed_methods :: "'k route list \<Rightarrow> request \<Rightarrow> string list" where
  "allowed_methods rts r =
     filter (\<lambda>m. list_ex (\<lambda>rt. rt_method rt \<noteq> None \<and> method_match (rt_method rt) m \<and> match_path (rt_path rt) (segs r) \<noteq> None) rts)
       [''DELETE'', ''GET'', ''HEAD'', ''POST'']"

text \<open>
  At most one pattern of the table matches a request (\<open>one_route\<close> in \<^verbatim>\<open>Routing_Spec\<close>), so the order of the
  table does not matter. A path that is not clean is redirected to its clean form.
\<close>

definition ServeMux :: "(request \<Rightarrow> string option) \<Rightarrow> 'k route list \<Rightarrow> 'k handler" where
  "ServeMux clean rts r s =
     (case clean r of
        Some url \<Rightarrow> (case s of (wr, w) \<Rightarrow> (None, http_Redirect r url 301 wr, w))
      | None \<Rightarrow>
          (case find (route_matches r) rts of
             Some rt \<Rightarrow> run_route rt r s
           | None \<Rightarrow>
               (case s of (wr, w) \<Rightarrow>
                  if allowed_methods rts r \<noteq> []
                  then (None, http_Error ''Method Not Allowed'' 405
                          (Header_Set ''Allow'' (Join (allowed_methods rts r) '', '') wr), w)
                  else (None, http_Error ''404 page not found'' 404 wr, w))))"

section \<open>The table and the server\<close>

definition route_to :: "string option \<Rightarrow> pat list \<Rightarrow> 'k handler \<Rightarrow> 'k route" where
  "route_to m p h = \<lparr>rt_method = m, rt_path = p, rt_handler = h\<rparr>"

definition bins_path :: "pat list" where
  "bins_path = [Lit ''api'', Lit ''cloud'', Lit ''webhook'', Lit ''bins'']"

definition public_routes :: "'k server \<Rightarrow> 'k route list" where
  "public_routes sv =
     [route_to (Some ''GET'') [Lit ''healthz''] (handleHealthz sv),
      route_to (Some ''GET'') [Lit ''readyz''] (handleReadyz sv),
      route_to (Some ''GET'') [Lit ''auth'', Lit ''status''] (auth_Status (sv_google sv)),
      route_to (Some ''GET'') [Lit ''auth'', Lit ''google'']
        (Begin (sv_env sv) (lib_oauth sv) (sv_google sv) (sv_sessions sv)),
      route_to (Some ''GET'') [Lit ''auth'', Lit ''google'', Lit ''callback'']
        (Callback (sv_env sv) (lib_jwt sv) (lib_oauth sv) (sv_google sv) (sv_sessions sv)),
      route_to (Some ''GET'') [Lit ''auth'', Lit ''me''] (Me (sv_env sv) (lib_jwt sv) (sv_sessions sv)),
      route_to (Some ''POST'') [Lit ''auth'', Lit ''logout''] (Logout (sv_sessions sv)),
      route_to (Some ''POST'') [Lit ''api'', Lit ''events'', Lit ''visitor''] (handleVisitorEvent sv)]"

definition cloud_table :: "'k server \<Rightarrow> (string \<times> pat list \<times> 'k handler) list" where
  "cloud_table sv =
     [(''POST'', [Lit ''api'', Lit ''cloud'', Lit ''smtp'', Lit ''test''], handleSMTPTest sv),
      (''POST'', [Lit ''api'', Lit ''cloud'', Lit ''smtp'', Lit ''check-auth''], handleSMTPCheckAuth sv),
      (''GET'', bins_path, handleListBins sv),
      (''POST'', bins_path, handleCreateBin sv),
      (''GET'', bins_path @ [Wild ''id''], handleGetBin sv),
      (''DELETE'', bins_path @ [Wild ''id''], handleDeleteBin sv),
      (''DELETE'', bins_path @ [Wild ''id'', Lit ''hits''], handleClearHits sv),
      (''GET'', bins_path @ [Wild ''id'', Lit ''hits''], handleListHits sv),
      (''GET'', bins_path @ [Wild ''id'', Lit ''hits'', Wild ''hitId''], handleGetHit sv)]"

text \<open>Every cloud tool is behind \<^const>\<open>RequireActiveUser\<close>.\<close>

definition cloud_routes :: "'k server \<Rightarrow> 'k route list" where
  "cloud_routes sv = map (\<lambda>(m, p, h). route_to (Some m) p (RequireActiveUser sv h)) (cloud_table sv)"

definition hook_routes :: "'k server \<Rightarrow> 'k route list" where
  "hook_routes sv =
     [route_to None [Lit ''hook'', Wild ''id''] (handleHookIngest sv),
      route_to None [Lit ''hook'', Wild ''id'', Rest ''path''] (handleHookIngest sv)]"

definition routes :: "'k server \<Rightarrow> 'k route list" where
  "routes sv = public_routes sv @ cloud_routes sv @ hook_routes sv"

definition NewServer :: "'k server \<Rightarrow> 'k handler" where
  "NewServer sv = chain (ServeMux (lib_clean sv) (routes sv)) (middlewares (sv_env sv) (sv_origins sv))"

text \<open>One request, from a fresh response writer to the end of the response.\<close>

definition serve :: "'k server \<Rightarrow> request \<Rightarrow> 'k world \<Rightarrow> writer \<times> 'k world" where
  "serve sv r w = (case NewServer sv r (new_writer, w) of (_, wr, w) \<Rightarrow> (finish_writer wr, w))"

end
