(* ===== verification/Server_Contract.thy ===== *)
theory Server_Contract
  imports Router
begin

text \<open>
  The contract every handler of the server meets (no panic, no foreign header, the tables
  change by calls of the store), as a locale, its proof for each handler and for the
  multiplexer, and what it says of a whole request.
\<close>

section \<open>The contract of a handler\<close>

text \<open>
  What every handler of the server keeps: it does not panic, touches no response header but
  its own, and its effects on the tables are a sequence of calls of the webhook store and of
  changes elsewhere; only with the flag may it add hits.
\<close>

definition store_steps :: "bool \<Rightarrow> 'k server \<Rightarrow> 'k world \<Rightarrow> 'k world \<Rightarrow> bool" where
  "store_steps c sv =
     (\<lambda>w w'. hook_step (sv_env sv) (hooks sv) w w' \<and>
        (c \<or> set (webhook_hits (db w')) \<subseteq> set (webhook_hits (db w))))\<^sup>*\<^sup>*"

lemma store_steps_refl [simp, intro]: "store_steps c sv w w"
  by (simp add: store_steps_def)

lemma store_steps_trans: "store_steps c sv a b \<Longrightarrow> store_steps c sv b d \<Longrightarrow> store_steps c sv a d"
  unfolding store_steps_def by (rule rtranclp_trans)

lemma store_steps_one:
  "hook_step (sv_env sv) (hooks sv) w w' \<Longrightarrow> c \<or> set (webhook_hits (db w')) \<subseteq> set (webhook_hits (db w)) \<Longrightarrow>
     store_steps c sv w w'"
  unfolding store_steps_def by (rule r_into_rtranclp) simp

lemma store_steps_hits: "store_steps False sv w w' \<Longrightarrow> set (webhook_hits (db w')) \<subseteq> set (webhook_hits (db w))"
  unfolding store_steps_def by (induction rule: rtranclp_induct) auto

lemma store_steps_hook: "store_steps c sv w w' \<Longrightarrow> (hook_step (sv_env sv) (hooks sv))\<^sup>*\<^sup>* w w'"
  unfolding store_steps_def by (erule rtranclp_mono [THEN predicate2D, rotated]) auto

lemma hits_pruned: "pruned d d' \<Longrightarrow> set (webhook_hits d') \<subseteq> set (webhook_hits d)"
  by (erule pruned_inv) (use delete_bins_hits in auto)

lemma hits_Create: "set (webhook_hits (db (snd (Create e s u n w)))) \<subseteq> set (webhook_hits (db w))"
proof -
  obtain d where d: "pruned (db w) d" and c: "db (snd (Create e s u n w)) = d \<or>
      (\<exists>b t. stmt_insert_bin b t d = (Inr (), db (snd (Create e s u n w))))"
    using Create_db by blast
  then show ?thesis using hits_pruned [OF d] insert_bin_effect(2) by fastforce
qed

lemma hits_ClearHits: "set (webhook_hits (db (snd (ClearHits e s u b w)))) \<subseteq> set (webhook_hits (db w))"
proof -
  obtain d where d: "pruned (db w) d" and c: "db (snd (ClearHits e s u b w)) = d \<or>
      pruned (touch b 0 None (snd (stmt_delete_hits b 0 d))) (db (snd (ClearHits e s u b w)))"
    using ClearHits_db by blast
  have "set (webhook_hits (touch b 0 None (snd (stmt_delete_hits b 0 d)))) \<subseteq> set (webhook_hits d)"
    by (auto simp: stmt_delete_hits_def)
  then show ?thesis using c hits_pruned [OF d] hits_pruned by blast
qed

lemma store_steps_elsewhere:
  assumes "webhook_bins (db w') = webhook_bins (db w)" "webhook_hits (db w') = webhook_hits (db w)"
    and "db_ok (db w) \<Longrightarrow> db_ok (db w')"
  shows "store_steps c sv w w'"
  by (rule store_steps_one [OF hook_step.elsewhere]) (use assms in auto)

lemma store_steps_db: "db w' = db w \<Longrightarrow> store_steps c sv w w'"
  by (rule store_steps_elsewhere) simp_all

text \<open>A step of the store, found by its result.\<close>

lemma store_steps_op:
  "Create (sv_env sv) (hooks sv) u n w = (x1, w') \<Longrightarrow> store_steps c sv w w'"
  "List_bins (sv_env sv) (hooks sv) u w = (x2, w') \<Longrightarrow> store_steps c sv w w'"
  "Get_bin (sv_env sv) (hooks sv) u b w = (x3, w') \<Longrightarrow> store_steps c sv w w'"
  "Delete_bin (sv_env sv) (hooks sv) u b w = (x4, w') \<Longrightarrow> store_steps c sv w w'"
  "ClearHits (sv_env sv) (hooks sv) u b w = (x5, w') \<Longrightarrow> store_steps c sv w w'"
  "Ingest (sv_env sv) (hooks sv) b i w = (x6, w') \<Longrightarrow> store_steps True sv w w'"
  "ListHits (sv_env sv) (hooks sv) u b l a w = (x7, w') \<Longrightarrow> store_steps c sv w w'"
  "GetHit (sv_env sv) (hooks sv) u b h w = (x8, w') \<Longrightarrow> store_steps c sv w w'"
  "PublicExists (sv_env sv) (hooks sv) b w = (x9, w') \<Longrightarrow> store_steps c sv w w'"
proof -
  show "Create (sv_env sv) (hooks sv) u n w = (x1, w') \<Longrightarrow> store_steps c sv w w'"
    using hits_Create by (metis store_steps_one hook_step.create snd_conv)
  show "List_bins (sv_env sv) (hooks sv) u w = (x2, w') \<Longrightarrow> store_steps c sv w w'"
    using hits_pruned [OF List_bins_db] by (metis store_steps_one hook_step.list_bins snd_conv)
  show "Get_bin (sv_env sv) (hooks sv) u b w = (x3, w') \<Longrightarrow> store_steps c sv w w'"
    using hits_pruned [OF Get_bin_db] by (metis store_steps_one hook_step.get snd_conv)
  show "Delete_bin (sv_env sv) (hooks sv) u b w = (x4, w') \<Longrightarrow> store_steps c sv w w'"
    using hits_pruned [OF Delete_bin_db] by (metis store_steps_one hook_step.delete snd_conv)
  show "ClearHits (sv_env sv) (hooks sv) u b w = (x5, w') \<Longrightarrow> store_steps c sv w w'"
    using hits_ClearHits by (metis store_steps_one hook_step.clear_hits snd_conv)
  show "Ingest (sv_env sv) (hooks sv) b i w = (x6, w') \<Longrightarrow> store_steps True sv w w'"
    by (metis store_steps_one hook_step.ingest snd_conv)
  show "ListHits (sv_env sv) (hooks sv) u b l a w = (x7, w') \<Longrightarrow> store_steps c sv w w'"
    using hits_pruned [OF ListHits_db] by (metis store_steps_one hook_step.list_hits snd_conv)
  show "GetHit (sv_env sv) (hooks sv) u b h w = (x8, w') \<Longrightarrow> store_steps c sv w w'"
    using hits_pruned [OF GetHit_db] by (metis store_steps_one hook_step.get_hit snd_conv)
  show "PublicExists (sv_env sv) (hooks sv) b w = (x9, w') \<Longrightarrow> store_steps c sv w w'"
    using hits_pruned [OF PublicExists_db] by (metis store_steps_one hook_step.public_exists snd_conv)
qed

lemma store_steps_Allow: "Allow kv key l n w = (x, w') \<Longrightarrow> store_steps c sv w w'"
  using Allow_frame(1) [of kv key l n w] by (simp add: store_steps_db)

lemma UserFromRequest_frame [simp]:
  "db (snd (UserFromRequest e jw sm r w)) = db w" "vk (snd (UserFromRequest e jw sm r w)) = vk w"
  "logs (snd (UserFromRequest e jw sm r w)) = logs w"
  by (auto simp: UserFromRequest_def time_Now_def Let_def split: option.split)

lemma store_steps_user: "UserFromRequest e jw sm r w = (x, w') \<Longrightarrow> store_steps c sv w w'"
  using UserFromRequest_frame(1) [of e jw sm r w] by (simp add: store_steps_db)

lemma store_steps_banned: "IsBanned e u w = (x, w') \<Longrightarrow> store_steps c sv w w'"
  using IsBanned_db [of e u w] by (simp add: store_steps_db)

lemma store_steps_log [simp]: "store_steps c sv w w' \<Longrightarrow> store_steps c sv w (log_line m a w')"
  by (erule store_steps_trans, rule store_steps_db) simp

lemma store_steps_bump [simp]: "store_steps c sv w w' \<Longrightarrow> store_steps c sv w (bump w')"
  by (erule store_steps_trans, rule store_steps_db) simp

locale handler_contract =
  fixes c :: bool and sv :: "'k server" and h :: "'k handler"
  assumes no_panic: "fst (h r s) = None"
    and headers: "k \<notin> own_keys \<Longrightarrow> map_of (head_of (fst (snd (h r s)))) k = map_of (head_of (fst s)) k"
    and steps: "store_steps c sv (snd s) (snd (snd (h r s)))"
begin

lemma run:
  assumes "h r (wr, w) = (p, wr', w')"
  shows "p = None" "k \<notin> own_keys \<Longrightarrow> map_of (head_of wr') k = map_of (head_of wr) k" "store_steps c sv w w'"
  using no_panic [of r "(wr, w)"] headers [of k r "(wr, w)"] steps [of "(wr, w)" r] assms by simp_all

lemma run_after:
  assumes "h r (wr, w1) = (p, wr', w')" "store_steps c sv w w1"
  shows "store_steps c sv w w'"
  using run(3) [OF assms(1)] assms(2) by (blast intro: store_steps_trans)

end

text \<open>The shape in which the handlers meet it: by cases on the outcome.\<close>

lemma handler_contractI:
  assumes "\<And>r wr w p wr' w'. h r (wr, w) = (p, wr', w') \<Longrightarrow>
    p = None \<and> (\<forall>k. k \<notin> own_keys \<longrightarrow> map_of (head_of wr') k = map_of (head_of wr) k) \<and> store_steps c sv w w'"
  shows "handler_contract c sv h"
proof
  fix r s k
  obtain p wr' w' where r: "h r s = (p, wr', w')" by (metis prod.collapse)
  note a = assms [of r "fst s" "snd s" p wr' w', simplified, OF r]
  show "fst (h r s) = None" "store_steps c sv (snd s) (snd (snd (h r s)))" using a r by simp_all
  show "k \<notin> own_keys \<Longrightarrow> map_of (head_of (fst (snd (h r s)))) k = map_of (head_of (fst s)) k" using a r by simp
qed

lemma own_keys_mem [simp]:
  "''Retry-After'' \<in> own_keys" "''Content-Type'' \<in> own_keys" "''Cache-Control'' \<in> own_keys" "''Location'' \<in> own_keys"
  by (simp_all add: own_keys_def)

lemma head_Header_Set_other [simp]: "j \<noteq> k \<Longrightarrow> map_of (head_of (Header_Set k v wr)) j = map_of (head_of wr) j"
  by (cases "w_sent wr = None") (simp_all add: head_sent_Header_Set)

lemma head_own_Header_Set [simp]:
  "k \<in> own_keys \<Longrightarrow> j \<notin> own_keys \<Longrightarrow> map_of (head_of (Header_Set k v wr)) j = map_of (head_of wr) j"
  by (rule head_Header_Set_other) blast

lemma head_webhook_err [simp]:
  "k \<notin> own_keys \<Longrightarrow> map_of (head_of (writeWebhookErr er wr)) k = map_of (head_of wr) k"
  by (simp add: writeWebhookErr_def)

lemma head_too_many [simp]:
  "k \<notin> own_keys \<Longrightarrow> map_of (head_of (too_many retry extra wr)) k = map_of (head_of wr) k"
  by (simp add: too_many_def Let_def)

lemma head_cookies [simp]:
  "head_of (Clear sm wr) = head_of wr" "head_of (clearCookie sm n wr) = head_of wr"
  "head_of (setShortCookie sm n v ttl wr) = head_of wr"
  by (simp_all add: Clear_def clearCookie_def setShortCookie_def)

lemmas op_steps = store_steps_op store_steps_Allow store_steps_user store_steps_banned

lemma with_user_contract:
  assumes "\<And>u. handler_contract c sv (h u)"
  shows "handler_contract c sv (with_user h)"
proof (rule handler_contractI)
  fix r wr w p wr' w'
  assume e: "with_user h r (wr, w) = (p, wr', w')"
  show "p = None \<and> (\<forall>k. k \<notin> own_keys \<longrightarrow> map_of (head_of wr') k = map_of (head_of wr) k) \<and> store_steps c sv w w'"
  proof (cases "UserFromContext r")
    case (Some u)
    then show ?thesis using e handler_contract.run [OF assms, of u r wr w p wr' w'] by (simp add: with_user_def)
  qed (use e in \<open>auto simp: with_user_def\<close>)
qed

lemma rate_limited_contract:
  assumes "handler_contract c sv h"
  shows "handler_contract c sv (rate_limited sv key n window extra h)"
proof (rule handler_contractI)
  fix r wr w p wr' w'
  assume e: "rate_limited sv key n window extra h r (wr, w) = (p, wr', w')"
  obtain ok retry w1 where a: "Allow (sv_kv sv) key n window w = ((ok, retry), w1)" by (metis prod.collapse)
  have "store_steps c sv w w1" by (rule store_steps_Allow [OF a])
  then show "p = None \<and> (\<forall>k. k \<notin> own_keys \<longrightarrow> map_of (head_of wr') k = map_of (head_of wr) k) \<and> store_steps c sv w w'"
    using e handler_contract.run [OF assms, of r wr w1 p wr' w'] handler_contract.run_after [OF assms, of r wr w1 p wr' w' w]
    by (cases ok) (auto simp: rate_limited_def a)
qed

lemma RequireUser_contract:
  fixes sv :: "'k server"
  assumes "handler_contract c sv h"
  shows "handler_contract c sv (RequireUser e jw sm h)"
proof (rule handler_contractI)
  fix r wr w p wr' w'
  assume e: "RequireUser e jw sm h r (wr, w) = (p, wr', w')"
  obtain u w1 where a: "UserFromRequest e jw sm r w = (u, w1)" by (metis prod.collapse)
  have "store_steps c sv w w1" by (rule store_steps_user [OF a])
  then show "p = None \<and> (\<forall>k. k \<notin> own_keys \<longrightarrow> map_of (head_of wr') k = map_of (head_of wr) k) \<and> store_steps c sv w w'"
    using e handler_contract.run [OF assms, of _ wr w1 p wr' w'] handler_contract.run_after [OF assms, of _ wr w1 p wr' w' w]
    by (cases u) (auto simp: RequireUser_def a)
qed

lemma active_contract:
  assumes "handler_contract c sv h"
  shows "handler_contract c sv (RequireActiveUser sv h)"
  unfolding RequireActiveUser_def
proof (rule RequireUser_contract, rule with_user_contract, rule handler_contractI)
  fix u r wr w p wr' w'
  assume e: "(case (wr, w) of (wr, w) \<Rightarrow>
            (case IsBanned (sv_env sv) (ID u) w of
               (Inl er, w) \<Rightarrow>
                 (None, writeJSON 500 (err_obj ''session check failed'') wr,
                  log_line ''ban check failed'' [(''err'', error_text er), (''user_id'', ID u)] w)
             | (Inr True, w) \<Rightarrow>
                 (None, writeJSON 403 (err_obj ''account banned'') (Clear (sv_sessions sv) wr), w)
             | (Inr False, w) \<Rightarrow> h r (wr, w))) = (p, wr', w')"
  obtain b w1 where a: "IsBanned (sv_env sv) (ID u) w = (b, w1)" by fastforce
  have st: "store_steps c sv w w1" by (rule store_steps_banned [OF a])
  show "p = None \<and> (\<forall>k. k \<notin> own_keys \<longrightarrow> map_of (head_of wr') k = map_of (head_of wr) k) \<and> store_steps c sv w w'"
  proof (cases "b = Inr False")
    case True
    then show ?thesis
      using e st handler_contract.run [OF assms, of r wr w1 p wr' w'] handler_contract.run_after [OF assms, of r wr w1 p wr' w' w]
      by (simp add: a)
  next
    case False
    then show ?thesis using e st by (auto simp: a split: sum.splits bool.splits)
  qed
qed

section \<open>Every handler meets it\<close>

lemma bins_contracts:
  "handler_contract c sv (handleListBins sv)"
  "handler_contract c sv (handleDeleteBin sv)"
  "handler_contract c sv (handleClearHits sv)"
  "handler_contract c sv (handleGetHit sv)"
  unfolding handleListBins_def handleDeleteBin_def handleClearHits_def handleGetHit_def
  by (rule with_user_contract, rule handler_contractI, auto split: prod.splits sum.splits intro: store_steps_op)+

lemma two_call_contracts:
  "handler_contract c sv (handleGetBin sv)"
  "handler_contract c sv (handleListHits sv)"
  unfolding handleGetBin_def handleListHits_def Let_def
  by (rule with_user_contract, rule handler_contractI, auto split: prod.splits sum.splits
      intro: store_steps_op store_steps_trans [OF store_steps_op(3) store_steps_op(7)]
        store_steps_trans [OF store_steps_op(7) store_steps_op(3)])+

lemma create_contract: "handler_contract c sv (handleCreateBin sv)"
  unfolding handleCreateBin_def
  by (rule with_user_contract, rule rate_limited_contract, rule handler_contractI)
    (auto split: prod.splits sum.splits intro: store_steps_op(1))

lemma capture_contract: "handler_contract True sv (capture sv b)"
  by (rule handler_contractI) (auto simp: capture_def split: prod.splits sum.splits if_splits intro: store_steps_op(6))

lemma ingest_contract: "handler_contract True sv (handleHookIngest sv)"
proof (rule handler_contractI)
  fix r wr w p wr' w'
  assume e: "handleHookIngest sv r (wr, w) = (p, wr', w')"
  let ?b = "PathValue r ''id''"
  obtain x w1 where a: "PublicExists (sv_env sv) (hooks sv) ?b w = (x, w1)" by fastforce
  have st: "store_steps True sv w w1" by (rule store_steps_op(9) [OF a])
  have c: "handler_contract True sv (rate_limited sv (''hook:'' @ ?b) 120 Minute [] (capture sv ?b))"
    by (rule rate_limited_contract, rule capture_contract)
  show "p = None \<and> (\<forall>k. k \<notin> own_keys \<longrightarrow> map_of (head_of wr') k = map_of (head_of wr) k) \<and> store_steps True sv w w'"
    using e st handler_contract.run [OF c, of r wr w1 p wr' w'] handler_contract.run_after [OF c, of r wr w1 p wr' w' w]
    by (auto simp: handleHookIngest_def Let_def a split: if_splits bool.splits)
qed

lemma RunTest_frame:
  assumes "RunTest e f peer bad64 req w = (x, w')"
  shows "db w' = db w \<and> vk w' = vk w"
  using assms
  by (auto simp: RunTest_def Let_def step_def time_Now_def split: if_splits prod.splits sum.splits)

lemma smtp_contracts:
  "handler_contract c sv (handleSMTPTest sv)"
  "handler_contract c sv (handleSMTPCheckAuth sv)"
proof -
  show "handler_contract c sv (handleSMTPTest sv)"
    unfolding handleSMTPTest_def
    by (rule with_user_contract, rule rate_limited_contract, rule handler_contractI)
      (auto simp: Let_def split: prod.splits sum.splits option.splits dest!: RunTest_frame intro: store_steps_db)
  show "handler_contract c sv (handleSMTPCheckAuth sv)"
    unfolding handleSMTPCheckAuth_def
    by (rule with_user_contract, rule rate_limited_contract, rule handler_contractI)
      (auto simp: Let_def split: prod.splits sum.splits option.splits)
qed

lemma store_steps_job: "store_steps c sv w (track_job e sha kv v w)"
proof (rule store_steps_elsewhere)
  note ev = track_evolves [of w e sha kv v]
  show "webhook_bins (db (track_job e sha kv v w)) = webhook_bins (db w)"
    "webhook_hits (db (track_job e sha kv v w)) = webhook_hits (db w)"
    "db_ok (db w) \<Longrightarrow> db_ok (db (track_job e sha kv v w))"
    using ev by (simp_all add: evolves_def)
qed

lemma visitor_contract: "handler_contract c sv (handleVisitorEvent sv)"
proof (rule handler_contractI)
  fix r wr w p wr' w'
  assume e: "handleVisitorEvent sv r (wr, w) = (p, wr', w')"
  obtain ok retry w1 where a: "Allow (sv_kv sv) (visitor_key r) 60 Minute w = ((ok, retry), w1)"
    by (metis prod.collapse)
  obtain u w2 where b: "UserFromRequest (sv_env sv) (lib_jwt sv) (sv_sessions sv) r w1 = (u, w2)" by fastforce
  have 1: "store_steps c sv w w1" by (rule store_steps_Allow [OF a])
  have 2: "store_steps c sv w w2" by (rule store_steps_trans [OF 1 store_steps_user [OF b]])
  show "p = None \<and> (\<forall>k. k \<notin> own_keys \<longrightarrow> map_of (head_of wr') k = map_of (head_of wr) k) \<and> store_steps c sv w w'"
    using e 1 2
    by (cases ok) (auto simp: handleVisitorEvent_def visitor_event_def Let_def a b
        split: sum.splits option.splits if_splits intro: store_steps_trans [OF _ store_steps_job])
qed

lemma health_contracts:
  "handler_contract c sv (handleHealthz sv)"
  "handler_contract c sv (handleReadyz sv)"
  by (auto simp: handleHealthz_def handleReadyz_def Let_def time_Now_def intro!: handler_contractI)

lemma auth_contracts:
  "handler_contract c sv (auth_Status g)"
  "handler_contract c sv (Logout sm)"
  "handler_contract c sv (Me e jw sm)"
  by (auto simp: auth_Status_def Logout_def Me_def intro!: handler_contractI
      split: prod.splits sum.splits intro: store_steps_user)

lemma rand_Read_db: "rand_Read e n w = (x, w') \<Longrightarrow> db w' = db w"
  by (auto simp: rand_Read_def split: option.splits)

lemma begin_contract: "handler_contract c sv (Begin e ol g sm)"
  by (auto simp: Begin_def randomState_def Let_def intro!: handler_contractI
      split: prod.splits sum.splits if_splits dest!: rand_Read_db intro: store_steps_db)

lemma UpsertLogin_store_steps:
  "UpsertLogin e uid em nm pic ip w = (x, w') \<Longrightarrow> store_steps c sv w w'"
  using UpsertLogin_tables(1,2) [of e uid em nm pic ip w] UpsertLogin_db_ok [of w e uid em nm pic ip]
  by (simp add: store_steps_elsewhere)

lemma Issue_run:
  assumes "Issue e jw sm u (wr, w) = (x, wr', w')"
  shows "db w' = db w \<and> head_of wr' = head_of wr"
  using assms by (auto simp: Issue_def time_Now_def Let_def split: if_splits sum.splits)

lemma callback_session_contract: "handler_contract c sv (callback_session e jw g sm p)"
  by (auto simp: callback_session_def Let_def intro!: handler_contractI
      split: prod.splits option.splits dest!: Issue_run intro: store_steps_db)

lemma fetchUser_steps: "fetchUser ol tok w = (x, w') \<Longrightarrow> store_steps c sv w w'"
  using fetchUser_db [of ol tok w] by (simp add: store_steps_db)

lemma callback_contract:
  fixes sv :: "'k server"
  shows "handler_contract c sv (Callback e jw ol g sm)"
proof (rule handler_contractI)
  fix r wr p wr' and w w' :: "'k world"
  assume e: "Callback e jw ol g sm r (wr, w) = (p, wr', w')"
  show "p = None \<and> (\<forall>k. k \<notin> own_keys \<longrightarrow> map_of (head_of wr') k = map_of (head_of wr) k) \<and> store_steps c sv w w'"
  proof (cases "Enabled g \<and> query_Get r ''error'' = [] \<and> state_matches r \<and> query_Get r ''code'' \<noteq> []")
    case False
    then show ?thesis using e by (auto simp: Callback_def split: if_splits)
  next
    case True
    show ?thesis
    proof (cases "Exchange ol g (tick w) (query_Get r ''code'')")
      case (Inr tok)
      obtain pr w1 where f: "fetchUser ol tok (bump w) = (pr, w1)" by fastforce
      have 1: "store_steps c sv w w1" using fetchUser_steps [OF f] by (rule store_steps_trans [OF store_steps_bump [OF store_steps_refl]])
      show ?thesis
      proof (cases pr)
        case (Inr pp)
        obtain uo er w2 where u: "UpsertLogin e (ID pp) (Email pp) (Name pp) (Picture pp) (requestIP r) w1 = ((uo, er), w2)"
          by (metis surj_pair)
        have 2: "store_steps c sv w w2" by (rule store_steps_trans [OF 1 UpsertLogin_store_steps [OF u]])
        have cc: "handler_contract c sv (callback_session e jw g sm pp)" by (rule callback_session_contract)
        show ?thesis
          using e True \<open>Exchange _ _ _ _ = Inr tok\<close> f Inr u 2
            handler_contract.run [OF cc, of r wr w2 p wr' w'] handler_contract.run_after [OF cc, of r wr w2 p wr' w' w]
          by (cases er) (auto simp: Callback_def split: if_splits)
      qed (use e True Inr f 1 in \<open>auto simp: Callback_def\<close>)
    qed (use e True in \<open>auto simp: Callback_def\<close>)
  qed
qed

section \<open>The whole server meets it\<close>

lemma public_contract: "rt \<in> set (public_routes sv) \<Longrightarrow> handler_contract c sv (rt_handler rt)"
  by (auto simp: public_routes_def route_to_def intro: health_contracts auth_contracts begin_contract
      callback_contract visitor_contract)

lemma cloud_contract: "rt \<in> set (cloud_routes sv) \<Longrightarrow> handler_contract c sv (rt_handler rt)"
  by (auto simp: cloud_routes_def cloud_table_def route_to_def intro!: active_contract
      intro: smtp_contracts bins_contracts two_call_contracts create_contract)

lemma hook_contract: "rt \<in> set (hook_routes sv) \<Longrightarrow> handler_contract True sv (rt_handler rt)"
  by (auto simp: hook_routes_def route_to_def intro: ingest_contract)

lemma mux_contract:
  fixes sv :: "'k server"
  assumes "\<And>rt. rt \<in> set rts \<Longrightarrow> route_matches r rt \<Longrightarrow> handler_contract c sv (rt_handler rt)"
    and "ServeMux clean rts r (wr, w) = (p, wr', w')"
  shows "p = None" "k \<notin> own_keys \<Longrightarrow> map_of (head_of wr') k = map_of (head_of wr) k" "store_steps c sv w w'"
proof -
  have "p = None \<and> (\<forall>k. k \<notin> own_keys \<longrightarrow> map_of (head_of wr') k = map_of (head_of wr) k) \<and> store_steps c sv w w'"
  proof (cases "clean r = None \<and> find (route_matches r) rts \<noteq> None")
    case True
    then obtain rt where rt: "find (route_matches r) rts = Some rt" by blast
    then have "handler_contract c sv (rt_handler rt)" using assms(1) find_Some_mem by metis
    from handler_contract.run [OF this] show ?thesis
      using assms(2) True rt by (simp add: ServeMux_def run_route_def)
  next
    case False
    then show ?thesis
      using assms(2) by (auto simp: ServeMux_def own_keys_def split: option.splits if_splits)
  qed
  then show "p = None" "k \<notin> own_keys \<Longrightarrow> map_of (head_of wr') k = map_of (head_of wr) k" "store_steps c sv w w'"
    by blast+
qed

interpretation mux: handler_contract True sv "ServeMux (lib_clean sv) (routes sv)" for sv :: "'k server"
proof (rule handler_contractI)
  fix r wr w p wr' w'
  assume m: "ServeMux (lib_clean sv) (routes sv) r (wr, w) = (p, wr', w')"
  have "handler_contract True sv (rt_handler rt)" if "rt \<in> set (routes sv)" for rt
    using that public_contract cloud_contract hook_contract unfolding routes_def by (metis UnE set_append)
  then show "p = None \<and> (\<forall>k. k \<notin> own_keys \<longrightarrow> map_of (head_of wr') k = map_of (head_of wr) k) \<and> store_steps True sv w w'"
    using mux_contract [of "routes sv" r True sv, OF _ m] by blast
qed

text \<open>The response writer the multiplexer gets: the headers of the middleware are set.\<close>

definition front_writer :: "string list \<Rightarrow> request \<Rightarrow> writer" where
  "front_writer origins r =
     (let wr = Header_Set ''Cache-Control'' ''no-store''
                 (Header_Set ''Referrer-Policy'' ''strict-origin-when-cross-origin''
                   (Header_Set ''X-Frame-Options'' ''DENY''
                     (Header_Set ''X-Content-Type-Options'' ''nosniff'' new_writer)))
      in if cors_allowed origins r then cors_headers (TrimRight (header_Get r ''Origin'') ''/'') wr else wr)"

lemma front_writer_sent [simp]: "w_sent (front_writer origins r) = None" "w_cookies (front_writer origins r) = []"
  by (simp_all add: front_writer_def Let_def cors_headers_def)

definition inner_handler :: "'k server \<Rightarrow> 'k handler" where
  "inner_handler sv r s =
     (case s of (wr, w) \<Rightarrow>
        if r_method r = ''OPTIONS'' then (None, WriteHeader 204 wr, w) else ServeMux (lib_clean sv) (routes sv) r (wr, w))"

lemma cors_inner:
  "withSecurityHeaders (withCORS (sv_origins sv) (ServeMux (lib_clean sv) (routes sv))) r (new_writer, w) =
     inner_handler sv r (front_writer (sv_origins sv) r, w)"
  by (auto simp: withSecurityHeaders_def withCORS_def front_writer_def inner_handler_def cors_allowed_def Let_def image_image)

lemma new_writer_last [simp]: "new_writer\<lparr>w_last := 200\<rparr> = new_writer"
  by (simp add: new_writer_def)

lemma inner_no_panic: "fst (inner_handler sv r s) = None"
  using mux.no_panic [of sv r s] by (cases s) (simp add: inner_handler_def)

lemma serve_result:
  assumes "inner_handler sv r (front_writer (sv_origins sv) r, bump w) = (p, wr, w1)"
  shows "serve sv r w = (finish_writer wr,
    log_line ''request''
      [(''method'', r_method r), (''path'', url_path r), (''status'', Itoa (w_last wr)),
       (''duration_ms'', Itoa (Milliseconds (go_Now (sv_env sv) (tick w1) - go_Now (sv_env sv) (tick w)))),
       (''ip'', clientIP r)] (bump w1))"
proof -
  have "p = None" using inner_no_panic [of sv r "(front_writer (sv_origins sv) r, bump w)"] assms by simp
  then show ?thesis
    by (simp add: serve_def NewServer_def middlewares_def withRecover_def withAccessLog_def Let_def time_Now_def cors_inner assms)
qed

lemma serve_inner:
  assumes "inner_handler sv r (front_writer (sv_origins sv) r, bump w) = (p, wr, w1)"
  shows "fst (serve sv r w) = finish_writer wr" "db (snd (serve sv r w)) = db w1" "vk (snd (serve sv r w)) = vk w1"
  by (simp_all add: serve_result [OF assms])

lemma finish_head [simp]: "head_of (finish_writer wr) = head_of wr" "status_of (finish_writer wr) = status_of wr"
  "w_cookies (finish_writer wr) = w_cookies wr"
  by (auto simp: finish_writer_def status_of_def head_of_def WriteHeader_def)

lemma serve_steps: "store_steps True sv w (snd (serve sv r w))"
proof -
  obtain p wr w1 where i: "inner_handler sv r (front_writer (sv_origins sv) r, bump w) = (p, wr, w1)"
    by (metis prod.collapse)
  have "store_steps True sv (bump w) w1"
    using i mux.run(3) [of sv r "front_writer (sv_origins sv) r" "bump w" p wr w1]
    by (auto simp: inner_handler_def split: if_splits)
  then have "store_steps True sv w w1" by (rule store_steps_trans [OF store_steps_bump [OF store_steps_refl]])
  then show ?thesis
    by (rule store_steps_trans) (rule store_steps_db, simp add: serve_inner [OF i])
qed

lemma serve_head:
  assumes "k \<notin> own_keys"
  shows "map_of (head_of (fst (serve sv r w))) k = map_of (w_header (front_writer (sv_origins sv) r)) k"
proof -
  obtain p wr w1 where i: "inner_handler sv r (front_writer (sv_origins sv) r, bump w) = (p, wr, w1)"
    by (metis prod.collapse)
  have "map_of (head_of wr) k = map_of (head_of (front_writer (sv_origins sv) r)) k"
    using i mux.run(2) [of sv r "front_writer (sv_origins sv) r" "bump w" p wr w1 k] assms
    by (auto simp: inner_handler_def split: if_splits)
  then show ?thesis using serve_inner(1) [OF i] by (simp add: head_of_def [of "front_writer _ _"])
qed

end
