(* ===== verification/Server_Spec.thy ===== *)
theory Server_Spec
  imports Server_Contract
begin

text \<open>
  What holds of every request the server answers: the limits of the tables, cross-origin
  access, preflights, the guard of the cloud tools, and what a captured request stores.
\<close>

section \<open>The limits hold for the whole server\<close>

text \<open>
  States of a running server: from empty tables by requests of any clients, by delayed
  visitor jobs, and by anything that leaves the tables alone (time, restarts, other users of
  Valkey).
\<close>

inductive server_reach :: "'k server \<Rightarrow> 'k world \<Rightarrow> bool" for sv where
  start: "db w = empty_db \<Longrightarrow> server_reach sv w"
| request: "server_reach sv w \<Longrightarrow> server_reach sv (snd (serve sv r w))"
| job: "server_reach sv w \<Longrightarrow> server_reach sv (track_job (sv_env sv) (lib_sha sv) kv v w)"
| idle: "server_reach sv w \<Longrightarrow> db w' = db w \<Longrightarrow> server_reach sv w'"

lemma hook_reach_steps: "(hook_step e s)\<^sup>*\<^sup>* w w' \<Longrightarrow> hook_reach e s w \<Longrightarrow> hook_reach e s w'"
  by (induction rule: rtranclp_induct) (auto intro: hook_reach.step)

lemma server_hook_reach: "server_reach sv w \<Longrightarrow> hook_reach (sv_env sv) (hooks sv) w"
proof (induction rule: server_reach.induct)
  case (request w r)
  then show ?case using store_steps_hook [OF serve_steps] hook_reach_steps by blast
next
  case (job w kv v)
  then show ?case using store_steps_hook [OF store_steps_job] hook_reach_steps by blast
next
  case (idle w w')
  then show ?case using store_steps_hook [OF store_steps_db] hook_reach_steps by blast
qed (rule hook_reach.start)


section \<open>Headers of every response\<close>

lemma serve_cors:
  "map_of (head_of (fst (serve sv r w))) ''Access-Control-Allow-Origin'' =
     (if cors_allowed (sv_origins sv) r then Some (TrimRight (header_Get r ''Origin'') ''/'') else None)"
  "map_of (head_of (fst (serve sv r w))) ''Access-Control-Allow-Credentials'' =
     (if cors_allowed (sv_origins sv) r then Some ''true'' else None)"
  "map_of (head_of (fst (serve sv r w))) ''X-Frame-Options'' = Some ''DENY''"
proof -
  have "k \<notin> own_keys" if "k \<in> {''Access-Control-Allow-Origin'', ''Access-Control-Allow-Credentials'', ''X-Frame-Options''}" for k
    using that by (auto simp: own_keys_def)
  note own = this
  show
    "map_of (head_of (fst (serve sv r w))) ''Access-Control-Allow-Origin'' =
       (if cors_allowed (sv_origins sv) r then Some (TrimRight (header_Get r ''Origin'') ''/'') else None)"
    "map_of (head_of (fst (serve sv r w))) ''Access-Control-Allow-Credentials'' =
       (if cors_allowed (sv_origins sv) r then Some ''true'' else None)"
    "map_of (head_of (fst (serve sv r w))) ''X-Frame-Options'' = Some ''DENY''"
    using own by (simp_all add: serve_head front_writer_def Let_def cors_headers_def Header_Set_def new_writer_def)
qed

text \<open>
  Cross-origin access is for the configured origins only: every response, also to an
  error, a preflight or an unknown path, allows exactly the request's origin with credentials
  when it is configured (up to slashes at its end) and nobody otherwise, and forbids framing.
\<close>

theorem cors_only_for_configured_origins:
  "map_of (head_of (fst (serve sv r w))) ''Access-Control-Allow-Origin'' =
     (if cors_allowed (sv_origins sv) r then Some (TrimRight (header_Get r ''Origin'') ''/'') else None) \<and>
   map_of (head_of (fst (serve sv r w))) ''Access-Control-Allow-Credentials'' =
     (if cors_allowed (sv_origins sv) r then Some ''true'' else None) \<and>
   map_of (head_of (fst (serve sv r w))) ''X-Frame-Options'' = Some ''DENY''"
  by (simp add: serve_cors)

text \<open>
  A preflight runs no handler: an OPTIONS request is answered with 204 and touches no
  table and no counter, whatever its path.
\<close>

lemma preflight_runs_no_handler:
  assumes "r_method r = ''OPTIONS''"
  shows "status_of (fst (serve sv r w)) = 204 \<and> w_body (fst (serve sv r w)) = [] \<and>
    db (snd (serve sv r w)) = db w \<and> vk (snd (serve sv r w)) = vk w"
proof -
  have i: "inner_handler sv r (front_writer (sv_origins sv) r, bump w) =
      (None, WriteHeader 204 (front_writer (sv_origins sv) r), bump w)"
    using assms by (simp add: inner_handler_def)
  have "w_body (front_writer (sv_origins sv) r) = []"
    by (simp add: front_writer_def Let_def cors_headers_def Header_Set_def new_writer_def)
  then show ?thesis
    by (simp add: serve_inner [OF i] status_of_def finish_writer_def) (simp add: WriteHeader_def)
qed

section \<open>Routing\<close>

lemma match_lit [simp]: "match_path (Lit l # ps) ss = Some vs \<longleftrightarrow> (\<exists>ss'. ss = l # ss' \<and> match_path ps ss' = Some vs)"
  by (cases ss) auto

lemma match_wild [simp]:
  "match_path (Wild n # ps) ss = Some vs \<longleftrightarrow>
     (\<exists>x ss' vs'. ss = x # ss' \<and> x \<noteq> [] \<and> vs = (n, x) # vs' \<and> match_path ps ss' = Some vs')"
  by (cases ss) auto

lemma match_rest [simp]:
  "match_path [Rest n] ss = Some vs \<longleftrightarrow> ss \<noteq> [] \<and> vs = [(n, Join ss ''/'')]"
  by (cases ss) auto

lemma match_end [simp]: "match_path [] ss = Some vs \<longleftrightarrow> ss = [] \<and> vs = []"
  by auto

declare match_path.simps(1) [simp del]

lemma route_matches_Some:
  "route_matches r rt \<longleftrightarrow> method_match (rt_method rt) (r_method r) \<and> (\<exists>vs. match_path (rt_path rt) (segs r) = Some vs)"
  by (auto simp: route_matches_def)

lemma match_cloud:
  assumes "segs r = ''api'' # ''cloud'' # ss" "rt \<in> set (routes sv)" "route_matches r rt"
  shows "rt \<in> set (cloud_routes sv)"
proof -
  have "rt \<notin> set (public_routes sv)" "rt \<notin> set (hook_routes sv)"
    using assms(1,3) by (auto simp: public_routes_def hook_routes_def route_to_def route_matches_Some)
  then show ?thesis using assms(2) by (simp add: routes_def)
qed

lemma match_hook:
  assumes "rt \<in> set (hook_routes sv)" "match_path (rt_path rt) (segs r) = Some vs"
  shows "rt_handler rt = handleHookIngest sv \<and>
    (\<exists>b ss. segs r = ''hook'' # b # ss \<and> b \<noteq> [] \<and> map_of vs ''id'' = Some b \<and>
       map_of vs ''path'' = (if ss = [] then None else Some (Join ss ''/'')))"
proof -
  consider "rt_handler rt = handleHookIngest sv" "rt_path rt = [Lit ''hook'', Wild ''id'']"
    | "rt_handler rt = handleHookIngest sv" "rt_path rt = [Lit ''hook'', Wild ''id'', Rest ''path'']"
    using assms(1) unfolding hook_routes_def route_to_def by force
  then show ?thesis
  proof cases
    case 1
    then obtain b where "segs r = [''hook'', b]" "b \<noteq> []" "vs = [(''id'', b)]" using assms(2) by auto
    then show ?thesis using 1 by simp
  next
    case 2
    then obtain b ss where "segs r = ''hook'' # b # ss" "b \<noteq> []" "ss \<noteq> []"
        "vs = [(''id'', b), (''path'', Join ss ''/'')]" using assms(2) by auto
    then show ?thesis using 2 by simp
  qed
qed

text \<open>What the multiplexer does with a request.\<close>

lemma mux_result:
  assumes "ServeMux clean rts r (wr, w) = (p, wr', w')" "w_sent wr = None"
  obtains rt vs where "rt \<in> set rts" "method_match (rt_method rt) (r_method r)" "match_path (rt_path rt) (segs r) = Some vs"
      "rt_handler rt (r\<lparr>path_vals := vs\<rparr>) (wr, w) = (p, wr', w')"
    | "w' = w" "status_of wr' \<in> {301, 404, 405}"
proof (cases "clean r = None \<and> find (route_matches r) rts \<noteq> None")
  case True
  then obtain rt where rt: "find (route_matches r) rts = Some rt" by blast
  then have "rt \<in> set rts" "route_matches r rt" using find_Some_mem by metis+
  then show ?thesis
    using that(1) [of rt] assms(1) True rt by (auto simp: route_matches_Some ServeMux_def run_route_def)
next
  case False
  have st: "status_of (http_Error m n wr1) = n" if "w_sent wr1 = None" for m n wr1
    using that by (simp add: status_of_def http_Error_def write_out_def Let_def WriteHeader_def Header_Set_def)
  then show ?thesis
    using that(2) False assms by (auto simp: ServeMux_def split: option.splits if_splits)
qed

section \<open>The cloud tools are for active users\<close>

lemma session_path_vals [simp]:
  "UserFromRequest e jw sm (r\<lparr>path_vals := vs\<rparr>) w = UserFromRequest e jw sm r w"
  by (simp add: UserFromRequest_def)

text \<open>The request carries a session of a user who is not banned, at some time.\<close>

definition may_act :: "'k server \<Rightarrow> request \<Rightarrow> 'k world \<Rightarrow> bool" where
  "may_act sv r w \<longleftrightarrow>
     (\<exists>v u. fst (UserFromRequest (sv_env sv) (lib_jwt sv) (sv_sessions sv) r (v :: 'k world)) = Inr u \<and>
        user_status (db w) (ID u) \<noteq> Some StatusBanned)"

lemma IsBanned_False: "IsBanned e uid w = (Inr False, w') \<Longrightarrow> user_status (db w) uid \<noteq> Some StatusBanned"
proof
  assume b: "IsBanned e uid w = (Inr False, w')" and s: "user_status (db w) uid = Some StatusBanned"
  obtain x w1 where r: "sql_row e [uid] (stmt_select_user uid) w = (x, w1)" by fastforce
  show False
  proof (cases x)
    case (Inl er)
    have "errors_Is er ErrNoRows" using b r Inl by (auto simp: IsBanned_def split: if_splits)
    then show False
      using r s Inl
      by (auto simp: sql_row_def sql_exec_def sql_run_def stmt_select_user_def user_status_def
          split: prod.splits sum.splits option.splits pg_outcome.splits if_splits)
  next
    case (Inr u)
    have "tbl_lookup u_id uid (users (db w)) = Some u"
      using sql_exec_Inr(3) [OF sql_row_Inr [OF r [unfolded Inr]]] by (auto simp: stmt_select_user_def)
    then show False using b r s Inr by (simp add: IsBanned_def user_status_def)
  qed
qed

lemma status_writeJSON [simp]: "w_sent wr = None \<Longrightarrow> status_of (writeJSON n j wr) = n"
  by (simp add: status_of_def writeJSON_def write_out_def WriteHeader_def Header_Set_def)

lemma sent_Clear [simp]: "w_sent (Clear sm wr) = w_sent wr"
  by (simp add: Clear_def)

lemma guard_blocks:
  fixes sv :: "'k server"
  assumes "\<not> may_act sv r w" "w_sent wr = None" "db w1 = db w"
    and "RequireActiveUser sv h (r\<lparr>path_vals := vs\<rparr>) (wr, w1) = (p, wr', w')"
  shows "db w' = db w \<and> vk w' = vk w1 \<and> status_of wr' \<in> {401, 403, 500}"
proof -
  obtain x w2 where u: "UserFromRequest (sv_env sv) (lib_jwt sv) (sv_sessions sv) r w1 = (x, w2)" by fastforce
  have w2: "db w2 = db w" "vk w2 = vk w1"
    using UserFromRequest_frame(1,2) [of "sv_env sv" "lib_jwt sv" "sv_sessions sv" r w1] u assms(3) by simp_all
  show ?thesis
  proof (cases x)
    case (Inl er)
    then show ?thesis using assms(2,4) u w2 by (auto simp: RequireActiveUser_def RequireUser_def)
  next
    case (Inr usr)
    then have ban: "user_status (db w2) (ID usr) = Some StatusBanned"
      using assms(1) u w2 unfolding may_act_def by (metis fst_conv)
    obtain b w3 where b: "IsBanned (sv_env sv) (ID usr) w2 = (b, w3)" by fastforce
    have w3: "db w3 = db w2" "vk w3 = vk w2"
      using b IsBanned_db [of "sv_env sv" "ID usr" w2]
      by (auto simp: IsBanned_def split: prod.splits sum.splits if_splits dest!: sql_row_eqD)
    have "b \<noteq> Inr False" using IsBanned_False [of "sv_env sv" "ID usr" w2 w3] b ban by blast
    then show ?thesis
      using assms(2,4) u w2 w3 b Inr
      by (auto simp: RequireActiveUser_def RequireUser_def with_user_def WithUser_def UserFromContext_def
          split: sum.splits bool.splits)
  qed
qed


section \<open>A concrete server\<close>

text \<open>A server whose clocks stand still, on a working database and Valkey.\<close>

definition still_env :: env where
  "still_env = (demo_env 0)\<lparr>go_Now := (\<lambda>_. 10 * Second), pg_NOW := (\<lambda>_. 10 * Second)\<rparr>"

definition demo_server :: "kv_map server" where
  "demo_server = \<lparr>sv_env = still_env, sv_mode = ''production'', sv_front = ''https://site'', sv_base = [],
     sv_origins = [''https://site/''], sv_google = demo_google, sv_sessions = demo_sm,
     sv_kv = mem_valkey (\<lambda>_. 10 * Second) (\<lambda>_. False), sv_started = 0, lib_jwt = demo_jwt, lib_oauth = demo_oauth,
     lib_name = (\<lambda>s. s), lib_smtp = (\<lambda>_. None), lib_check = (\<lambda>_. None), lib_visit = (\<lambda>_. None),
     lib_peer = (\<lambda>_ _. Inl ''refused''), lib_bad64 = (\<lambda>_. None), lib_rfc3339 = (\<lambda>_. []), lib_sha = demo_sha,
     lib_dur = (\<lambda>_. ''1s''), pg_ping = (\<lambda>_. True), kv_ping = (\<lambda>_. True), lib_clean = (\<lambda>_. None)\<rparr>"

lemma still_env_simps [simp]:
  "pg_healthy still_env" "pg_text_ok still_env s" "go_Now still_env n = 10 * Second"
  "pg_NOW still_env n = 10 * Second" "pg_outcome_at still_env n = PgOk" "rand_byte still_env = rand_byte (demo_env 0)"
  by (auto simp: still_env_def pg_healthy_def demo_env_def)

lemma demo_server_simps [simp]:
  "sv_env demo_server = still_env" "sv_kv demo_server = mem_valkey (\<lambda>_. 10 * Second) (\<lambda>_. False)"
  "lib_clean demo_server r = None" "lib_jwt demo_server = demo_jwt" "sv_sessions demo_server = demo_sm"
  "hooks demo_server = Some (mem_valkey (\<lambda>_. 10 * Second) (\<lambda>_. False))"
  by (simp_all add: demo_server_def hooks_def)

definition post_request :: request where
  "post_request = blank_request\<lparr>r_method := ''POST'', segs := [''hook'', demo_id 2], body := ''hi''\<rparr>"

lemma post_request_simps [simp]:
  "segs post_request = [''hook'', demo_id 2]" "r_method post_request = ''POST''" "body post_request = ''hi''"
  "body_err post_request = None"
  by (simp_all add: post_request_def blank_request_def)


text \<open>A banned user with a session that has not expired.\<close>

definition demo_token :: string where
  "demo_token = (case jwt_Sign demo_jwt ''HS256'' (sm_secret demo_sm) (session_claims demo_sm demo_user 0) of
     Inl _ \<Rightarrow> [] | Inr tok \<Rightarrow> tok)"

definition bins_request :: request where
  "bins_request = blank_request\<lparr>r_method := ''POST'', segs := [''api'', ''cloud'', ''webhook'', ''bins''],
     cookies := [(''tools_session'', demo_token)]\<rparr>"

lemma demo_token_user:
  "fst (UserFromRequest still_env demo_jwt demo_sm bins_request v) = Inr demo_user"
proof -
  let ?cl = "session_claims demo_sm demo_user 0"
  obtain tok where tok: "jwt_Sign demo_jwt ''HS256'' (sm_secret demo_sm) ?cl = Inr tok" by (simp add: demo_jwt_def)
  have tx: "list_all utf8_valid (claims_text ?cl)" by (rule session_claims_text [OF demo_user_text])
  have "jwt_Parse demo_jwt (10 * Second) [''HS256''] (key_func demo_sm) tok = (if in_time (10 * Second) ?cl then Some ?cl else None)"
    by (rule jwt_specD(2) [OF demo_jwt_spec tok tx]) (simp_all add: key_func_def)
  moreover have "in_time (10 * Second) ?cl"
    by (simp add: in_time_def session_claims_def demo_sm_def NumericDate_def Hour_def Minute_def Second_def)
  moreover have "tok \<noteq> []" by (rule jwt_specD(1) [OF demo_jwt_spec tok tx])
  moreover have "demo_token = tok" by (simp add: demo_token_def tok)
  moreover have "map_of (cookies bins_request) (sm_cookie demo_sm) = Some demo_token"
    by (simp add: bins_request_def demo_sm_def)
  ultimately show ?thesis
    by (simp add: UserFromRequest_def time_Now_def session_claims_def) (simp add: demo_user_def)
qed


end
