(* ===== verification/Routing_Spec.thy ===== *)
theory Routing_Spec
  imports Server_Spec
begin

text \<open>
  The table of \<^verbatim>\<open>router.go\<close> is unambiguous: its patterns exclude each other, so the
  first match of the model is the most specific match of \<^verbatim>\<open>net/http\<close>.
\<close>

section \<open>One route per request\<close>

definition excludes :: "request \<Rightarrow> 'k route \<Rightarrow> 'k route \<Rightarrow> bool" where
  "excludes r a b \<longleftrightarrow> \<not> (route_matches r a \<and> route_matches r b)"

lemma sorted_wrt_excludes:
  assumes "sorted_wrt (excludes r) rts" "a \<in> set rts" "b \<in> set rts" "route_matches r a" "route_matches r b"
  shows "a = b"
  using assms by (induction rts) (auto simp: excludes_def)

lemmas route_tables = public_routes_def cloud_routes_def cloud_table_def bins_path_def hook_routes_def route_to_def

lemma routes_exclude: "sorted_wrt (excludes r) (routes sv)"
proof -
  have "sorted_wrt (excludes r) (public_routes sv)" "sorted_wrt (excludes r) (cloud_routes sv)"
      "sorted_wrt (excludes r) (hook_routes sv)"
    by (auto simp: route_tables excludes_def route_matches_Some method_match_def)
  moreover have "excludes r a b" if "a \<in> set (public_routes sv)" "b \<in> set (cloud_routes sv @ hook_routes sv)" for a b
    using that by (auto simp: route_tables excludes_def route_matches_Some method_match_def)
  moreover have "excludes r a b" if "a \<in> set (cloud_routes sv)" "b \<in> set (hook_routes sv)" for a b
    using that by (auto simp: route_tables excludes_def route_matches_Some)
  ultimately show ?thesis by (auto simp: routes_def sorted_wrt_append)
qed

lemma one_match: "sorted_wrt (excludes r) rts \<Longrightarrow> length (filter (route_matches r) rts) \<le> 1"
  by (induction rts) (auto simp: excludes_def filter_empty_conv)

lemmas one_route = sorted_wrt_excludes [OF routes_exclude]

lemma find_same:
  assumes "set xs = set ys" "\<And>a b. a \<in> set ys \<Longrightarrow> b \<in> set ys \<Longrightarrow> P a \<Longrightarrow> P b \<Longrightarrow> a = b"
  shows "find P xs = find P ys"
proof (cases "find P xs")
  case None
  then show ?thesis using assms(1) find_None_all by metis
next
  case (Some a)
  then obtain b where b: "find P ys = Some b"
    using assms(1) find_None_all find_Some_mem by (metis option.exhaust)
  then show ?thesis using Some assms find_Some_mem by metis
qed

text \<open>
  C38. The routing table is unambiguous: no request matches two of its patterns, so the answer
  is the same in whatever order the patterns are registered.
\<close>

theorem routing_is_unambiguous:
  assumes "set rts = set (routes sv)"
  shows "length (filter (route_matches r) (routes sv)) \<le> 1 \<and>
    ServeMux clean rts r s = ServeMux clean (routes sv) r s"
proof -
  have f: "find (route_matches r) rts = find (route_matches r) (routes sv)"
    using assms one_route by (rule find_same)
  have a: "allowed_methods rts r = allowed_methods (routes sv) r"
    by (simp add: allowed_methods_def list_ex_iff assms)
  show ?thesis unfolding ServeMux_def f a using one_match [OF routes_exclude] by blast
qed

theorem routing_is_unambiguous_witness:
  "ServeMux (\<lambda>_. None) (rev (routes demo_server)) post_request (new_writer, demo_world empty_db) =
   ServeMux (\<lambda>_. None) (routes demo_server) post_request (new_writer, demo_world empty_db)"
  using routing_is_unambiguous [of "rev (routes demo_server)" demo_server] by simp

end
