(* ===== verification/Response_Spec.thy ===== *)
theory Response_Spec
  imports Server_Contract
begin

text \<open>
  The type of the server's responses. Every request is answered exactly once, with one of
  the documented statuses, and the body, the content type and the status fit together. The
  handlers meet this as a contract of their own (locale \<open>answering\<close>), with the same
  combinators as \<^verbatim>\<open>Server_Contract\<close>.
\<close>

section \<open>Well-formed responses\<close>

definition json_type :: string where
  "json_type = ''application/json; charset=utf-8''"

fun has_field :: "string \<Rightarrow> json \<Rightarrow> bool" where
  "has_field k (JObj fs) \<longleftrightarrow> k \<in> fst ` set fs"
| "has_field k _ \<longleftrightarrow> False"

fun is_object :: "json \<Rightarrow> bool" where
  "is_object (JObj fs) \<longleftrightarrow> True"
| "is_object _ \<longleftrightarrow> False"

definition success_codes :: "int set" where
  "success_codes = {200, 201}"

text \<open>Statuses whose body names the error.\<close>

definition error_codes :: "int set" where
  "error_codes = {400, 401, 403, 404, 409, 413, 429, 500, 502}"

text \<open>A failed SMTP test and a service that is not ready or not configured describe themselves.\<close>

definition report_codes :: "int set" where
  "report_codes = {422, 503}"

text \<open>
  Sent once, with one body: a JSON object, not to be cached, with an error field for the error
  statuses; the multiplexer's own plain text; or nothing (preflights, redirects, visitor events
  and the HEAD answer of a hook).
\<close>

definition well_formed :: "writer \<Rightarrow> bool" where
  "well_formed wr \<longleftrightarrow>
     w_sent wr \<noteq> None \<and>
     (case w_body wr of
        [] \<Rightarrow> status_of wr \<in> {200, 204, 301, 302, 400}
      | [Json v] \<Rightarrow>
          is_object v \<and> status_of wr \<in> success_codes \<union> error_codes \<union> report_codes \<and>
          (status_of wr \<in> error_codes \<longrightarrow> has_field ''error'' v) \<and>
          map_of (head_of wr) ''Content-Type'' = Some json_type \<and>
          map_of (head_of wr) ''Cache-Control'' = Some ''no-store''
      | [Text t] \<Rightarrow>
          status_of wr \<in> {404, 405} \<and>
          map_of (head_of wr) ''Content-Type'' = Some ''text/plain; charset=utf-8'' \<and>
          map_of (head_of wr) ''X-Content-Type-Options'' = Some ''nosniff''
      | _ \<Rightarrow> False)"

text \<open>A writer nothing was sent to.\<close>

definition blank :: "writer \<Rightarrow> bool" where
  "blank wr \<longleftrightarrow> w_sent wr = None \<and> w_body wr = []"

lemma blank_set [simp]:
  "blank (Header_Set k v wr) = blank wr" "blank (SetCookie ck wr) = blank wr" "blank (Clear sm wr) = blank wr"
  "blank (clearCookie sm n wr) = blank wr" "blank (setShortCookie sm n v ttl wr) = blank wr"
  by (simp_all add: blank_def Header_Set_def SetCookie_def Clear_def clearCookie_def setShortCookie_def)

lemma blank_front [simp]: "blank (front_writer origins r)"
  by (auto simp: front_writer_def Let_def cors_headers_def) (simp_all add: blank_def new_writer_def)

lemma wf_WriteHeader [simp]: "blank wr \<Longrightarrow> well_formed (WriteHeader st wr) \<longleftrightarrow> st \<in> {200, 204, 301, 302, 400}"
  by (simp add: well_formed_def blank_def WriteHeader_def status_of_def)

lemma wf_redirect [simp]:
  "blank wr \<Longrightarrow> well_formed (http_Redirect r url st wr) \<longleftrightarrow> st \<in> {200, 204, 301, 302, 400}"
  by (simp add: http_Redirect_def Let_def)

lemma body_frame [simp]:
  "head_of (wr\<lparr>w_body := b\<rparr>) = head_of wr" "status_of (wr\<lparr>w_body := b\<rparr>) = status_of wr"
  by (simp_all add: head_of_def status_of_def split: option.split)

lemma wf_writeJSON:
  assumes "blank wr"
  shows "well_formed (writeJSON st (JObj fs) wr) \<longleftrightarrow>
    st \<in> success_codes \<union> error_codes \<union> report_codes \<and> (st \<in> error_codes \<longrightarrow> ''error'' \<in> fst ` set fs)"
proof -
  let ?wr = "WriteHeader st (Header_Set ''Cache-Control'' ''no-store'' (Header_Set ''Content-Type'' json_type wr))"
  have s: "w_sent ?wr \<noteq> None" "status_of ?wr = st" "w_body ?wr = []"
    using assms by (auto simp: blank_def WriteHeader_def status_of_def Header_Set_def)
  have h: "map_of (head_of ?wr) ''Content-Type'' = Some json_type" "map_of (head_of ?wr) ''Cache-Control'' = Some ''no-store''"
    using assms by (simp_all add: blank_def)
  have w: "writeJSON st (JObj fs) wr = ?wr\<lparr>w_body := [Json (JObj fs)]\<rparr>"
    using s by (auto simp: writeJSON_def write_out_def json_type_def split: option.split)
  show ?thesis unfolding w using s h by (simp add: well_formed_def)
qed

lemma wf_err [simp]:
  "blank wr \<Longrightarrow> well_formed (writeJSON st (err_obj m) wr) \<longleftrightarrow> st \<in> success_codes \<union> error_codes \<union> report_codes"
  unfolding err_obj_def by (subst wf_writeJSON) auto

lemma wf_webhook_err [simp]: "blank wr \<Longrightarrow> well_formed (writeWebhookErr er wr)"
  by (simp add: writeWebhookErr_def error_codes_def)

lemma wf_too_many [simp]: "blank wr \<Longrightarrow> well_formed (too_many retry extra wr)"
  by (simp add: too_many_def Let_def wf_writeJSON error_codes_def)

lemma wf_http_Error:
  assumes "blank wr" "st \<in> {404, 405}"
  shows "well_formed (http_Error m st wr)"
proof -
  let ?w0 = "wr\<lparr>w_header := filter (\<lambda>p. fst p \<notin> {''Content-Length''}) (w_header wr)\<rparr>"
  let ?wr = "WriteHeader st (Header_Set ''X-Content-Type-Options'' ''nosniff''
    (Header_Set ''Content-Type'' ''text/plain; charset=utf-8'' ?w0))"
  have s: "w_sent ?wr \<noteq> None" "status_of ?wr = st" "w_body ?wr = []" "w_sent ?w0 = None"
    using assms(1) by (auto simp: blank_def WriteHeader_def status_of_def Header_Set_def)
  have h: "map_of (head_of ?wr) ''Content-Type'' = Some ''text/plain; charset=utf-8''"
    "map_of (head_of ?wr) ''X-Content-Type-Options'' = Some ''nosniff''"
    using s(4) by simp_all
  have w: "http_Error m st wr = ?wr\<lparr>w_body := [Text (m @ [CHR 0x0A])]\<rparr>"
    using s(1,3) by (auto simp: http_Error_def write_out_def split: option.split)
  show ?thesis unfolding w using s h assms(2) by (simp add: well_formed_def)
qed

section \<open>The contract\<close>

locale answering =
  fixes h :: "'k handler"
  assumes answers: "blank (fst s) \<Longrightarrow> well_formed (fst (snd (h r s)))"
begin

lemma answers_run: "blank wr \<Longrightarrow> h r (wr, w) = (p, wr', w') \<Longrightarrow> well_formed wr'"
  using answers [of "(wr, w)" r] by simp

end

lemma answeringI:
  "(\<And>r wr w p wr' w'. blank wr \<Longrightarrow> h r (wr, w) = (p, wr', w') \<Longrightarrow> well_formed wr') \<Longrightarrow> answering h"
  by unfold_locales (metis prod.collapse)

lemma with_user_answering: "(\<And>u. answering (h u)) \<Longrightarrow> answering (with_user h)"
  by (rule answeringI)
    (auto simp: with_user_def error_codes_def split: option.splits dest: answering.answers_run)

lemma rate_limited_answering: "answering h \<Longrightarrow> answering (rate_limited sv key n window extra h)"
  by (rule answeringI)
    (auto simp: rate_limited_def split: prod.splits bool.splits dest: answering.answers_run)

lemma RequireUser_answering: "answering h \<Longrightarrow> answering (RequireUser e jw sm h)"
  by (rule answeringI)
    (auto simp: RequireUser_def error_codes_def split: prod.splits sum.splits dest: answering.answers_run)

lemma active_answering: "answering h \<Longrightarrow> answering (RequireActiveUser sv h)"
  unfolding RequireActiveUser_def
  by (rule RequireUser_answering, rule with_user_answering, rule answeringI)
    (auto simp: error_codes_def split: prod.splits sum.splits bool.splits dest: answering.answers_run)

text \<open>The statuses as they come up.\<close>

lemmas codes = success_codes_def error_codes_def report_codes_def

lemma bins_answering:
  "answering (handleListBins sv)" "answering (handleDeleteBin sv)" "answering (handleClearHits sv)"
  "answering (handleGetHit sv)" "answering (handleGetBin sv)" "answering (handleListHits sv)"
  unfolding handleListBins_def handleDeleteBin_def handleClearHits_def handleGetHit_def handleGetBin_def
    handleListHits_def Let_def
  by (rule with_user_answering, rule answeringI, auto simp: wf_writeJSON codes split: prod.splits sum.splits)+

lemma create_answering: "answering (handleCreateBin sv)"
  unfolding handleCreateBin_def
  by (rule with_user_answering, rule rate_limited_answering, rule answeringI)
    (auto simp: wf_writeJSON codes split: prod.splits sum.splits)

lemma capture_answering: "answering (capture sv b)"
  by (rule answeringI) (auto simp: capture_def wf_writeJSON codes split: prod.splits sum.splits if_splits)

lemma ingest_answering: "answering (handleHookIngest sv)"
proof (rule answeringI)
  fix r wr w p wr' w'
  assume b: "blank wr" and e: "handleHookIngest sv r (wr, w) = (p, wr', w')"
  have "answering (rate_limited sv (''hook:'' @ PathValue r ''id'') 120 Minute [] (capture sv (PathValue r ''id'')))"
    by (rule rate_limited_answering, rule capture_answering)
  then show "well_formed wr'"
    using b e by (auto simp: handleHookIngest_def Let_def codes split: if_splits prod.splits bool.splits
        dest: answering.answers_run)
qed

lemma smtp_answering: "answering (handleSMTPTest sv)" "answering (handleSMTPCheckAuth sv)"
  unfolding handleSMTPTest_def handleSMTPCheckAuth_def
  by (rule with_user_answering, rule rate_limited_answering, rule answeringI,
      auto simp: Let_def result_json_def check_json_def wf_writeJSON codes split: prod.splits sum.splits option.splits if_splits)+

lemma visitor_answering: "answering (handleVisitorEvent sv)"
  by (rule answeringI)
    (auto simp: handleVisitorEvent_def visitor_event_def Let_def wf_writeJSON codes
      split: prod.splits sum.splits option.splits bool.splits if_splits)

lemma health_answering: "answering (handleHealthz sv)" "answering (handleReadyz sv)"
  by (rule answeringI, auto simp: handleHealthz_def handleReadyz_def Let_def wf_writeJSON codes split: prod.splits if_splits)+

lemma auth_answering: "answering (auth_Status g)" "answering (Logout sm)" "answering (Me e jw sm)" "answering (Begin e ol g sm)"
  by (rule answeringI, auto simp: auth_Status_def Logout_def Me_def Begin_def Let_def wf_writeJSON codes
      split: prod.splits sum.splits if_splits)+

lemma Issue_blank: "Issue e jw sm u (wr, w) = (x, wr', w') \<Longrightarrow> blank wr' = blank wr"
  by (auto simp: Issue_def time_Now_def Let_def split: if_splits sum.splits)

lemma callback_session_answering: "answering (callback_session e jw g sm p)"
  by (rule answeringI) (auto simp: callback_session_def Let_def codes split: prod.splits option.splits dest!: Issue_blank)

lemma callback_answering: "answering (Callback e jw ol g sm)"
  by (rule answeringI)
    (auto simp: Callback_def codes split: prod.splits sum.splits option.splits if_splits
      dest: answering.answers_run [OF callback_session_answering])

section \<open>Every response\<close>

lemma routes_answering: "rt \<in> set (routes sv) \<Longrightarrow> answering (rt_handler rt)"
  unfolding routes_def set_append
  by (elim UnE) (auto simp: public_routes_def cloud_routes_def cloud_table_def hook_routes_def route_to_def
      intro!: active_answering intro: health_answering auth_answering callback_answering visitor_answering smtp_answering
        bins_answering create_answering ingest_answering)

interpretation answers: answering "ServeMux (lib_clean sv) (routes sv)" for sv :: "'k server"
proof (rule answeringI)
  fix r wr w p wr' and w' :: "'k world"
  assume b: "blank wr" and e: "ServeMux (lib_clean sv) (routes sv) r (wr, w) = (p, wr', w')"
  show "well_formed wr'"
  proof (cases "lib_clean sv r = None \<and> find (route_matches r) (routes sv) \<noteq> None")
    case True
    then obtain rt where rt: "find (route_matches r) (routes sv) = Some rt" by blast
    then have "answering (rt_handler rt)" using routes_answering find_Some_mem by metis
    from answering.answers_run [OF this b] show ?thesis using e True rt by (simp add: ServeMux_def run_route_def)
  next
    case False
    then show ?thesis using b e by (auto simp: ServeMux_def wf_http_Error split: option.splits if_splits)
  qed
qed


end
