(* ===== verification/Owner_Spec.thy ===== *)
theory Owner_Spec
  imports Routing_Spec Response_Spec
begin

text \<open>
  What a signed-in user gets for a bin that is not theirs to use: the owner check of the
  store, seen through sessions, the ban check, routing and the JSON answers.
\<close>

section \<open>Requests about one bin\<close>

text \<open>The requests whose handler starts with the owner check: method and path below the bin.\<close>

datatype bin_request = DeleteBin | DeleteHits | ListBinHits | ReadHit string

fun bin_method :: "bin_request \<Rightarrow> string" where
  "bin_method DeleteBin = ''DELETE''"
| "bin_method DeleteHits = ''DELETE''"
| "bin_method ListBinHits = ''GET''"
| "bin_method (ReadHit h) = ''GET''"

fun bin_rest :: "bin_request \<Rightarrow> string list" where
  "bin_rest DeleteBin = []"
| "bin_rest DeleteHits = [''hits'']"
| "bin_rest ListBinHits = [''hits'']"
| "bin_rest (ReadHit h) = [''hits'', h]"

fun bin_pattern :: "bin_request \<Rightarrow> pat list" where
  "bin_pattern DeleteBin = bins_path @ [Wild ''id'']"
| "bin_pattern DeleteHits = bins_path @ [Wild ''id'', Lit ''hits'']"
| "bin_pattern ListBinHits = bins_path @ [Wild ''id'', Lit ''hits'']"
| "bin_pattern (ReadHit h) = bins_path @ [Wild ''id'', Lit ''hits'', Wild ''hitId'']"

fun bin_handler :: "'k server \<Rightarrow> bin_request \<Rightarrow> 'k handler" where
  "bin_handler sv DeleteBin = handleDeleteBin sv"
| "bin_handler sv DeleteHits = handleClearHits sv"
| "bin_handler sv ListBinHits = handleListHits sv"
| "bin_handler sv (ReadHit h) = handleGetHit sv"

fun bin_values :: "string \<Rightarrow> bin_request \<Rightarrow> str_map" where
  "bin_values b (ReadHit h) = [(''id'', b), (''hitId'', h)]"
| "bin_values b _ = [(''id'', b)]"

definition asks_for :: "bin_request \<Rightarrow> string \<Rightarrow> request \<Rightarrow> bool" where
  "asks_for q b r \<longleftrightarrow>
     r_method r = bin_method q \<and>
     segs r = [''api'', ''cloud'', ''webhook'', ''bins'', b] @ bin_rest q \<and> [] \<notin> set (b # bin_rest q)"

lemma find_route:
  assumes "rt \<in> set (routes sv)" "route_matches r rt"
  shows "find (route_matches r) (routes sv) = Some rt"
proof -
  have "find (route_matches r) (routes sv) \<noteq> None" using assms by (auto simp: find_None_all)
  then obtain rt' where f: "find (route_matches r) (routes sv) = Some rt'" by blast
  then have "rt' = rt" using find_Some_mem [OF f] one_route [of rt' sv rt r] assms by blast
  then show ?thesis using f by simp
qed

lemma bin_match: "asks_for q b r \<Longrightarrow> match_path (bin_pattern q) (segs r) = Some (bin_values b q)"
  by (cases q) (auto simp: asks_for_def bins_path_def)

lemma bin_route:
  assumes "asks_for q b r"
  shows "find (route_matches r) (routes sv) =
    Some (route_to (Some (bin_method q)) (bin_pattern q) (RequireActiveUser sv (bin_handler sv q)))"
proof (rule find_route)
  have "(bin_method q, bin_pattern q, bin_handler sv q) \<in> set (cloud_table sv)"
    by (cases q) (simp_all add: cloud_table_def)
  then show "route_to (Some (bin_method q)) (bin_pattern q) (RequireActiveUser sv (bin_handler sv q)) \<in> set (routes sv)"
    unfolding routes_def cloud_routes_def by force
  show "route_matches r (route_to (Some (bin_method q)) (bin_pattern q) (RequireActiveUser sv (bin_handler sv q)))"
    using bin_match [OF assms] assms
    by (simp add: route_matches_Some route_to_def method_match_def asks_for_def)
qed

section \<open>Through the guard\<close>

text \<open>The request carries a session of \<open>u\<close> whenever it is looked at, and \<open>u\<close> is not banned.\<close>

definition signed_in :: "'k server \<Rightarrow> request \<Rightarrow> session_user \<Rightarrow> 'k world \<Rightarrow> bool" where
  "signed_in sv r u w \<longleftrightarrow>
     (\<forall>v :: 'k world. fst (UserFromRequest (sv_env sv) (lib_jwt sv) (sv_sessions sv) r v) = Inr u) \<and>
     user_status (db w) (ID u) \<noteq> Some StatusBanned"

lemma IsBanned_no:
  assumes "pg_healthy e" "pg_text_ok e u" "user_status (db w) u \<noteq> Some StatusBanned"
  shows "IsBanned e u w = (Inr False, bump w)"
proof -
  have "sql_row e [u] (stmt_select_user u) w =
      (case tbl_lookup u_id u (users (db w)) of None \<Rightarrow> Inl ErrNoRows | Some a \<Rightarrow> Inr a, bump w)"
    using sql_row_ok [of e w "[u]" "stmt_select_user u" "tbl_lookup u_id u (users (db w))" "db w"] assms(1,2)
    by (auto simp: stmt_select_user_def)
  then show ?thesis using assms(3) by (auto simp: IsBanned_def user_status_def split: option.splits)
qed

lemma guard_passes:
  assumes "pg_healthy (sv_env sv)" "pg_text_ok (sv_env sv) (ID u)" "signed_in sv r u w" "db w1 = db w"
  shows "\<exists>w2. db w2 = db w \<and> vk w2 = vk w1 \<and>
    RequireActiveUser sv h (r\<lparr>path_vals := vs\<rparr>) (wr, w1) = h (WithUser u (r\<lparr>path_vals := vs\<rparr>)) (wr, w2)"
proof -
  obtain w2 where u: "UserFromRequest (sv_env sv) (lib_jwt sv) (sv_sessions sv) r w1 = (Inr u, w2)"
    using assms(3) unfolding signed_in_def by (metis prod.collapse)
  have w2: "db w2 = db w" "vk w2 = vk w1"
    using UserFromRequest_frame(1,2) [of "sv_env sv" "lib_jwt sv" "sv_sessions sv" r w1] u assms(4) by simp_all
  have "IsBanned (sv_env sv) (ID u) w2 = (Inr False, bump w2)"
    using assms(3) w2 by (intro IsBanned_no [OF assms(1,2)]) (simp add: signed_in_def)
  then show ?thesis
    using w2 u by (intro exI [of _ "bump w2"])
      (simp add: RequireActiveUser_def RequireUser_def with_user_def WithUser_def UserFromContext_def)
qed

section \<open>Refusals\<close>

lemma getOwned_keeps:
  assumes "fst (getOwned e s u b w) = Inl er" "er \<noteq> ErrExpired"
  shows "db (snd (getOwned e s u b w)) = db w"
proof -
  obtain r w1 where r: "sql_row e [b] (stmt_select_bin b) w = (r, w1)" by fastforce
  have "db w1 = db w" using reads_row_eqD [OF r] by simp
  then show ?thesis using assms by (auto simp: getOwned_def r time_Now_def Let_def split: sum.splits if_splits)
qed

text \<open>The answer of the handlers to an error of the owner check.\<close>

lemma bin_handler_refuses:
  fixes sv :: "'k server"
  assumes "pg_healthy (sv_env sv)" "\<forall>t. pg_text_ok (sv_env sv) t" "ctx_user r = Some u"
    and "path_vals r = bin_values b q" "\<forall>t. owner_verdict (ID u) (go_Now (sv_env sv) t) (get_bin (db w) b) = Inl er"
    and "er \<noteq> ErrExpired \<Longrightarrow> d = db w"
  shows "\<exists>w'. bin_handler sv q r (wr, w) = (None, writeWebhookErr er wr, w') \<and> (er \<noteq> ErrExpired \<longrightarrow> db w' = d)"
proof -
  note verdict = pg_healthyD [OF assms(1), of "tick w"] assms(2) [rule_format, of b] assms(5) [rule_format, of "Suc (tick w)"]
  have o: "fst (getOwned (sv_env sv) (hooks sv) (ID u) b w) = Inl er" using gate.verdict_error [OF verdict] .
  have fin: "\<exists>w'. (case x of (Inl er, w) \<Rightarrow> f er w | (Inr a, w) \<Rightarrow> g a w) = f er w' \<and> (er \<noteq> ErrExpired \<longrightarrow> db w' = d)"
    if "fst x = Inl er" "snd x = snd (getOwned (sv_env sv) (hooks sv) (ID u) b w)"
    for x :: "(go_error + 'a) \<times> 'k world" and f g
    using that getOwned_keeps [OF o] assms(6) by (cases x) auto
  have same: "snd (op (sv_env sv) (hooks sv) (ID u) b w) = snd (getOwned (sv_env sv) (hooks sv) (ID u) b w)"
    if "owned_op op" for op :: "env \<Rightarrow> 'k store \<Rightarrow> string \<Rightarrow> string \<Rightarrow> 'k world \<Rightarrow> (go_error + 'b) \<times> 'k world"
    using owned_op.op_refused [OF that] o by (simp add: isl_def)
  show ?thesis
  proof (cases q)
    case DeleteBin
    show ?thesis
      using fin [OF del.verdict_error [OF verdict] same [OF del.owned_op_axioms]] assms(3,4) DeleteBin
      by (simp add: handleDeleteBin_def with_user_def UserFromContext_def PathValue_def)
  next
    case DeleteHits
    show ?thesis
      using fin [OF clr.verdict_error [OF verdict] same [OF clr.owned_op_axioms]] assms(3,4) DeleteHits
      by (simp add: handleClearHits_def with_user_def UserFromContext_def PathValue_def)
  next
    case ListBinHits
    show ?thesis
      using fin [OF lst.verdict_error [OF verdict] same [OF lst.owned_op_axioms]] assms(3,4) ListBinHits
      by (simp add: handleListHits_def Let_def with_user_def UserFromContext_def PathValue_def)
  next
    case (ReadHit h)
    show ?thesis
      using fin [OF ghit.verdict_error [OF verdict] same [OF ghit.owned_op_axioms]] assms(3,4) ReadHit
      by (simp add: handleGetHit_def with_user_def UserFromContext_def PathValue_def)
  qed
qed


lemma refusal_status:
  assumes "w_sent wr = None" "w_body wr = []"
  shows "status_of (finish_writer (writeWebhookErr er wr)) =
      (if errors_Is er ErrNotFound \<or> errors_Is er ErrExpired then 404 else if errors_Is er ErrForbidden then 403
       else if errors_Is er ErrLimitBins then 409 else 400) \<and>
    w_body (finish_writer (writeWebhookErr er wr)) = [Json (err_obj (FormatLimitErr er))]"
  using assms by (simp add: writeWebhookErr_def writeJSON_def write_out_def WriteHeader_def Header_Set_def
      finish_writer_def status_of_def)

lemma verdict_errors: "owner_verdict u t x = Inl er \<Longrightarrow> er = ErrNotFound \<or> er = ErrForbidden \<or> er = ErrExpired"
  by (auto simp: owner_verdict_def split: option.splits if_splits)


text \<open>A user with a session asks for a bin of somebody else, and for one that does not exist.\<close>

definition their_bin_db :: db where
  "their_bin_db = empty_db\<lparr>webhook_bins := [demo_bin\<lparr>b_user := ''u2''\<rparr>]\<rparr>"

definition delete_request :: request where
  "delete_request = bins_request\<lparr>r_method := ''DELETE'', segs := [''api'', ''cloud'', ''webhook'', ''bins'', demo_id 2]\<rparr>"

lemma delete_request_user:
  "fst (UserFromRequest still_env demo_jwt demo_sm delete_request v) = Inr demo_user"
  using demo_token_user [of v] by (simp add: UserFromRequest_def delete_request_def)


end
