(* ===== verification/Bin_Service.thy ===== *)
theory Bin_Service
  imports Webhook_Spec
begin

text \<open>
  The contract of the webhook store as one small service, and the proof that the store
  implements it. The service is a map from bin ids to entries with a multiset of hits; it
  knows no tables, statements, transactions or cache. \<open>svc\<close> says which replies a call may
  get and what it may do to the map; every call of the store, on whatever database, cache,
  clock and random source, is a step of it.
\<close>

section \<open>The abstract service\<close>

record entry =
  e_owner :: string
  e_name :: string
  e_created :: time
  e_expires :: time
  e_last :: "time option"
  e_log :: "hit_row multiset"

type_synonym service = "string \<Rightarrow> entry option"

datatype bin_call =
    CallCreate string string
  | CallList string
  | CallGet string string
  | CallDelete string string
  | CallClear string string
  | CallIngest string ingest_input
  | CallListHits string string int string
  | CallGetHit string string string
  | CallExists string

datatype bin_reply =
    Failed go_error
  | GotBin bin
  | GotBins "bin list option"
  | Gone
  | GotHit go_hit
  | GotHits "hit_summary list"
  | Answer bool

fun caller :: "bin_call \<Rightarrow> string option" where
  "caller (CallCreate u n) = Some u"
| "caller (CallList u) = Some u"
| "caller (CallGet u b) = Some u"
| "caller (CallDelete u b) = Some u"
| "caller (CallClear u b) = Some u"
| "caller (CallIngest b i) = None"
| "caller (CallListHits u b n a) = Some u"
| "caller (CallGetHit u b h) = Some u"
| "caller (CallExists b) = None"

fun bin_named :: "bin_call \<Rightarrow> string option" where
  "bin_named (CallCreate u n) = None"
| "bin_named (CallList u) = None"
| "bin_named (CallGet u b) = Some b"
| "bin_named (CallDelete u b) = Some b"
| "bin_named (CallClear u b) = Some b"
| "bin_named (CallIngest b i) = Some b"
| "bin_named (CallListHits u b n a) = Some b"
| "bin_named (CallGetHit u b h) = Some b"
| "bin_named (CallExists b) = Some b"

text \<open>What a reader sees of an entry.\<close>

definition shown :: "string \<Rightarrow> entry \<Rightarrow> bin" where
  "shown b x = \<lparr>b_id = b, b_user = e_owner x, b_name = e_name x, b_created = e_created x,
     b_expires = e_expires x, b_hits = int (size (e_log x)), b_last = e_last x\<rparr>"

definition owned :: "string \<Rightarrow> service \<Rightarrow> string set" where
  "owned u S = {b. \<exists>x. S b = Some x \<and> e_owner x = u}"

text \<open>Entries past their time at one of the clock readings \<open>T\<close> of the call may vanish.\<close>

definition purge :: "time set \<Rightarrow> service \<Rightarrow> service \<Rightarrow> bool" where
  "purge T S S' \<longleftrightarrow>
     (\<forall>b. S' b = S b \<or> S' b = None \<and> (\<exists>x. S b = Some x \<and> (\<exists>t \<in> T. After t (e_expires x))))"

definition in_time :: "time set \<Rightarrow> entry \<Rightarrow> bool" where
  "in_time T x \<longleftrightarrow> (\<exists>t \<in> T. \<not> After t (e_expires x))"

definition may_use :: "time set \<Rightarrow> string \<Rightarrow> string \<Rightarrow> service \<Rightarrow> entry \<Rightarrow> bool" where
  "may_use T u b S x \<longleftrightarrow> S b = Some x \<and> e_owner x = u \<and> in_time T x"

text \<open>An error says the truth; a database or random source may fail any call.\<close>

definition honest :: "time set \<Rightarrow> bin_call \<Rightarrow> service \<Rightarrow> service \<Rightarrow> go_error \<Rightarrow> bool" where
  "honest T c S S' er \<longleftrightarrow>
     (case er of
        ErrForbidden \<Rightarrow> \<exists>u b x. caller c = Some u \<and> bin_named c = Some b \<and> S' b = Some x \<and> e_owner x \<noteq> u
      | ErrExpired \<Rightarrow> \<exists>b x. bin_named c = Some b \<and> S b = Some x \<and> (\<exists>t \<in> T. After t (e_expires x))
      | ErrNotFound \<Rightarrow>
          (\<exists>b. bin_named c = Some b \<and> S' b = None) \<or>
          (\<exists>u b h x. c = CallGetHit u b h \<and> S' b = Some x \<and> h \<notin> h_id ` set_mset (e_log x))
      | ErrLimitBins \<Rightarrow> \<exists>u n. c = CallCreate u n \<and> MaxBinsPerUser \<le> card (owned u S')
      | Errorf m \<Rightarrow> True
      | _ \<Rightarrow> False)"

text \<open>Of the hits \<open>M\<close>, at most \<open>n\<close> stay, and none that goes is newer than one that stays.\<close>

definition keeps_newest :: "nat \<Rightarrow> hit_row multiset \<Rightarrow> hit_row multiset \<Rightarrow> bool" where
  "keeps_newest n M M' \<longleftrightarrow>
     M' \<subseteq># M \<and> size M' = min n (size M) \<and> (\<forall>x \<in># M - M'. \<forall>y \<in># M'. h_received x \<le> h_received y)"

definition newest_order :: "hit_row list \<Rightarrow> bool" where
  "newest_order xs \<longleftrightarrow> sorted (map (\<lambda>h. - h_received h) xs)"

definition cleared :: "entry \<Rightarrow> entry" where
  "cleared x = x\<lparr>e_log := {#}, e_last := None\<rparr>"

text \<open>The hits a cursor leaves: those older than it, none for an unknown one.\<close>

definition behind :: "string \<Rightarrow> hit_row multiset \<Rightarrow> hit_row multiset \<Rightarrow> bool" where
  "behind after M M' \<longleftrightarrow>
     (if after = '''' then M' = M
      else if after \<in> h_id ` set_mset M
      then \<exists>a \<in># M. h_id a = after \<and> M' = filter_mset (\<lambda>h. h_received h < h_received a) M
      else M' = {#})"

inductive svc :: "env \<Rightarrow> bool \<Rightarrow> time set \<Rightarrow> bin_call \<Rightarrow> service \<Rightarrow> bin_reply \<Rightarrow> service \<Rightarrow> bool"
  for e :: env and caching :: bool and T :: "time set" where
  failed: "purge T S S' \<Longrightarrow> honest T c S S' er \<Longrightarrow> svc e caching T c S (Failed er) S'"
| unacknowledged: "svc e caching T c S r S' \<Longrightarrow> svc e caching T c S (Failed (Errorf m)) S'"
| created: "purge T S S1 \<Longrightarrow> card (owned u S1) < MaxBinsPerUser \<Longrightarrow> S1 b = None \<Longrightarrow> is_bin_id b \<Longrightarrow> t \<in> T \<Longrightarrow>
    svc e caching T (CallCreate u name) S
      (GotBin \<lparr>b_id = b, b_user = u, b_name = bin_name b name, b_created = t, b_expires = t + BinTTL,
               b_hits = 0, b_last = None\<rparr>)
      (S1(b \<mapsto> \<lparr>e_owner = u, e_name = bin_name b name, e_created = pg_time t,
               e_expires = pg_time (t + BinTTL), e_last = None, e_log = {#}\<rparr>))"
| listed: "purge T S S' \<Longrightarrow> distinct bs \<Longrightarrow> set bs = owned u S' \<Longrightarrow>
    svc e caching T (CallList u) S (GotBins (Some (take k (map (\<lambda>b. shown b (the (S' b))) bs)))) S'"
| not_listed: "purge T S S' \<Longrightarrow> svc e caching T (CallList u) S (GotBins None) S'"
| got: "purge T S S' \<Longrightarrow> may_use T u b S' x \<Longrightarrow>
    svc e caching T (CallGet u b) S (GotBin (shown b x)) S'"
| deleted: "may_use T u b S x \<Longrightarrow> svc e caching T (CallDelete u b) S Gone (S(b := None))"
| emptied: "may_use T u b S x \<Longrightarrow>
    svc e caching T (CallClear u b) S (GotBin (shown b (cleared x))) (S(b \<mapsto> cleared x))"
| emptied_late: "may_use T u b S x \<Longrightarrow> purge T (S(b \<mapsto> cleared x)) S' \<Longrightarrow>
    honest T (CallClear u b) (S(b \<mapsto> cleared x)) S' er \<Longrightarrow>
    svc e caching T (CallClear u b) S (Failed er) S'"
| captured: "purge T S S1 \<Longrightarrow> S1 b = Some x \<Longrightarrow> t \<in> T \<Longrightarrow> \<not> After t (e_expires x) \<Longrightarrow>
    h = make_hit e hid b t i \<Longrightarrow> hit_row_of e h = Some row \<Longrightarrow> hid \<notin> h_id ` set_mset (e_log x) \<Longrightarrow>
    keeps_newest MaxHitsPerBin (add_mset row (e_log x)) M \<Longrightarrow>
    svc e caching T (CallIngest b i) S (GotHit h) (S1(b \<mapsto> x\<lparr>e_log := M, e_last := Some (pg_time t)\<rparr>))"
| hits_listed: "may_use T u b S x \<Longrightarrow> behind after (e_log x) M \<Longrightarrow> mset xs = M \<Longrightarrow> newest_order xs \<Longrightarrow>
    k \<le> clamp_limit n \<Longrightarrow>
    svc e caching T (CallListHits u b n after) S (GotHits (map summary (take k xs))) S"
| hit_got: "may_use T u b S x \<Longrightarrow> row \<in># e_log x \<Longrightarrow> h_id row = h \<Longrightarrow>
    svc e caching T (CallGetHit u b h) S (GotHit (read_hit e row)) S"
| answered: "purge T S S' \<Longrightarrow> (there \<Longrightarrow> caching \<or> (\<exists>x. S' b = Some x \<and> in_time T x)) \<Longrightarrow>
    svc e caching T (CallExists b) S (Answer there) S'"

section \<open>The store as a service\<close>

definition bin_serve :: "env \<Rightarrow> 'k store \<Rightarrow> bin_call \<Rightarrow> 'k world \<Rightarrow> bin_reply \<times> 'k world" where
  "bin_serve e s c w =
     (case c of
        CallCreate u n \<Rightarrow> map_prod (case_sum Failed GotBin) id (Create e s u n w)
      | CallList u \<Rightarrow> map_prod GotBins id (List_bins e s u w)
      | CallGet u b \<Rightarrow> map_prod (case_sum Failed GotBin) id (Get_bin e s u b w)
      | CallDelete u b \<Rightarrow> map_prod (case_sum Failed (\<lambda>_. Gone)) id (Delete_bin e s u b w)
      | CallClear u b \<Rightarrow> map_prod (case_sum Failed GotBin) id (ClearHits e s u b w)
      | CallIngest b i \<Rightarrow> map_prod (case_sum Failed GotHit) id (Ingest e s b i w)
      | CallListHits u b n a \<Rightarrow> map_prod (case_sum Failed GotHits) id (ListHits e s u b n a w)
      | CallGetHit u b h \<Rightarrow> map_prod (case_sum Failed GotHit) id (GetHit e s u b h w)
      | CallExists b \<Rightarrow> map_prod Answer id (PublicExists e s b w))"

text \<open>What the tables stand for.\<close>

definition entry_of :: "bin \<Rightarrow> hit_row list \<Rightarrow> entry" where
  "entry_of r hs = \<lparr>e_owner = b_user r, e_name = b_name r, e_created = b_created r,
     e_expires = b_expires r, e_last = b_last r, e_log = mset hs\<rparr>"

definition abs_db :: "db \<Rightarrow> service" where
  "abs_db d b = map_option (\<lambda>r. entry_of r (hits_of b d)) (get_bin d b)"

text \<open>The clock readings between two worlds.\<close>

definition readings :: "env \<Rightarrow> 'k world \<Rightarrow> 'k world \<Rightarrow> time set" where
  "readings e w w' = {t. \<exists>n. tick w \<le> n \<and> n < tick w' \<and> (t = go_Now e n \<or> t = pg_NOW e n)}"

section \<open>The abstraction of the table operations\<close>

lemma entry_of_simps [simp]:
  "e_owner (entry_of r hs) = b_user r" "e_name (entry_of r hs) = b_name r"
  "e_created (entry_of r hs) = b_created r" "e_expires (entry_of r hs) = b_expires r"
  "e_last (entry_of r hs) = b_last r" "e_log (entry_of r hs) = mset hs"
  by (simp_all add: entry_of_def)

lemma abs_empty: "abs_db empty_db = Map.empty"
  by (rule ext) (simp add: abs_db_def get_bin_def tbl_lookup_def empty_db_def)

lemma abs_get: "get_bin d b = Some r \<Longrightarrow> abs_db d b = Some (entry_of r (hits_of b d))"
  by (simp add: abs_db_def)

lemma abs_get_None [simp]: "abs_db d b = None \<longleftrightarrow> get_bin d b = None"
  by (simp add: abs_db_def)

lemma abs_delete:
  "db_ok d \<Longrightarrow> abs_db (delete_bins P d) b =
     (case get_bin d b of None \<Rightarrow> None | Some r \<Rightarrow> if P r then None else abs_db d b)"
  by (auto simp: abs_db_def get_bin_delete hits_of_delete split: option.split)

lemma abs_delete_id:
  assumes "db_ok d"
  shows "abs_db (delete_bins (\<lambda>r. b_id r = b) d) = (abs_db d)(b := None)"
proof
  fix k
  show "abs_db (delete_bins (\<lambda>r. b_id r = b) d) k = ((abs_db d)(b := None)) k"
    unfolding abs_delete [OF assms]
    by (cases "get_bin d k") (use get_bin_mem [of d k] in \<open>auto simp: abs_db_def\<close>)
qed

lemma abs_insert_bin:
  assumes "db_ok d" "b_id b \<notin> b_id ` set (webhook_bins d)"
  shows "abs_db (d\<lparr>webhook_bins := webhook_bins d @ [bin_row b]\<rparr>) =
    (abs_db d)(b_id b \<mapsto> entry_of (bin_row b) [])"
proof -
  have n: "get_bin d (b_id b) = None" using assms(2) by (simp add: get_bin_None)
  have "hits_of (b_id b) d = []"
    using assms unfolding hits_of_def filter_empty_conv db_ok_def hits_fk_def by metis
  moreover have "hits_of k (d\<lparr>webhook_bins := webhook_bins d @ [bin_row b]\<rparr>) = hits_of k d" for k
    by (simp add: hits_of_def)
  moreover have "get_bin (d\<lparr>webhook_bins := webhook_bins d @ [bin_row b]\<rparr>) k =
      (if k = b_id b then Some (bin_row b) else get_bin d k)" for k
    using n by (auto simp: get_bin_def tbl_lookup_def find_append split: option.split)
  ultimately show ?thesis by (auto simp: abs_db_def fun_eq_iff)
qed

lemma get_bin_touch:
  "get_bin (touch bid n lst d) k =
     map_option (\<lambda>r. if k = bid then r\<lparr>b_hits := int n, b_last := map_option pg_time lst\<rparr> else r) (get_bin d k)"
  by (simp add: get_bin_def touch_def stmt_touch_bin_def tbl_lookup_update option.map_id0 [unfolded id_def])

lemma abs_rewrite_hits:
  assumes "webhook_bins d' = webhook_bins d" "\<And>k. k \<noteq> bid \<Longrightarrow> hits_of k d' = hits_of k d"
    and "get_bin d bid = Some r"
  shows "abs_db (touch bid n lst d') =
    (abs_db d)(bid \<mapsto> (entry_of r (hits_of bid d'))\<lparr>e_last := map_option pg_time lst\<rparr>)"
proof -
  have "get_bin d' k = get_bin d k" for k using assms(1) by (simp add: get_bin_def)
  then show ?thesis
    using assms(2,3) by (auto simp: abs_db_def get_bin_touch fun_eq_iff entry_of_def map_option_case split: option.split)
qed

lemma card_owned:
  assumes "db_ok d"
  shows "card (owned u (abs_db d)) = length (bins_of u d)"
proof -
  have "owned u (abs_db d) = b_id ` set (bins_of u d)"
    using assms by (auto simp: owned_def abs_db_def bins_of_def get_bin_iff image_iff)
  moreover have "distinct (map b_id (bins_of u d))"
    using assms by (simp add: bins_of_def db_ok_def tbl_ok_def distinct_map_filter_inj)
  ultimately show ?thesis by (metis distinct_card length_map set_map)
qed

lemma shown_entry:
  assumes "hooks_inv d" "get_bin d b = Some r"
  shows "shown b (entry_of r (hits_of b d)) = r"
proof -
  have "b_id r = b" "b_hits r = int (length (hits_of b d))"
    using get_bin_mem [OF assms(2)] assms(1) by (auto simp: hooks_inv_def hits_ok_def)
  then show ?thesis by (simp add: shown_def)
qed


section \<open>Pruning, errors and ticks\<close>

lemma purge_refl [simp, intro]: "purge T S S"
  by (simp add: purge_def)

lemma purge_trans: "purge T S S' \<Longrightarrow> purge T S' S'' \<Longrightarrow> purge T S S''"
  unfolding purge_def by (metis option.distinct(1))

lemma purge_mono: "purge T S S' \<Longrightarrow> T \<subseteq> T' \<Longrightarrow> purge T' S S'"
  unfolding purge_def by blast

lemma purge_delete:
  assumes "db_ok d" "\<And>r. r \<in> set (webhook_bins d) \<Longrightarrow> P r \<Longrightarrow> \<exists>t \<in> T. After t (b_expires r)"
  shows "purge T (abs_db d) (abs_db (delete_bins P d))"
  unfolding purge_def
proof
  fix b
  show "abs_db (delete_bins P d) b = abs_db d b \<or>
      abs_db (delete_bins P d) b = None \<and> (\<exists>x. abs_db d b = Some x \<and> (\<exists>t \<in> T. After t (e_expires x)))"
    using assms(2) abs_delete [OF assms(1)] get_bin_mem [of d b]
    by (cases "get_bin d b") (auto simp: abs_db_def)
qed

lemma purge_delete_at:
  "db_ok d \<Longrightarrow> t \<in> T \<Longrightarrow> (\<And>r. r \<in> set (webhook_bins d) \<Longrightarrow> P r \<Longrightarrow> After t (b_expires r)) \<Longrightarrow>
     purge T (abs_db d) (abs_db (delete_bins P d))"
  by (rule purge_delete) auto

lemma reading:
  "tick w \<le> n \<Longrightarrow> n < tick w' \<Longrightarrow> go_Now e n \<in> readings e w w'"
  "tick w \<le> n \<Longrightarrow> n < tick w' \<Longrightarrow> pg_NOW e n \<in> readings e w w'"
  by (auto simp: readings_def)

lemma readings_mono:
  "tick v \<le> tick w \<Longrightarrow> tick w' \<le> tick v' \<Longrightarrow> readings e w w' \<subseteq> readings e v v'"
  unfolding readings_def by (auto intro: order_trans less_le_trans)

lemma ticks [simp]:
  "tick w \<le> tick (uncacheBin s b w)" "tick w \<le> tick (cacheBin s b ttl w)"
  by (auto simp: uncacheBin_def cacheBin_def split: option.split)

lemma tick_fold_uncache [simp]: "tick w \<le> tick (fold (uncacheBin s) bs w)"
  by (induction bs arbitrary: w) (auto intro: order_trans [OF ticks(1)])

lemma sql_exec_Inl: "sql_exec e ps stmt w = (Inl er, w') \<Longrightarrow> \<exists>m. er = Errorf m"
  by (auto simp: sql_exec_def split: pg_outcome.splits prod.splits sum.splits)

lemma sql_query_Inl: "sql_query e ps stmt w = (Inl er, w') \<Longrightarrow> \<exists>m. er = Errorf m"
  by (auto simp: sql_query_def split: pg_outcome.splits prod.splits sum.splits)

lemma sql_row_Inl:
  "sql_row e ps stmt w = (Inl er, w') \<Longrightarrow>
     (\<exists>m. er = Errorf m) \<or> er = ErrNoRows \<and> stmt (pg_NOW e (tick w)) (db w) = (Inr None, db w')"
  unfolding sql_row_def
  by (auto split: prod.splits sum.splits option.splits dest: sql_exec_Inl dest!: sql_exec_Inr(3))

lemma newID_Inl: "newID e w = (Inl er, w') \<Longrightarrow> \<exists>m. er = Errorf m"
  by (auto simp: newID_def rand_Read_def split: prod.splits sum.splits option.splits)

lemma prune_service:
  assumes "db_ok (db w)" "pruneExpired e s w = (r, w')"
  shows "purge (readings e w w') (abs_db (db w)) (abs_db (db w'))" "tick w < tick w'"
    "db_ok (db w')" "r = Some er \<Longrightarrow> \<exists>m. er = Errorf m"
proof -
  obtain q w1 where q: "sql_query e [] stmt_prune w = (q, w1)" by fastforce
  have t: "tick w1 = Suc (tick w)" using sql_query_eqD [OF q] by simp
  have w': "tick w1 \<le> tick w'" "db w' = db w1"
    using assms(2) q by (auto simp: pruneExpired_def split: sum.splits)
  then show tk: "tick w < tick w'" using t by simp
  have "db w1 = db w \<or> db w1 = delete_bins (\<lambda>b. b_expires b < pg_NOW e (tick w)) (db w)"
    using q by (auto simp: sql_query_def sql_run_def stmt_prune_def split: pg_outcome.splits)
  then show "purge (readings e w w') (abs_db (db w)) (abs_db (db w'))" "db_ok (db w')"
    using assms(1) w'(2) reading(2) [OF order_refl tk, of e]
    by (auto intro!: purge_delete_at db_ok_delete simp: After_def)
  show "r = Some er \<Longrightarrow> \<exists>m. er = Errorf m"
    using assms(2)
    by (auto simp: pruneExpired_def sql_query_def split: pg_outcome.splits prod.splits sum.splits)
qed

text \<open>Deleting a bin that one of the clock readings puts past its time is a purge.\<close>

lemma expired_delete_service:
  assumes "db_ok (db v)" "get_bin (db v) b = Some x" "t \<in> T" "After t (b_expires x)"
  shows "purge T (abs_db (db v)) (abs_db (db (snd (sql_exec e ps (stmt_delete_bin b) v))))"
proof -
  have "z = x" if "z \<in> set (webhook_bins (db v))" "b_id z = b" for z
    using assms(2) that get_bin_iff [OF assms(1), of b z] by simp
  moreover have "db (snd (sql_exec e ps (stmt_delete_bin b) v)) \<in> {db v, delete_bins (\<lambda>r. b_id r = b) (db v)}"
    using sql_exec_effect [of "stmt_delete_bin b" v e ps] by (auto simp: stmt_effect_def stmt_delete_bin_def)
  ultimately show ?thesis using assms(3,4) by (auto intro!: purge_delete_at [OF assms(1)])
qed

text \<open>The owner check either hands out a usable entry and changes nothing, or refuses honestly.\<close>

lemma getOwned_service:
  assumes "db_ok (db w)" "getOwned e s u b w = (r, w')"
  shows "tick w < tick w'" "db_ok (db w')" "purge (readings e w w') (abs_db (db w)) (abs_db (db w'))"
    "r = Inl er \<Longrightarrow> caller c = Some u \<Longrightarrow> bin_named c = Some b \<Longrightarrow>
       honest (readings e w w') c (abs_db (db w)) (abs_db (db w')) er"
    "r = Inr x \<Longrightarrow> may_use (readings e w w') u b (abs_db (db w')) (entry_of x (hits_of b (db w')))"
proof -
  obtain q w1 where q: "sql_row e [b] (stmt_select_bin b) w = (q, w1)" by fastforce
  have w1: "tick w1 = Suc (tick w)" "db w1 = db w" using sql_row_eqD [OF q] reads_row_eqD [OF q] by simp_all
  have row: "get_bin (db w) b = Some y" if "q = Inr y" for y
    using sql_exec_Inr(3) [OF sql_row_Inr [OF q [unfolded that]]] w1 by (simp add: stmt_select_bin_def)
  have none: "get_bin (db w) b = None" if "q = Inl ErrNoRows"
    using sql_row_Inl [OF q [unfolded that]] by (auto simp: stmt_select_bin_def)
  define w2 where "w2 = snd (sql_exec e [b] (stmt_delete_bin b) (bump w1))"
  have w2: "tick w2 = Suc (Suc (Suc (tick w)))" by (simp add: w2_def w1)
  have dw2: "db w2 = db w \<or> db w2 = delete_bins (\<lambda>r. b_id r = b) (db w)"
    using sql_exec_effect [of "stmt_delete_bin b" "bump w1" e "[b]"] w1
    by (auto simp: w2_def stmt_effect_def stmt_delete_bin_def)
  consider (err) er where "q = Inl er" "r = Inl (if errors_Is er ErrNoRows then ErrNotFound else er)" "w' = w1"
    | (foreign) y where "q = Inr y" "b_user y \<noteq> u" "r = Inl ErrForbidden" "w' = w1"
    | (old) y where "q = Inr y" "b_user y = u" "After (go_Now e (Suc (tick w))) (b_expires y)"
        "r = Inl ErrExpired" "w' = uncacheBin s b w2"
    | (ok) y where "q = Inr y" "b_user y = u" "\<not> After (go_Now e (Suc (tick w))) (b_expires y)"
        "r = Inr y" "w' = bump w1"
    using assms(2) w1 unfolding getOwned_def q w2_def
    by (cases q) (auto simp: time_Now_def Let_def split: if_splits)
  note cases = this
  have now: "go_Now e (Suc (tick w)) \<in> readings e w w'" if "Suc (tick w) < tick w'"
    using that by (intro reading) simp_all
  show "tick w < tick w'"
    by (rule cases) (use w1 w2 ticks(1) [of w2 s b] in simp_all)
  show "db_ok (db w')"
    by (rule cases) (use w1 dw2 assms(1) db_ok_delete [OF assms(1)] in auto)
  show "purge (readings e w w') (abs_db (db w)) (abs_db (db w'))"
  proof (rule cases)
    fix y assume y: "q = Inr y" "After (go_Now e (Suc (tick w))) (b_expires y)" "w' = uncacheBin s b w2"
    have "go_Now e (Suc (tick w)) \<in> readings e w w'" using y(3) w2 ticks(1) [of w2 s b] by (intro now) simp
    then show ?thesis
      using expired_delete_service [of "bump w1" b y _ _ e "[b]"] row [OF y(1)] assms(1) w1 y(2,3) by (simp add: w2_def)
  qed (use w1 in simp_all)
  show "honest (readings e w w') c (abs_db (db w)) (abs_db (db w')) er"
    if "r = Inl er" "caller c = Some u" "bin_named c = Some b"
  proof (rule cases)
    fix er0 assume e: "q = Inl er0" "r = Inl (if errors_Is er0 ErrNoRows then ErrNotFound else er0)" "w' = w1"
    then show ?thesis
      using sql_row_Inl [OF q [unfolded e(1)]] that none w1 by (auto simp: honest_def)
  next
    fix y assume y: "q = Inr y" "After (go_Now e (Suc (tick w))) (b_expires y)" "r = Inl ErrExpired"
      "w' = uncacheBin s b w2"
    have "go_Now e (Suc (tick w)) \<in> readings e w w'" using y(4) w2 ticks(1) [of w2 s b] by (intro now) simp
    then show ?thesis using that y row [OF y(1)] by (auto simp: honest_def abs_get)
  qed (use that row w1 in \<open>auto simp: honest_def abs_get\<close>)
  show "may_use (readings e w w') u b (abs_db (db w')) (entry_of x (hits_of b (db w')))" if "r = Inr x"
    by (rule cases) (use that row w1 now in \<open>auto simp: may_use_def in_time_def abs_get\<close>)
qed


section \<open>Each call is a step of the service\<close>

lemma svc_by_reply:
  assumes "\<And>er. r = Inl er \<Longrightarrow> svc e k T c S (Failed er) S'" "\<And>a. r = Inr a \<Longrightarrow> svc e k T c S (f a) S'"
  shows "svc e k T c S (case_sum Failed f r) S'"
  using assms by (cases r) simp_all

lemma honest_Errorf [simp]: "honest T c S S' (Errorf m)"
  by (simp add: honest_def)

lemma purge_later: "purge (readings e w w1) S S' \<Longrightarrow> tick w1 \<le> tick w' \<Longrightarrow> purge (readings e w w') S S'"
  by (erule purge_mono) (rule readings_mono [OF order_refl])

lemma svc_failed_later:
  "purge (readings e w w1) S S' \<Longrightarrow> tick w1 \<le> tick w' \<Longrightarrow> honest (readings e w w') c S S' er \<Longrightarrow>
     svc e k (readings e w w') c S (Failed er) S'"
  by (rule svc.failed [OF purge_later])

lemma svc_Create:
  assumes inv: "hooks_inv (db w)" and run: "Create e s u name w = (r, w')"
  shows "svc e k (readings e w w') (CallCreate u name) (abs_db (db w)) (case_sum Failed GotBin r) (abs_db (db w'))"
proof -
  have ok: "db_ok (db w)" using inv by (simp add: hooks_inv_def)
  obtain pr w1 where p: "pruneExpired e s w = (pr, w1)" by fastforce
  note P = prune_service [OF ok p]
  obtain cr w2 where c: "sql_exec e [u] (stmt_count_bins u) w1 = (cr, w2)" by fastforce
  have w2: "db w2 = db w1" "tick w2 = Suc (tick w1)" using reads_eqD [OF c] sql_exec_eqD [OF c] by simp_all
  have cnt: "n = card (owned u (abs_db (db w1)))" if "cr = Inr n" for n
    using sql_exec_Inr(3) [OF c [unfolded that]] w2(1) by (simp add: stmt_count_bins_def card_owned [OF P(3)])
  obtain ir w3 where i: "newID e w2 = (ir, w3)" by fastforce
  have w3: "db w3 = db w1" "tick w3 = Suc (tick w2)" using newID_frame [of e w2] i w2 by simp_all
  let ?S = "abs_db (db w)"
  have fail: "svc e k (readings e w w') (CallCreate u name) ?S (Failed er) (abs_db (db w'))"
    if "db w' = db w1" "tick w1 \<le> tick w'" "\<exists>m. er = Errorf m" for er
    using that svc_failed_later [OF P(1)] by auto
  show ?thesis
  proof (cases "\<exists>n bid. pr = None \<and> cr = Inr n \<and> n < MaxBinsPerUser \<and> ir = Inr bid")
    case False
    have "svc e k (readings e w w2) (CallCreate u name) ?S (Failed ErrLimitBins) (abs_db (db w2))"
      if "cr = Inr n" "MaxBinsPerUser \<le> n" for n
      using svc_failed_later [OF P(1), of w2 "CallCreate u name" ErrLimitBins k] cnt [OF that(1)] that(2) w2
      by (simp add: honest_def)
    then show ?thesis
      using run False fail P(4) sql_exec_Inl [of e "[u]" "stmt_count_bins u" w1] newID_Inl [of e w2] w2 w3 c i
      by (auto simp: Create_def p split: option.splits sum.splits if_splits)
  next
    case True
    then obtain n bid where t: "pr = None" "cr = Inr n" "n < MaxBinsPerUser" "ir = Inr bid" by blast
    define now where "now = go_Now e (tick w3)"
    define b where "b = \<lparr>b_id = bid, b_user = u, b_name = bin_name bid name, b_created = now,
        b_expires = now + BinTTL, b_hits = 0, b_last = None\<rparr>"
    obtain x w4 where x: "sql_exec e [b_id b, b_user b, b_name b] (stmt_insert_bin b) (bump w3) = (x, w4)"
      by fastforce
    have w4: "tick w4 = Suc (Suc (tick w3))" using sql_exec_eqD [OF x] by simp
    have res: "(r, w') = (case x of Inl er \<Rightarrow> (Inl er, w4) | Inr _ \<Rightarrow> (Inr b, cacheBin s (b_id b) BinTTL w4))"
      using run x t(3) [unfolded not_le [symmetric]] unfolding Create_def p
      by (cases x) (simp_all add: t(1,2,4) c i time_Now_def b_def now_def Let_def)
    then have w': "db w' = db w4" "tick w4 \<le> tick w'" by (auto split: sum.splits)
    have "db w4 = db w1 \<or> (\<exists>t. stmt_insert_bin b t (db w1) = (Inr (), db w4))"
      using sql_exec_effect [of "stmt_insert_bin b" "bump w3" e "[b_id b, b_user b, b_name b]"] x w3
      by (auto simp: stmt_effect_def)
    moreover have "svc e k (readings e w w') (CallCreate u name) ?S (GotBin b) (abs_db (db w'))"
      if "stmt_insert_bin b t (db w1) = (Inr (), db w4)" for t
    proof -
      note ins = insert_bin_effect [OF that]
      have S': "abs_db (db w') = (abs_db (db w1))(bid \<mapsto> \<lparr>e_owner = u, e_name = bin_name bid name,
          e_created = pg_time now, e_expires = pg_time (now + BinTTL), e_last = None, e_log = {#}\<rparr>)"
        using abs_insert_bin [OF P(3) ins(1)] ins(2) w'(1) by (simp add: b_def bin_row_def entry_of_def)
      have "now \<in> readings e w w'" unfolding now_def by (rule reading) (use P(2) w2 w3 w4 w' in simp_all)
      then show ?thesis
        unfolding b_def S'
        using purge_later [OF P(1), of w'] P(2) w2 w3 w4 w'(2) cnt [OF t(2)] t(3) ins(1) newID_bin_id [of e w2 bid w3] i t(4)
        by (intro svc.created) (auto simp: get_bin_None b_def)
    qed
    moreover have "x = Inr () \<Longrightarrow> \<exists>t. stmt_insert_bin b t (db w1) = (Inr (), db w4)"
      using sql_exec_Inr(3) [of e "[b_id b, b_user b, b_name b]" "stmt_insert_bin b" "bump w3"] x w3 by auto
    moreover have "\<exists>m. er = Errorf m" if "x = Inl er" for er using sql_exec_Inl [OF x [unfolded that]] .
    ultimately show ?thesis
      using res fail w' w2 w3 w4 by (cases x) (auto intro: svc.unacknowledged)
  qed
qed


text \<open>Calls that only look, or delete a bin.\<close>

lemma svc_Get:
  assumes inv: "hooks_inv (db w)" and run: "Get_bin e s u b w = (r, w')"
  shows "svc e k (readings e w w') (CallGet u b) (abs_db (db w)) (case_sum Failed GotBin r) (abs_db (db w'))"
proof -
  have ok: "db_ok (db w)" using inv by (simp add: hooks_inv_def)
  obtain pr w1 where p: "pruneExpired e s w = (pr, w1)" by fastforce
  note P = prune_service [OF ok p]
  have g: "getOwned e s u b w1 = (r, w')" using run by (simp add: Get_bin_def p)
  note G = getOwned_service [OF P(3) g]
  have r: "readings e w1 w' \<subseteq> readings e w w'" using P(2) by (intro readings_mono) simp_all
  have pw: "purge (readings e w w') (abs_db (db w)) (abs_db (db w'))"
    using purge_trans [OF purge_later [OF P(1)] purge_mono [OF G(3) r]] G(1) by simp
  have "hooks_inv (db w1)" using hooks_inv_prune [OF inv, of e s] p by simp
  then have "hooks_inv (db w')" using hooks_inv_pruned [OF getOwned_db, of w1 e s u b] g by simp
  note inv' = this
  show ?thesis
  proof (rule svc_by_reply)
    fix x assume x: "r = Inr x"
    then have m: "may_use (readings e w1 w') u b (abs_db (db w')) (entry_of x (hits_of b (db w')))" by (rule G(5))
    have gx: "get_bin (db w') b = Some x"
      using getOwned_Inr(1,2) [of e s u b w1 x w'] g x by simp
    have "may_use (readings e w w') u b (abs_db (db w')) (entry_of x (hits_of b (db w')))"
      using m r by (auto simp: may_use_def in_time_def)
    from svc.got [OF pw this, of e k] show "svc e k (readings e w w') (CallGet u b) (abs_db (db w)) (GotBin x) (abs_db (db w'))"
      by (simp add: shown_entry [OF inv' gx])
  next
    fix er assume "r = Inl er"
    then have "honest (readings e w1 w') (CallGet u b) (abs_db (db w1)) (abs_db (db w')) er"
      by (rule G(4)) simp_all
    moreover have "abs_db (db w) c = Some x" if "abs_db (db w1) c = Some x" for c x
      using P(1) that unfolding purge_def by (metis option.distinct(1))
    ultimately have "honest (readings e w w') (CallGet u b) (abs_db (db w)) (abs_db (db w')) er"
      using r by (cases er) (fastforce simp: honest_def)+
    then show "svc e k (readings e w w') (CallGet u b) (abs_db (db w)) (Failed er) (abs_db (db w'))"
      by (rule svc.failed [OF pw])
  qed
qed

lemma may_use_mono: "may_use T u b S x \<Longrightarrow> T \<subseteq> T' \<Longrightarrow> may_use T' u b S x"
  by (auto simp: may_use_def in_time_def)

text \<open>The calls behind the owner check: what is left to show is the part after it.\<close>

lemma svc_owned:
  assumes "db_ok (db w)" "getOwned e s u b w = (g, w1)" "tick w1 \<le> tick w'" "caller c = Some u" "bin_named c = Some b"
    and "\<And>er. g = Inl er \<Longrightarrow> rep = Failed er \<and> w' = w1"
    and "\<And>x. g = Inr x \<Longrightarrow> db w1 = db w \<Longrightarrow> get_bin (db w) b = Some x \<Longrightarrow>
      may_use (readings e w w') u b (abs_db (db w)) (entry_of x (hits_of b (db w))) \<Longrightarrow>
      svc e k (readings e w w') c (abs_db (db w)) rep (abs_db (db w'))"
  shows "svc e k (readings e w w') c (abs_db (db w)) rep (abs_db (db w'))"
proof (cases g)
  case (Inl er)
  note G = getOwned_service [OF assms(1,2)]
  show ?thesis
    using assms(6) [OF Inl] svc.failed [OF G(3) G(4) [OF Inl assms(4,5)]] by simp
next
  case (Inr x)
  note o = getOwned_Inr [OF assms(2) [unfolded Inr]]
  have "readings e w w1 \<subseteq> readings e w w'" using assms(3) by (intro readings_mono) simp_all
  from may_use_mono [OF getOwned_service(5) [OF assms(1,2) Inr] this] o(1)
  show ?thesis by (intro assms(7) [OF Inr o(1,2)]) simp
qed

lemma svc_Delete:
  assumes inv: "hooks_inv (db w)" and run: "Delete_bin e s u b w = (r, w')"
  shows "svc e k (readings e w w') (CallDelete u b) (abs_db (db w)) (case_sum Failed (\<lambda>_. Gone) r) (abs_db (db w'))"
proof -
  have ok: "db_ok (db w)" using inv by (simp add: hooks_inv_def)
  obtain g w1 where g: "getOwned e s u b w = (g, w1)" by fastforce
  obtain q w2 where q: "sql_exec e [b] (stmt_delete_bin b) w1 = (q, w2)" by fastforce
  have res: "(r, w') = (case g of Inl er \<Rightarrow> (Inl er, w1)
      | Inr _ \<Rightarrow> (case q of Inl er \<Rightarrow> (Inl er, w2) | Inr _ \<Rightarrow> (Inr (), uncacheBin s b w2)))"
    unfolding run [symmetric] by (cases g; cases q) (simp_all add: Delete_bin_def g q)
  have t: "tick w1 \<le> tick w'" "\<And>x. g = Inr x \<Longrightarrow> db w' = db w2"
    using res sql_exec_eqD [OF q] ticks(1) [of w2 s b] by (auto split: sum.splits intro: order_trans [rotated])
  show ?thesis
  proof (rule svc_owned [OF ok g t(1)])
    fix x assume x: "g = Inr x" "db w1 = db w" and m: "may_use (readings e w w') u b (abs_db (db w)) (entry_of x (hits_of b (db w)))"
    have d2: "db w2 = db w \<or> db w2 = delete_bins (\<lambda>r. b_id r = b) (db w)"
      using sql_exec_effect [of "stmt_delete_bin b" w1 e "[b]"] q x by (auto simp: stmt_effect_def stmt_delete_bin_def)
    have gone: "svc e k (readings e w w') (CallDelete u b) (abs_db (db w)) Gone (abs_db (delete_bins (\<lambda>r. b_id r = b) (db w)))"
      using svc.deleted [OF m] by (simp add: abs_delete_id [OF ok])
    show "svc e k (readings e w w') (CallDelete u b) (abs_db (db w)) (case_sum Failed (\<lambda>_. Gone) r) (abs_db (db w'))"
    proof (cases q)
      case (Inl er)
      then obtain m where "er = Errorf m" using sql_exec_Inl [OF q [unfolded Inl]] by blast
      then show ?thesis using d2 gone res x Inl t(2) by (auto intro: svc.unacknowledged svc.failed)
    next
      case (Inr y)
      then have "db w2 = delete_bins (\<lambda>r. b_id r = b) (db w)"
        using sql_exec_Inr(3) [OF q [unfolded Inr]] x by (simp add: stmt_delete_bin_def)
      then show ?thesis using gone res x Inr t(2) by simp
    qed
  qed (use res in simp_all)
qed


lemma sql_tx_Inl:
  assumes "sql_tx e body w = (Inl er, w')" "\<And>v er v'. body v = (Inl er, v') \<Longrightarrow> \<exists>m. er = Errorf m"
  shows "\<exists>m. er = Errorf m"
  using assms by (auto simp: sql_tx_def split: pg_outcome.splits prod.splits sum.splits)

lemma sql_tx_tick:
  assumes "sql_tx e body w = (q, w')" "\<And>v q v'. body v = (q, v') \<Longrightarrow> tick v \<le> tick v'"
  shows "tick w < tick w'"
proof -
  obtain q1 w1 where b: "body (bump w) = (q1, w1)" by fastforce
  then have "Suc (tick w) \<le> tick w1" using assms(2) [OF b] by simp
  then show ?thesis using assms(1) b by (auto simp: sql_tx_def split: pg_outcome.splits sum.splits)
qed

lemma clear_tx_tick: "clear_tx e b w = (q, w') \<Longrightarrow> tick w \<le> tick w'"
  by (auto simp: clear_tx_def split: prod.splits sum.splits dest!: sql_exec_eqD)

lemma clear_tx_Inl: "clear_tx e b w = (Inl er, w') \<Longrightarrow> \<exists>m. er = Errorf m"
  by (auto simp: clear_tx_def split: prod.splits sum.splits dest: sql_exec_Inl)

lemma ingest_tx_tick: "ingest_tx e h now w = (q, w') \<Longrightarrow> tick w \<le> tick w'"
  by (auto simp: ingest_tx_def split: prod.splits sum.splits dest!: sql_exec_eqD)

lemma ingest_tx_Inl: "ingest_tx e h now w = (Inl er, w') \<Longrightarrow> \<exists>m. er = Errorf m"
  by (auto simp: ingest_tx_def split: prod.splits sum.splits dest: sql_exec_Inl)

lemma abs_clear:
  assumes "get_bin d b = Some x"
  shows "abs_db (touch b 0 None (snd (stmt_delete_hits b 0 d))) = (abs_db d)(b \<mapsto> cleared (entry_of x (hits_of b d)))"
proof -
  let ?d = "snd (stmt_delete_hits b 0 d)"
  have "hits_of b ?d = []" by (simp add: stmt_delete_hits_def hits_of_def filter_empty_conv)
  moreover have "abs_db (touch b 0 None ?d) =
      (abs_db d)(b \<mapsto> (entry_of x (hits_of b ?d))\<lparr>e_last := map_option pg_time None\<rparr>)"
    by (rule abs_rewrite_hits) (use assms in \<open>auto simp: stmt_delete_hits_def hits_of_def intro: filter_cong\<close>)
  ultimately show ?thesis by (simp add: cleared_def entry_of_def)
qed

lemma svc_Clear:
  assumes inv: "hooks_inv (db w)" and run: "ClearHits e s u b w = (r, w')"
  shows "svc e k (readings e w w') (CallClear u b) (abs_db (db w)) (case_sum Failed GotBin r) (abs_db (db w'))"
proof -
  have ok: "db_ok (db w)" using inv by (simp add: hooks_inv_def)
  obtain g w1 where g: "getOwned e s u b w = (g, w1)" by fastforce
  obtain q w2 where q: "sql_tx e (clear_tx e b) w1 = (q, w2)" by fastforce
  obtain g2 w3 where g2: "getOwned e s u b w2 = (g2, w3)" by fastforce
  have res: "(r, w') = (case g of Inl er \<Rightarrow> (Inl er, w1)
      | Inr _ \<Rightarrow> (case q of Inl er \<Rightarrow> (Inl er, w2) | Inr _ \<Rightarrow> (g2, w3)))"
    unfolding run [symmetric] by (cases g; cases q) (simp_all add: ClearHits_def g q g2)
  have t: "tick w1 < tick w2" by (rule sql_tx_tick [OF q clear_tx_tick])
  have d2: "db w2 = db w1 \<or> db w2 = touch b 0 None (snd (stmt_delete_hits b 0 (db w1)))"
    using sql_tx_effect [of e "clear_tx e b" w1] q clear_tx_Inr(1) [of e b "bump w1"] by auto
  have "hooks_inv (db w1)" using hooks_inv_pruned [OF getOwned_db inv, of e s u b] g by simp
  then have inv2: "hooks_inv (db w2)" using d2 hooks_inv_clear by metis
  then have ok2: "db_ok (db w2)" by (simp add: hooks_inv_def)
  note G2 = getOwned_service [OF ok2 g2]
  have t': "tick w1 \<le> tick w'" using res t G2(1) by (auto split: sum.splits)
  let ?T = "readings e w w'"
  show ?thesis
  proof (rule svc_owned [OF ok g t'])
    fix x assume x: "g = Inr x" "db w1 = db w" "get_bin (db w) b = Some x"
      and m: "may_use ?T u b (abs_db (db w)) (entry_of x (hits_of b (db w)))"
    let ?S = "(abs_db (db w))(b \<mapsto> cleared (entry_of x (hits_of b (db w))))"
    note late = svc.emptied_late [OF m]
    show "svc e k ?T (CallClear u b) (abs_db (db w)) (case_sum Failed GotBin r) (abs_db (db w'))"
    proof (cases q)
      case (Inl er)
      have "\<exists>m. er = Errorf m"
        by (rule sql_tx_Inl [OF q [unfolded Inl]]) (rule clear_tx_Inl)
      moreover have "r = Inl er" "abs_db (db w') = abs_db (db w) \<or> abs_db (db w') = ?S"
        using d2 res x Inl abs_clear [OF x(3)] by auto
      ultimately show ?thesis using late [OF purge_refl honest_Errorf] by (auto intro: svc.failed)
    next
      case (Inr y)
      then have "\<exists>w5. clear_tx e b (bump w1) = (Inr y, w5) \<and> w2 = bump w5" using sql_tx_Inr q by simp
      then have S2: "abs_db (db w2) = ?S" using clear_tx_Inr(1) [of e b "bump w1" y] x abs_clear [OF x(3)] by auto
      have rw: "r = g2" "w' = w3" using res x(1) Inr by simp_all
      have sub: "readings e w2 w3 \<subseteq> ?T"
        using t getOwned_service(1) [OF ok g] rw by (intro readings_mono) simp_all
      show ?thesis
      proof (rule svc_by_reply)
        fix er assume "r = Inl er"
        then have h: "honest (readings e w2 w3) (CallClear u b) (abs_db (db w2)) (abs_db (db w3)) er"
          using G2(4) rw by simp
        then have "honest ?T (CallClear u b) ?S (abs_db (db w')) er"
          using sub S2 rw by (cases er) (fastforce simp: honest_def)+
        then show "svc e k ?T (CallClear u b) (abs_db (db w)) (Failed er) (abs_db (db w'))"
          using late purge_mono [OF G2(3) sub] S2 rw by simp
      next
        fix z assume z: "r = Inr z"
        note o = getOwned_Inr [OF g2 [folded rw, unfolded z]]
        have "entry_of z (hits_of b (db w2)) = cleared (entry_of x (hits_of b (db w)))"
          using abs_get [OF o(2)] S2 by simp
        then have "shown b (cleared (entry_of x (hits_of b (db w)))) = z"
          using shown_entry [OF inv2 o(2)] by simp
        then show "svc e k ?T (CallClear u b) (abs_db (db w)) (GotBin z) (abs_db (db w'))"
          using svc.emptied [OF m, of e k] S2 o(1) by simp
      qed
    qed
  qed (use res in simp_all)
qed


lemma keeps_newest_cap:
  assumes "tbl_ok h_id (webhook_hits d)"
  shows "keeps_newest n (mset (hits_of b d)) (mset (hits_of b (snd (stmt_cap_hits tie b n now d))))"
proof -
  let ?L = "order_desc tie h_received h_id (hits_of b d)"
  have "distinct (map h_id (hits_of b d))"
    using assms by (simp add: hits_of_def tbl_ok_def distinct_map_filter_inj)
  then have k: "mset (hits_of b (snd (stmt_cap_hits tie b n now d))) = mset (take n ?L)"
    unfolding hits_of_cap by (rule mset_keep_first) simp
  have all: "mset (hits_of b d) = mset (take n ?L) + mset (drop n ?L)"
    by (metis append_take_drop_id mset_append mset_order_desc)
  have "sorted (map (\<lambda>h. - h_received h) (take n ?L @ drop n ?L))" by (simp add: sorted_order_desc)
  then have "h_received x \<le> h_received y" if "x \<in> set (drop n ?L)" "y \<in> set (take n ?L)" for x y
    using that unfolding map_append sorted_append by force
  then show ?thesis by (simp add: keeps_newest_def k all)
qed

lemma abs_ingest:
  assumes "db_ok d" "get_bin d (h_bin row) = Some x" "h_id row \<notin> h_id ` set (webhook_hits d)"
  shows "\<exists>M. keeps_newest MaxHitsPerBin (add_mset row (mset (hits_of (h_bin row) d))) M \<and>
    abs_db (ingest_effect tie row now d) = (abs_db d)(h_bin row \<mapsto>
      (entry_of x (hits_of (h_bin row) d))\<lparr>e_log := M, e_last := Some (pg_time now)\<rparr>)"
proof -
  let ?b = "h_bin row" and ?d1 = "d\<lparr>webhook_hits := webhook_hits d @ [row]\<rparr>"
  let ?d2 = "snd (stmt_cap_hits tie ?b MaxHitsPerBin 0 ?d1)"
  have "tbl_ok h_id (webhook_hits ?d1)" using db_ok_insert_hit [OF assms(1,3)] assms(2) by (simp add: db_ok_def)
  from keeps_newest_cap [OF this, of MaxHitsPerBin ?b tie 0]
  have k: "keeps_newest MaxHitsPerBin (add_mset row (mset (hits_of ?b d))) (mset (hits_of ?b ?d2))"
    by (simp add: hits_of_def)
  have "hits_of j ?d2 = hits_of j d" if "j \<noteq> ?b" for j
    using that by (simp add: cap_hits_frame(5)) (simp add: hits_of_def)
  then have "abs_db (touch ?b (length (hits_of ?b ?d2)) (Some now) ?d2) =
      (abs_db d)(?b \<mapsto> (entry_of x (hits_of ?b ?d2))\<lparr>e_last := map_option pg_time (Some now)\<rparr>)"
    by (intro abs_rewrite_hits) (use assms(2) in simp_all)
  then show ?thesis using k by (intro exI [of _ "mset (hits_of ?b ?d2)"]) (simp add: ingest_effect_def Let_def entry_of_def)
qed

lemma Ingest_run:
  fixes w' :: "'k world"
  assumes "Ingest e s b i w = (r, w')" "pruneExpired e s w = (pr, w1)"
    and "sql_row e [b] (stmt_select_expiry b) w1 = (q, w2)" "newID e (bump w2) = (ir, w4)"
  obtains (err) er where "q = Inl er" "r = Inl (if errors_Is er ErrNoRows then ErrNotFound else er)" "w' = w2"
    | (old) ex where "q = Inr ex" "After (go_Now e (tick w2)) ex" "r = Inl ErrExpired"
        "w' = snd (sql_exec e [b] (stmt_delete_bin b) (bump w2))"
    | (rand) ex er where "q = Inr ex" "ir = Inl er" "r = Inl er" "w' = w4"
    | (tx) ex hid h t where "q = Inr ex" "\<not> After (go_Now e (tick w2)) ex" "ir = Inr hid"
        "h = make_hit e hid b (go_Now e (tick w2)) i" "sql_tx e (ingest_tx e h (go_Now e (tick w2))) w4 = (t, w')"
        "r = (case t of Inl er \<Rightarrow> Inl er | Inr _ \<Rightarrow> Inr h)"
  using assms unfolding Ingest_def
  by (cases q; cases ir) (auto simp: time_Now_def Let_def split: if_splits prod.splits sum.splits)

text \<open>A transaction that ran to its end captured the hit, whether or not its answer arrived.\<close>

lemma svc_stored:
  assumes ok: "db_ok (db w1)" and x: "get_bin (db w1) b = Some x" and now: "now \<in> T" "\<not> After now (b_expires x)"
    and purge: "purge T S (abs_db (db w1))"
    and body: "ingest_tx e (make_hit e hid b now i) now v = (Inr y, w5)" "db v = db w1"
  shows "svc e k T (CallIngest b i) S (GotHit (make_hit e hid b now i)) (abs_db (db w5))"
proof -
  let ?h = "make_hit e hid b now i"
  obtain row tie where row: "hit_row_of e ?h = Some row" "hid \<notin> h_id ` set (webhook_hits (db w1))"
      "db w5 = ingest_effect tie row now (db w1)"
    using ingest_tx_Inr [OF body(1)] body(2) by auto
  have hb: "h_bin row = b" "h_id row = hid" using hit_row_simps(1,2) [OF row(1)] by simp_all
  obtain M where M: "keeps_newest MaxHitsPerBin (add_mset row (mset (hits_of b (db w1)))) M"
      "abs_db (db w5) = (abs_db (db w1))(b \<mapsto> (entry_of x (hits_of b (db w1)))\<lparr>e_log := M, e_last := Some (pg_time now)\<rparr>)"
    using abs_ingest [OF ok, of row x tie now] x row hb by auto
  show ?thesis
    unfolding M(2)
    by (rule svc.captured [OF purge abs_get [OF x], where hid = hid]) (use now row M(1) in \<open>auto simp: hits_of_def\<close>)
qed

lemma svc_Ingest:
  assumes inv: "hooks_inv (db w)" and run: "Ingest e s b i w = (r, w')"
  shows "svc e k (readings e w w') (CallIngest b i) (abs_db (db w)) (case_sum Failed GotHit r) (abs_db (db w'))"
proof -
  have ok: "db_ok (db w)" using inv by (simp add: hooks_inv_def)
  obtain pr w1 where p: "pruneExpired e s w = (pr, w1)" by fastforce
  note P = prune_service [OF ok p]
  obtain q w2 where q: "sql_row e [b] (stmt_select_expiry b) w1 = (q, w2)" by fastforce
  have w2: "db w2 = db w1" "tick w2 = Suc (tick w1)" using reads_row_eqD [OF q] sql_row_eqD [OF q] by simp_all
  obtain ir w4 where i: "newID e (bump w2) = (ir, w4)" by fastforce
  have w4: "db w4 = db w1" "tick w4 = Suc (Suc (tick w2))" using newID_frame [of e "bump w2"] i w2 by simp_all
  have row: "\<exists>x. get_bin (db w1) b = Some x \<and> b_expires x = ex" if "q = Inr ex" for ex
    using sql_exec_Inr(3) [OF sql_row_Inr [OF q [unfolded that]]] by (auto simp: stmt_select_expiry_def)
  let ?S = "abs_db (db w)" and ?T = "readings e w w'"
  have now: "go_Now e (tick w2) \<in> ?T" if "tick w2 < tick w'" using P(2) w2 that by (intro reading) simp_all
  have fail: "svc e k ?T (CallIngest b i) ?S (Failed er) (abs_db (db w'))"
    if "db w' = db w1" "tick w1 \<le> tick w'" "honest ?T (CallIngest b i) ?S (abs_db (db w1)) er" for er
    using that svc_failed_later [OF P(1)] by auto
  from run p q i show ?thesis
  proof (cases rule: Ingest_run)
    case (err er)
    have "er = ErrNoRows \<Longrightarrow> get_bin (db w1) b = None"
      using sql_row_Inl [OF q [unfolded err(1)]] by (auto simp: stmt_select_expiry_def)
    then show ?thesis
      using sql_row_Inl [OF q [unfolded err(1)]] fail [of ErrNotFound] fail [of er] err w2 by (auto simp: honest_def)
  next
    case (old ex)
    obtain x where x: "get_bin (db w1) b = Some x" "b_expires x = ex" using row [OF old(1)] by blast
    have n: "go_Now e (tick w2) \<in> ?T" using old(4) w2 by (intro now) simp
    have "purge ?T (abs_db (db w1)) (abs_db (db w'))"
      using expired_delete_service [of "bump w2" b x _ ?T e "[b]"] x old(2,4) n P(3) w2 by simp
    moreover have "tick w1 \<le> tick w'" using old(4) w2 by simp
    ultimately have pg: "purge ?T ?S (abs_db (db w'))" using purge_trans purge_later [OF P(1)] by blast
    have "?S b = abs_db (db w1) b" using P(1) x(1) unfolding purge_def by (metis abs_get_None option.distinct(1))
    then show ?thesis
      using svc.failed [OF pg, of "CallIngest b i" ErrExpired] old(2,3) x n by (auto simp: honest_def abs_get)
  next
    case rand
    then show ?thesis using fail newID_Inl [of e "bump w2" _ w4] i w2 w4 by auto
  next
    case (tx ex hid h t)
    have tk: "tick w4 < tick w'" by (rule sql_tx_tick [OF tx(5) ingest_tx_tick])
    obtain x where x: "get_bin (db w1) b = Some x" "b_expires x = ex" using row [OF tx(1)] by blast
    have stored: "svc e k ?T (CallIngest b i) ?S (GotHit h) (abs_db (db w5))"
      if "ingest_tx e h (go_Now e (tick w2)) (bump w4) = (Inr y, w5)" for y w5
      unfolding tx(4)
      by (rule svc_stored [OF P(3) x(1) _ _ purge_later [OF P(1)] that [unfolded tx(4)]])
        (use tx(2) x(2) tk w2 w4 now in auto)
    show ?thesis
    proof (cases t)
      case (Inl er)
      have "\<exists>m. er = Errorf m"
        by (rule sql_tx_Inl [OF tx(5) [unfolded Inl]]) (rule ingest_tx_Inl)
      then obtain m where r: "er = Errorf m" "r = Inl (Errorf m)" using tx(6) Inl by auto
      consider "db w' = db w1" | y w5 where "ingest_tx e h (go_Now e (tick w2)) (bump w4) = (Inr y, w5)" "db w' = db w5"
        using sql_tx_effect [of e "ingest_tx e h (go_Now e (tick w2))" w4] tx(5) w4(1) by auto
      then show ?thesis
      proof cases
        case 1
        then show ?thesis using fail [OF 1, of "Errorf m"] r w2 w4 tk by simp
      next
        case 2
        then show ?thesis using svc.unacknowledged [OF stored [OF 2(1)]] r by simp
      qed
    next
      case (Inr y)
      then obtain w5 where w5: "ingest_tx e h (go_Now e (tick w2)) (bump w4) = (Inr y, w5)" "w' = bump w5"
        using sql_tx_Inr [of e "ingest_tx e h (go_Now e (tick w2))" w4 y w'] tx(5) by auto
      from stored [OF w5(1)] w5(2) show ?thesis by (simp add: tx(6) Inr)
    qed
  qed
qed

lemma behind_hits:
  "behind after (mset (hits_of b d))
    (if after = '''' then mset (hits_of b d)
     else case find (\<lambda>h. h_id h = after) (hits_of b d) of None \<Rightarrow> {#}
          | Some a \<Rightarrow> mset (filter (\<lambda>h. h_received h < h_received a) (hits_of b d)))"
proof (cases "find (\<lambda>h. h_id h = after) (hits_of b d)")
  case None
  then have "after \<notin> h_id ` set (hits_of b d)" by (auto simp: find_None_all)
  then show ?thesis using None by (simp add: behind_def)
next
  case (Some a)
  then have "a \<in> set (hits_of b d)" "h_id a = after" using find_Some_mem by fastforce+
  then show ?thesis using Some by (auto simp: behind_def)
qed

lemma newest_order_desc [simp]: "newest_order (order_desc tie h_received h_id rows)"
  by (simp add: newest_order_def sorted_order_desc)

text \<open>What a query answers is some of the statement's rows, from the front.\<close>

lemma sql_query_rows:
  assumes "sql_query e ps stmt w = (Inr (rows, er), w')"
  shows "\<exists>all k. stmt (pg_NOW e (tick w)) (db w) = (Inr all, db w') \<and> rows = take k all"
proof -
  have "\<exists>k. xs = take k xs" for xs :: "'a list" by (rule exI [of _ "length xs"]) simp
  then show ?thesis
    using assms by (auto simp: sql_query_def sql_run_def split: pg_outcome.splits sum.splits prod.splits if_splits)
qed

lemma svc_ListHits:
  assumes inv: "hooks_inv (db w)" and run: "ListHits e s u b n after w = (r, w')"
  shows "svc e k (readings e w w') (CallListHits u b n after) (abs_db (db w)) (case_sum Failed GotHits r) (abs_db (db w'))"
proof -
  have ok: "db_ok (db w)" using inv by (simp add: hooks_inv_def)
  obtain g w1 where g: "getOwned e s u b w = (g, w1)" by fastforce
  define ps where "ps = (if after = '''' then [b] else [b, after])"
  define stmt where "stmt = (if after = '''' then stmt_list_hits (pg_tie e (tick w1)) b (clamp_limit n)
      else stmt_list_hits_after (pg_tie e (tick w1)) b after (clamp_limit n))"
  obtain q w2 where q: "sql_query e ps stmt w1 = (q, w2)" by fastforce
  have "reads stmt" by (simp add: stmt_def)
  then have w2: "db w2 = db w1" "tick w2 = Suc (tick w1)" using reads_query_eqD [OF q] sql_query_eqD [OF q] by simp_all
  have "(if after = '''' then sql_query e [b] (stmt_list_hits (pg_tie e (tick w1)) b (clamp_limit n)) w1
      else sql_query e [b, after] (stmt_list_hits_after (pg_tie e (tick w1)) b after (clamp_limit n)) w1) = (q, w2)"
    using q by (simp add: ps_def stmt_def split: if_splits)
  note query = this
  have res: "(r, w') = (case g of Inl er \<Rightarrow> (Inl er, w1)
      | Inr _ \<Rightarrow> (case q of Inl er \<Rightarrow> (Inl er, w2) | Inr (rows, _) \<Rightarrow> (Inr rows, w2)))"
    unfolding run [symmetric] ListHits_def g Let_def prod.case query
    by (cases g; cases q) (auto split: prod.split)
  have t: "tick w1 \<le> tick w'" using res w2 by (auto split: sum.splits prod.splits)
  show ?thesis
  proof (rule svc_owned [OF ok g t])
    fix x assume x: "g = Inr x" "db w1 = db w"
      and m: "may_use (readings e w w') u b (abs_db (db w)) (entry_of x (hits_of b (db w)))"
    show "svc e k (readings e w w') (CallListHits u b n after) (abs_db (db w)) (case_sum Failed GotHits r) (abs_db (db w'))"
    proof (cases q)
      case (Inl er)
      then obtain m where "er = Errorf m" using sql_query_Inl [OF q [unfolded Inl]] by blast
      then show ?thesis using res x Inl w2 by (auto intro: svc.failed)
    next
      case (Inr p)
      then obtain rows qe where p: "q = Inr (rows, qe)" by (cases p) auto
      then obtain all j where a: "stmt (pg_NOW e (tick w1)) (db w) = (Inr all, db w2)" "rows = take j all"
        using sql_query_rows [of e ps stmt w1 rows qe w2] q x by auto
      let ?src = "if after = '''' then hits_of b (db w)
          else case find (\<lambda>h. h_id h = after) (hits_of b (db w)) of None \<Rightarrow> []
            | Some a \<Rightarrow> filter (\<lambda>h. h_received h < h_received a) (hits_of b (db w))"
      let ?xs = "order_desc (pg_tie e (tick w1)) h_received h_id ?src"
      have "all = map summary (take (clamp_limit n) ?xs)"
        using a(1) by (auto simp: stmt_def stmt_list_hits_def stmt_list_hits_after_def order_desc_def split: if_splits option.splits)
      then have rows: "rows = map summary (take (min j (clamp_limit n)) ?xs)" by (simp add: a(2) take_map)
      have "behind after (e_log (entry_of x (hits_of b (db w)))) (mset ?xs)"
        using behind_hits [of after b "db w"]
        by (cases "after = ''''"; cases "find (\<lambda>h. h_id h = after) (hits_of b (db w))") simp_all
      from svc.hits_listed [OF m this refl newest_order_desc, of "min j (clamp_limit n)" n e k]
      show ?thesis using res x p w2 rows by simp
    qed
  qed (use res in simp_all)
qed

lemma svc_GetHit:
  assumes inv: "hooks_inv (db w)" and run: "GetHit e s u b h w = (r, w')"
  shows "svc e k (readings e w w') (CallGetHit u b h) (abs_db (db w)) (case_sum Failed GotHit r) (abs_db (db w'))"
proof -
  have ok: "db_ok (db w)" using inv by (simp add: hooks_inv_def)
  obtain g w1 where g: "getOwned e s u b w = (g, w1)" by fastforce
  obtain q w2 where q: "sql_row e [h, b] (stmt_select_hit h b) w1 = (q, w2)" by fastforce
  have w2: "db w2 = db w1" "tick w2 = Suc (tick w1)" using reads_row_eqD [OF q] sql_row_eqD [OF q] by simp_all
  have res: "(r, w') = (case g of Inl er \<Rightarrow> (Inl er, w1)
      | Inr _ \<Rightarrow> (case q of Inl er \<Rightarrow> (Inl (if errors_Is er ErrNoRows then ErrNotFound else er), w2)
                  | Inr row \<Rightarrow> (Inr (read_hit e row), w2)))"
    unfolding run [symmetric] by (cases g; cases q) (simp_all add: GetHit_def g q)
  have t: "tick w1 \<le> tick w'" using res w2 by (auto split: sum.splits)
  show ?thesis
  proof (rule svc_owned [OF ok g t])
    fix x assume x: "g = Inr x" "db w1 = db w" "get_bin (db w) b = Some x"
      and m: "may_use (readings e w w') u b (abs_db (db w)) (entry_of x (hits_of b (db w)))"
    show "svc e k (readings e w w') (CallGetHit u b h) (abs_db (db w)) (case_sum Failed GotHit r) (abs_db (db w'))"
    proof (cases q)
      case (Inl er)
      then have "er = ErrNoRows \<Longrightarrow> h \<notin> h_id ` set (hits_of b (db w))"
        using sql_row_Inl [OF q [unfolded Inl]] x(2) by (auto simp: stmt_select_hit_def find_None_all)
      then have "honest (readings e w w') (CallGetHit u b h) (abs_db (db w)) (abs_db (db w))
          (if errors_Is er ErrNoRows then ErrNotFound else er)"
        using sql_row_Inl [OF q [unfolded Inl]] x(3) by (auto simp: honest_def abs_get)
      then show ?thesis using res x Inl w2 by (auto intro: svc.failed)
    next
      case (Inr row)
      then have "find (\<lambda>h'. h_id h' = h) (hits_of b (db w)) = Some row"
        using sql_exec_Inr(3) [OF sql_row_Inr [OF q [unfolded Inr]]] x(2) by (auto simp: stmt_select_hit_def)
      then have "row \<in># e_log (entry_of x (hits_of b (db w)))" "h_id row = h" using find_Some_mem by fastforce+
      from svc.hit_got [OF m this, of e k] show ?thesis using res x Inr w2 by simp
    qed
  qed (use res in simp_all)
qed

lemma svc_List:
  assumes inv: "hooks_inv (db w)" and run: "List_bins e s u w = (r, w')"
  shows "svc e k (readings e w w') (CallList u) (abs_db (db w)) (GotBins r) (abs_db (db w'))"
proof -
  have ok: "db_ok (db w)" using inv by (simp add: hooks_inv_def)
  obtain pr w1 where p: "pruneExpired e s w = (pr, w1)" by fastforce
  note P = prune_service [OF ok p]
  obtain q w2 where q: "sql_query e [u] (stmt_select_bins (pg_tie e (tick w1)) u) w1 = (q, w2)" by fastforce
  have w2: "db w2 = db w1" "tick w2 = Suc (tick w1)" using reads_query_eqD [OF q] sql_query_eqD [OF q] by simp_all
  have res: "(r, w') = (case q of Inl _ \<Rightarrow> (None, w2) | Inr (rows, _) \<Rightarrow> (Some rows, w2))"
    unfolding run [symmetric] List_bins_def p Let_def snd_conv q by (cases q) (auto split: prod.split)
  then have w': "w' = w2" by (auto split: sum.splits prod.splits)
  have pg: "purge (readings e w w') (abs_db (db w)) (abs_db (db w'))" using purge_later [OF P(1), of w2] w2 w' by simp
  have inv1: "hooks_inv (db w1)" using hooks_inv_prune [OF inv, of e s] p by simp
  show ?thesis
  proof (cases q)
    case (Inl er)
    then show ?thesis using res svc.not_listed [OF pg] by simp
  next
    case (Inr z)
    then obtain rows qe where z: "q = Inr (rows, qe)" by (cases z) auto
    define all where "all = order_desc (pg_tie e (tick w1)) b_created b_id (bins_of u (db w1))"
    obtain j where j: "rows = take j all"
      using sql_query_rows [OF q [unfolded z]] by (auto simp: stmt_select_bins_def all_def)
    have mem: "get_bin (db w1) (b_id x) = Some x" if "x \<in> set all" for x
      using that P(3) by (simp add: all_def bins_of_def get_bin_iff)
    have "map (\<lambda>b. shown b (the (abs_db (db w') b))) (map b_id all) = all"
      using mem w2 w' by (simp add: map_idI abs_get shown_entry [OF inv1])
    moreover have "distinct (map b_id all)"
      using P(3) unfolding all_def
      by (metis bins_of_def db_ok_def tbl_ok_def distinct_map_filter_inj mset_map mset_order_desc mset_eq_imp_distinct_iff)
    moreover have "set (map b_id all) = owned u (abs_db (db w'))"
      using P(3) w2 w' by (auto simp: all_def owned_def abs_db_def bins_of_def get_bin_iff image_iff)
    ultimately show ?thesis
      using svc.listed [OF pg, of "map b_id all" u e k j] res z j by simp
  qed
qed

lemma svc_Exists:
  assumes inv: "hooks_inv (db w)" and run: "PublicExists e s b w = (r, w')"
  shows "svc e (s \<noteq> None) (readings e w w') (CallExists b) (abs_db (db w)) (Answer r) (abs_db (db w'))"
proof -
  have ok: "db_ok (db w)" using inv by (simp add: hooks_inv_def)
  define st where "st = (case s of None \<Rightarrow> (False, w)
      | Some kv \<Rightarrow> (case kv_do (\<lambda>t. kv_Exists kv t (binCacheKey b)) w of
          (Inl _, w) \<Rightarrow> (False, w) | (Inr n, w) \<Rightarrow> (0 < n, w)))"
  obtain hit w0 where h: "st = (hit, w0)" by fastforce
  have w0: "db w0 = db w" "tick w \<le> tick w0" and caching: "hit \<Longrightarrow> s \<noteq> None"
    using h by (auto simp: st_def split: option.splits prod.splits sum.splits dest!: kv_do_eqD)
  obtain pr w1 where p: "pruneExpired e s w0 = (pr, w1)" by fastforce
  have ok0: "db_ok (db w0)" using ok w0 by simp
  note P = prune_service [OF ok0 p]
  obtain q w2 where q: "sql_row e [b] (stmt_select_expiry b) w1 = (q, w2)" by fastforce
  have w2: "db w2 = db w1" "tick w2 = Suc (tick w1)" using reads_row_eqD [OF q] sql_row_eqD [OF q] by simp_all
  consider (cached) "hit" "r" "w' = w0"
    | (err) er where "\<not> r" "q = Inl er" "w' = w2"
    | (old) ex where "\<not> r" "w' = uncacheBin s b (bump w2)"
    | (live) ex t where "q = Inr ex" "\<not> After (go_Now e (tick w2)) ex" "w' = cacheBin s b t (bump (bump w2))"
    using run h unfolding PublicExists_def st_def [symmetric] h
    by (cases q) (auto simp: p q Let_def time_Now_def split: if_splits)
  then have db': "db w' = (if w' = w0 then db w0 else db w1)" and t: "tick w0 \<le> tick w'" "w' \<noteq> w0 \<Longrightarrow> tick w1 \<le> tick w'"
    using w2 P(2) by (cases; auto intro: order_trans [OF _ ticks(1)] order_trans [OF _ ticks(2)])+
  have pg0: "purge (readings e w0 w') (abs_db (db w)) (abs_db (db w'))"
    using db' w0 P(1) purge_later [OF P(1) t(2)] by (cases "w' = w0") simp_all
  have pg: "purge (readings e w w') (abs_db (db w)) (abs_db (db w'))"
    by (rule purge_mono [OF pg0 readings_mono]) (use w0 in simp_all)
  show ?thesis
  proof (rule svc.answered [OF pg])
    assume r: "r"
    consider "hit" | ex t where "q = Inr ex" "\<not> After (go_Now e (tick w2)) ex" "w' = cacheBin s b t (bump (bump w2))"
      using run h r unfolding PublicExists_def st_def [symmetric] h
      by (cases q) (auto simp: p q Let_def time_Now_def split: if_splits)
    then show "s \<noteq> None \<or> (\<exists>x. abs_db (db w') b = Some x \<and> in_time (readings e w w') x)"
    proof cases
      case 2
      obtain x where x: "get_bin (db w1) b = Some x" "b_expires x = ex"
        using sql_exec_Inr(3) [OF sql_row_Inr [OF q [unfolded 2(1)]]] by (auto simp: stmt_select_expiry_def)
      have "go_Now e (tick w2) \<in> readings e w w'"
        by (rule reading) (use w0 P(2) w2 2(3) ticks(2) [of "bump (bump w2)" s b t] in simp_all)
      then show ?thesis using x 2 w2 by (auto simp: abs_get in_time_def)
    qed (use caching in simp)
  qed
qed

section \<open>Every run of the store is a history of the service\<close>

text \<open>
  Running calls one after the other, and what a history of a specification is: the replies
  in turn, each allowed in the state the previous ones led to.
\<close>

fun serve_all :: "('c \<Rightarrow> 'w \<Rightarrow> 'r \<times> 'w) \<Rightarrow> 'c list \<Rightarrow> 'w \<Rightarrow> 'r list \<times> 'w" where
  "serve_all serve [] w = ([], w)"
| "serve_all serve (c # cs) w =
     (case serve c w of (r, w) \<Rightarrow> (case serve_all serve cs w of (rs, w) \<Rightarrow> (r # rs, w)))"

fun history :: "('c \<Rightarrow> 'a \<Rightarrow> 'r \<Rightarrow> 'a \<Rightarrow> bool) \<Rightarrow> ('c \<times> 'r) list \<Rightarrow> 'a \<Rightarrow> 'a \<Rightarrow> bool" where
  "history spec [] S S' \<longleftrightarrow> S' = S"
| "history spec ((c, r) # h) S S' \<longleftrightarrow> (\<exists>S1. spec c S r S1 \<and> history spec h S1 S')"

text \<open>An implementation of a service: every call keeps an invariant and is allowed by the specification.\<close>

locale service_impl =
  fixes serve :: "'c \<Rightarrow> 'w \<Rightarrow> 'r \<times> 'w" and inv :: "'w \<Rightarrow> bool" and view :: "'w \<Rightarrow> 'a"
    and spec :: "'c \<Rightarrow> 'a \<Rightarrow> 'r \<Rightarrow> 'a \<Rightarrow> bool"
  assumes keeps: "inv w \<Longrightarrow> serve c w = (r, w') \<Longrightarrow> inv w'"
    and allowed: "inv w \<Longrightarrow> serve c w = (r, w') \<Longrightarrow> spec c (view w) r (view w')"
begin

lemma runs_are_histories:
  "inv w \<Longrightarrow> serve_all serve cs w = (rs, w') \<Longrightarrow>
     inv w' \<and> length rs = length cs \<and> history spec (zip cs rs) (view w) (view w')"
proof (induction cs arbitrary: w rs)
  case (Cons c cs)
  obtain r w1 where c: "serve c w = (r, w1)" by fastforce
  obtain rs1 where rs: "serve_all serve cs w1 = (rs1, w')" "rs = r # rs1"
    using Cons.prems(2) c by (auto split: prod.splits)
  show ?case using Cons.IH [OF keeps [OF Cons.prems(1) c] rs(1)] allowed [OF Cons.prems(1) c] rs(2) by auto
qed simp

end

text \<open>A call with the clock readings it made.\<close>

definition timed_serve :: "env \<Rightarrow> 'k store \<Rightarrow> bin_call \<Rightarrow> 'k world \<Rightarrow> (time set \<times> bin_reply) \<times> 'k world" where
  "timed_serve e s c w = (case bin_serve e s c w of (r, w') \<Rightarrow> ((readings e w w', r), w'))"

definition service_allows :: "env \<Rightarrow> bool \<Rightarrow> bin_call \<Rightarrow> service \<Rightarrow> time set \<times> bin_reply \<Rightarrow> service \<Rightarrow> bool" where
  "service_allows e caching c S Tr S' \<longleftrightarrow> svc e caching (fst Tr) c S (snd Tr) S'"

text \<open>The cache only matters for the public lookup.\<close>

lemma bin_serve_svc:
  assumes inv: "hooks_inv (db w)" and run: "bin_serve e s c w = (r, w')"
  shows "svc e (s \<noteq> None) (readings e w w') c (abs_db (db w)) r (abs_db (db w'))"
proof -
  have split: "map_prod f id p = (r, w') \<longleftrightarrow> (\<exists>q. p = (q, w') \<and> r = f q)" for f :: "'q \<Rightarrow> bin_reply" and p
    by (cases p) auto
  show ?thesis
    using run
    by (cases c) (auto simp: bin_serve_def split simp del: not_None_eq intro: svc_Create [OF inv]
        svc_List [OF inv] svc_Get [OF inv] svc_Delete [OF inv] svc_Clear [OF inv] svc_Ingest [OF inv]
        svc_ListHits [OF inv] svc_GetHit [OF inv] svc_Exists [OF inv])
qed

lemma bin_serve_inv:
  assumes "hooks_inv (db w)" and "bin_serve e s c w = (r, w')"
  shows "hooks_inv (db w')"
proof -
  have "hook_step e s w (snd (bin_serve e s c w))"
    by (cases c) (simp_all add: bin_serve_def hook_step.intros)
  then show ?thesis using hook_step_inv [OF _ assms(1)] assms(2) by simp
qed

interpretation bins: service_impl "timed_serve e s" "\<lambda>w. hooks_inv (db w)" "\<lambda>w. abs_db (db w)"
    "service_allows e (s \<noteq> None)" for e s
  by unfold_locales (auto simp: timed_serve_def service_allows_def simp del: not_None_eq split: prod.splits
      intro: bin_serve_inv bin_serve_svc)

text \<open>
  C4. The store implements the bin service: whatever calls are made one after the other
  from tables in order, with whatever failures, clock readings, random bytes and cache
  answers, the replies and the bins and hits the tables stand for are a history of the
  service \<open>svc\<close>. From empty tables this is a history from the empty service.
\<close>

theorem store_implements_service:
  assumes "hooks_inv (db w)" and "serve_all (timed_serve e s) cs w = (rs, w')"
  shows "history (service_allows e (s \<noteq> None)) (zip cs rs) (abs_db (db w)) (abs_db (db w')) \<and>
    length rs = length cs"
  using bins.runs_are_histories [OF assms] by blast

definition demo_calls :: "bin_call list" where
  "demo_calls = [CallCreate ''u1'' ''n'', CallIngest (demo_id 2) secret_input]"

lemma demo_serve:
  "serve_all (timed_serve (demo_env 0) None) demo_calls (demo_world empty_db) =
     ([(readings (demo_env 0) (demo_world empty_db) bin_world, GotBin demo_bin),
       (readings (demo_env 0) bin_world hit_world, GotHit demo_hit)], hit_world)"
  by (simp add: demo_calls_def timed_serve_def bin_serve_def demo_create demo_ingest)

theorem store_implements_service_witness:
  "\<exists>T T' :: time set. history (service_allows (demo_env 0) False)
     [(CallCreate ''u1'' ''n'', T, GotBin demo_bin), (CallIngest (demo_id 2) secret_input, T', GotHit demo_hit)]
     Map.empty (abs_db (db hit_world))"
  using store_implements_service [OF _ demo_serve] hooks_inv_empty
  by (simp add: demo_calls_def abs_empty) blast

end
