(* ===== verification/Tenant_Spec.thy ===== *)
theory Tenant_Spec
  imports Owner_Spec Bin_Service
begin

text \<open>
  Users do not reach each other's bins: what the abstract service allows a caller to do to a
  bin of somebody else is nothing, and by the refinement of \<^verbatim>\<open>Bin_Service\<close> no run of
  requests of others changes a live bin or its hits.
\<close>

section \<open>Calls of others, in the service\<close>

lemma purge_keeps:
  "purge T S S' \<Longrightarrow> S b = Some x \<Longrightarrow> \<forall>t \<in> T. \<not> After t (e_expires x) \<Longrightarrow> S' b = Some x"
  unfolding purge_def by (metis option.inject option.distinct(1))

text \<open>
  A call of another user, and a capture for another bin, leaves an entry in time alone: it
  is neither changed nor removed, and its id is not given away.
\<close>

lemma svc_isolated:
  assumes "svc e k T c S r S'" "S b = Some x" "\<forall>t \<in> T. \<not> After t (e_expires x)"
    and "caller c \<noteq> Some (e_owner x)" "\<And>i. c \<noteq> CallIngest b i"
  shows "S' b = Some x"
  using assms
proof (induction rule: svc.induct)
  case (emptied_late u b' S y S' er)
  then have "b' \<noteq> b" by (auto simp: may_use_def)
  then show ?case using emptied_late purge_keeps [OF emptied_late.hyps(2), of b x] by simp
qed (auto simp: may_use_def dest: purge_keeps)


section \<open>Calls of others, in the store\<close>

text \<open>No clock of the environment reads a time past that of the entry.\<close>

definition outlives :: "env \<Rightarrow> entry \<Rightarrow> bool" where
  "outlives e x \<longleftrightarrow> (\<forall>n. go_Now e n \<le> e_expires x \<and> pg_NOW e n \<le> e_expires x)"

text \<open>A step that leaves the entry \<open>x\<close> of bin \<open>b\<close>, if it is there, as it is.\<close>

definition kept :: "'k server \<Rightarrow> string \<Rightarrow> entry \<Rightarrow> 'k world \<Rightarrow> 'k world \<Rightarrow> bool" where
  "kept sv b x w w' \<longleftrightarrow>
     (outlives (sv_env sv) x \<and> hooks_inv (db w) \<and> abs_db (db w) b = Some x \<longrightarrow>
        hooks_inv (db w') \<and> abs_db (db w') b = Some x)"

lemma kept_refl [simp]: "kept sv b x w w"
  by (simp add: kept_def)

lemma kept_trans: "kept sv b x w w1 \<Longrightarrow> kept sv b x w1 w2 \<Longrightarrow> kept sv b x w w2"
  by (simp add: kept_def)

lemma kept_elsewhere:
  assumes "webhook_bins (db w') = webhook_bins (db w)" "webhook_hits (db w') = webhook_hits (db w)"
    and "db_ok (db w) \<Longrightarrow> db_ok (db w')"
  shows "kept sv b x w w'"
proof -
  have "hooks_inv (db w) \<Longrightarrow> hooks_inv (db w')"
    using hook_step_inv [OF hook_step.elsewhere, of w' w] assms by blast
  moreover have "abs_db (db w') b = abs_db (db w) b"
    using assms by (simp add: abs_db_def get_bin_def hits_of_def)
  ultimately show ?thesis by (simp add: kept_def)
qed

lemma kept_db: "db w' = db w \<Longrightarrow> kept sv b x w w'"
  by (rule kept_elsewhere) simp_all

lemma kept_call:
  assumes "bin_serve (sv_env sv) (hooks sv) c w = (r, w')"
    and "caller c \<noteq> Some (e_owner x)" "\<And>i. c \<noteq> CallIngest b i"
  shows "kept sv b x w w'"
  unfolding kept_def
proof (intro impI, elim conjE)
  assume o: "outlives (sv_env sv) x" and inv: "hooks_inv (db w)" and at: "abs_db (db w) b = Some x"
  have "\<not> After t (e_expires x)" if t: "t \<in> readings (sv_env sv) w w'" for t
  proof -
    obtain n where "t = go_Now (sv_env sv) n \<or> t = pg_NOW (sv_env sv) n" using t by (auto simp: readings_def)
    moreover have "go_Now (sv_env sv) n \<le> e_expires x" "pg_NOW (sv_env sv) n \<le> e_expires x"
      using o by (simp_all add: outlives_def)
    ultimately show ?thesis by (auto simp: After_def)
  qed
  then show "hooks_inv (db w') \<and> abs_db (db w') b = Some x"
    using svc_isolated [OF bin_serve_svc [OF inv assms(1)] at _ assms(2,3)] bin_serve_inv [OF inv assms(1)] by blast
qed

text \<open>The methods, called by another user, and a capture for another bin.\<close>

lemma kept_ops:
  "Create (sv_env sv) (hooks sv) u n w = (x1, w') \<Longrightarrow> u \<noteq> e_owner x \<Longrightarrow> kept sv b x w w'"
  "List_bins (sv_env sv) (hooks sv) u w = (x2, w') \<Longrightarrow> u \<noteq> e_owner x \<Longrightarrow> kept sv b x w w'"
  "Get_bin (sv_env sv) (hooks sv) u k w = (x3, w') \<Longrightarrow> u \<noteq> e_owner x \<Longrightarrow> kept sv b x w w'"
  "Delete_bin (sv_env sv) (hooks sv) u k w = (x4, w') \<Longrightarrow> u \<noteq> e_owner x \<Longrightarrow> kept sv b x w w'"
  "ClearHits (sv_env sv) (hooks sv) u k w = (x5, w') \<Longrightarrow> u \<noteq> e_owner x \<Longrightarrow> kept sv b x w w'"
  "ListHits (sv_env sv) (hooks sv) u k l a w = (x7, w') \<Longrightarrow> u \<noteq> e_owner x \<Longrightarrow> kept sv b x w w'"
  "GetHit (sv_env sv) (hooks sv) u k h w = (x8, w') \<Longrightarrow> u \<noteq> e_owner x \<Longrightarrow> kept sv b x w w'"
  "Ingest (sv_env sv) (hooks sv) k i w = (x6, w') \<Longrightarrow> k \<noteq> b \<Longrightarrow> kept sv b x w w'"
  "PublicExists (sv_env sv) (hooks sv) k w = (x9, w') \<Longrightarrow> kept sv b x w w'"
proof -
  show "Create (sv_env sv) (hooks sv) u n w = (x1, w') \<Longrightarrow> u \<noteq> e_owner x \<Longrightarrow> kept sv b x w w'"
    using kept_call [of sv "CallCreate u n"] by (simp add: bin_serve_def)
  show "List_bins (sv_env sv) (hooks sv) u w = (x2, w') \<Longrightarrow> u \<noteq> e_owner x \<Longrightarrow> kept sv b x w w'"
    using kept_call [of sv "CallList u"] by (simp add: bin_serve_def)
  show "Get_bin (sv_env sv) (hooks sv) u k w = (x3, w') \<Longrightarrow> u \<noteq> e_owner x \<Longrightarrow> kept sv b x w w'"
    using kept_call [of sv "CallGet u k"] by (simp add: bin_serve_def)
  show "Delete_bin (sv_env sv) (hooks sv) u k w = (x4, w') \<Longrightarrow> u \<noteq> e_owner x \<Longrightarrow> kept sv b x w w'"
    using kept_call [of sv "CallDelete u k"] by (simp add: bin_serve_def)
  show "ClearHits (sv_env sv) (hooks sv) u k w = (x5, w') \<Longrightarrow> u \<noteq> e_owner x \<Longrightarrow> kept sv b x w w'"
    using kept_call [of sv "CallClear u k"] by (simp add: bin_serve_def)
  show "ListHits (sv_env sv) (hooks sv) u k l a w = (x7, w') \<Longrightarrow> u \<noteq> e_owner x \<Longrightarrow> kept sv b x w w'"
    using kept_call [of sv "CallListHits u k l a"] by (simp add: bin_serve_def)
  show "GetHit (sv_env sv) (hooks sv) u k h w = (x8, w') \<Longrightarrow> u \<noteq> e_owner x \<Longrightarrow> kept sv b x w w'"
    using kept_call [of sv "CallGetHit u k h"] by (simp add: bin_serve_def)
  show "Ingest (sv_env sv) (hooks sv) k i w = (x6, w') \<Longrightarrow> k \<noteq> b \<Longrightarrow> kept sv b x w w'"
    using kept_call [of sv "CallIngest k i"] by (simp add: bin_serve_def)
  show "PublicExists (sv_env sv) (hooks sv) k w = (x9, w') \<Longrightarrow> kept sv b x w w'"
    using kept_call [of sv "CallExists k"] by (simp add: bin_serve_def)
qed


section \<open>Requests of others\<close>

text \<open>A request that carries no session of \<open>u\<close>, at any time, and was not found to.\<close>

definition stranger :: "'k server \<Rightarrow> string \<Rightarrow> request \<Rightarrow> bool" where
  "stranger sv u r \<longleftrightarrow>
     (\<forall>(v :: 'k world) su. fst (UserFromRequest (sv_env sv) (lib_jwt sv) (sv_sessions sv) r v) = Inr su \<longrightarrow> ID su \<noteq> u) \<and>
     (\<forall>su. ctx_user r = Some su \<longrightarrow> ID su \<noteq> u)"

lemma stranger_path [simp]: "stranger sv u (r\<lparr>path_vals := vs\<rparr>) = stranger sv u r"
  by (simp add: stranger_def)

lemma session_WithUser [simp]:
  "UserFromRequest e jw sm (WithUser u r) w = UserFromRequest e jw sm r w"
  by (simp add: UserFromRequest_def WithUser_def)

lemma stranger_with:
  fixes sv :: "'k server" and w w' :: "'k world"
  assumes "stranger sv u r" "UserFromRequest (sv_env sv) (lib_jwt sv) (sv_sessions sv) r w = (Inr su, w')"
  shows "stranger sv u (WithUser su r)"
proof -
  have "ID su \<noteq> u" using assms unfolding stranger_def by (metis fst_conv)
  then show ?thesis using assms(1) by (simp add: stranger_def) (simp add: WithUser_def)
qed

text \<open>A handler that leaves the entry alone for requests with \<open>ok\<close>.\<close>

locale isolating =
  fixes sv :: "'k server" and b :: string and x :: entry and ok :: "request \<Rightarrow> bool" and h :: "'k handler"
  assumes keeps: "ok r \<Longrightarrow> kept sv b x (snd s) (snd (snd (h r s)))"
begin

lemma keeps_run: "ok r \<Longrightarrow> h r (wr, w) = (p, wr', w') \<Longrightarrow> kept sv b x w w'"
  using keeps [of r "(wr, w)"] by simp

lemma keeps_after: "ok r \<Longrightarrow> kept sv b x w0 w \<Longrightarrow> h r (wr, w) = (p, wr', w') \<Longrightarrow> kept sv b x w0 w'"
  by (rule kept_trans [OF _ keeps_run])

end

lemma isolatingI:
  "(\<And>r wr w p wr' w'. ok r \<Longrightarrow> h r (wr, w) = (p, wr', w') \<Longrightarrow> kept sv b x w w') \<Longrightarrow> isolating sv b x ok h"
  by unfold_locales (metis prod.collapse)

lemma kept_Allow: "Allow kv key l n w = (y, w') \<Longrightarrow> kept sv b x w w'"
  using Allow_frame(1) [of kv key l n w] by (simp add: kept_db)

lemma kept_user: "UserFromRequest e jw sm r w = (y, w') \<Longrightarrow> kept sv b x w w'"
  using UserFromRequest_frame(1) [of e jw sm r w] by (simp add: kept_db)

lemma kept_banned: "IsBanned e u w = (y, w') \<Longrightarrow> kept sv b x w w'"
  using IsBanned_db [of e u w] by (simp add: kept_db)

lemma kept_log [simp]: "kept sv b x w (log_line m a w') = kept sv b x w w'"
  by (simp add: kept_def)

lemma kept_bump [simp]: "kept sv b x w (bump w') = kept sv b x w w'"
  by (simp add: kept_def)

lemma with_user_isolating:
  assumes "\<And>u. ID u \<noteq> e_owner x \<Longrightarrow> isolating sv b x (stranger sv (e_owner x)) (h u)"
  shows "isolating sv b x (stranger sv (e_owner x)) (with_user h)"
proof (rule isolatingI)
  fix r wr w p wr' w'
  assume s: "stranger sv (e_owner x) r" and e: "with_user h r (wr, w) = (p, wr', w')"
  show "kept sv b x w w'"
  proof (cases "UserFromContext r")
    case (Some u)
    then have "ID u \<noteq> e_owner x" using s by (simp add: stranger_def UserFromContext_def)
    from isolating.keeps_run [OF assms [OF this] s] show ?thesis using e Some by (simp add: with_user_def)
  qed (use e in \<open>simp add: with_user_def\<close>)
qed

lemma rate_limited_isolating:
  assumes "isolating sv b x ok h"
  shows "isolating sv b x ok (rate_limited sv key n window extra h)"
  by (rule isolatingI) (auto simp: rate_limited_def split: prod.splits bool.splits
      dest: kept_Allow isolating.keeps_after [OF assms _ kept_Allow])

lemma active_isolating:
  assumes "isolating sv b x (stranger sv (e_owner x)) h"
  shows "isolating sv b x (stranger sv (e_owner x)) (RequireActiveUser sv h)"
proof (rule isolatingI)
  fix r wr w p wr' w'
  assume s: "stranger sv (e_owner x) r" and e: "RequireActiveUser sv h r (wr, w) = (p, wr', w')"
  obtain u w1 where u: "UserFromRequest (sv_env sv) (lib_jwt sv) (sv_sessions sv) r w = (u, w1)" by fastforce
  have 1: "kept sv b x w w1" by (rule kept_user [OF u])
  show "kept sv b x w w'"
  proof (cases u)
    case (Inr su)
    obtain q w2 where q: "IsBanned (sv_env sv) (ID su) w1 = (q, w2)" by fastforce
    have 2: "kept sv b x w w2" by (rule kept_trans [OF 1 kept_banned [OF q]])
    have "stranger sv (e_owner x) (WithUser su r)" by (rule stranger_with [OF s u [unfolded Inr]])
    from isolating.keeps_after [OF assms this 2] show ?thesis
      using e u q 2 Inr
      by (auto simp: RequireActiveUser_def RequireUser_def with_user_def UserFromContext_def WithUser_def
          split: sum.splits bool.splits)
  qed (use e u 1 in \<open>simp add: RequireActiveUser_def RequireUser_def\<close>)
qed


section \<open>Every handler meets it\<close>

lemma cloud_isolating:
  fixes sv :: "'k server" and b :: string and x :: entry
  defines "safe \<equiv> isolating sv b x (stranger sv (e_owner x))"
  shows "safe (handleCreateBin sv)" "safe (handleListBins sv)" "safe (handleGetBin sv)" "safe (handleDeleteBin sv)"
    "safe (handleClearHits sv)" "safe (handleListHits sv)" "safe (handleGetHit sv)"
    "safe (handleSMTPTest sv)" "safe (handleSMTPCheckAuth sv)"
proof -
  show "safe (handleCreateBin sv)" unfolding safe_def handleCreateBin_def
    by (rule with_user_isolating, rule rate_limited_isolating, rule isolatingI)
      (auto split: prod.splits sum.splits dest: kept_ops(1))
  show "safe (handleListBins sv)" "safe (handleDeleteBin sv)" "safe (handleClearHits sv)" "safe (handleGetHit sv)"
    unfolding safe_def handleListBins_def handleDeleteBin_def handleClearHits_def handleGetHit_def Let_def
    by (rule with_user_isolating, rule isolatingI, auto split: prod.splits sum.splits dest: kept_ops(2,4,5,7))+
  show "safe (handleGetBin sv)" "safe (handleListHits sv)"
    unfolding safe_def handleGetBin_def handleListHits_def Let_def
    by (rule with_user_isolating, rule isolatingI, auto split: prod.splits sum.splits dest!: kept_ops(3,6)
        intro: kept_trans)+
  show "safe (handleSMTPTest sv)" "safe (handleSMTPCheckAuth sv)"
    unfolding safe_def handleSMTPTest_def handleSMTPCheckAuth_def
    by (rule with_user_isolating, rule rate_limited_isolating, rule isolatingI,
        auto simp: Let_def split: prod.splits sum.splits option.splits dest!: RunTest_frame intro: kept_db)+
qed

lemma kept_job: "kept sv b x w (track_job e sha kv v w)"
  using track_evolves [of w e sha kv v] by (intro kept_elsewhere) (simp_all add: evolves_def)

lemma visitor_isolating: "isolating sv b x ok (handleVisitorEvent sv)"
proof (rule isolatingI)
  fix r wr w p wr' w'
  assume e: "handleVisitorEvent sv r (wr, w) = (p, wr', w')"
  obtain okay retry w1 where a: "Allow (sv_kv sv) (visitor_key r) 60 Minute w = ((okay, retry), w1)"
    by (metis prod.collapse)
  obtain u w2 where u: "UserFromRequest (sv_env sv) (lib_jwt sv) (sv_sessions sv) r w1 = (u, w2)" by fastforce
  have 1: "kept sv b x w w1" by (rule kept_Allow [OF a])
  have 2: "kept sv b x w w2" by (rule kept_trans [OF 1 kept_user [OF u]])
  show "kept sv b x w w'"
    using e 1 2
    by (cases okay) (auto simp: handleVisitorEvent_def visitor_event_def Let_def a u
        split: sum.splits option.splits if_splits intro: kept_trans [OF _ kept_job])
qed

lemma callback_isolating:
  fixes sv :: "'k server"
  shows "isolating sv b x ok (Callback e jw ol g sm)"
proof (rule isolatingI)
  fix r wr p wr' and w w' :: "'k world"
  assume c: "Callback e jw ol g sm r (wr, w) = (p, wr', w')"
  have f: "fetchUser ol tok v = (y, v') \<Longrightarrow> kept sv b x v v'" for tok y and v v' :: "'k world"
    using fetchUser_db [of ol tok v] by (simp add: kept_db)
  have u: "UpsertLogin e uid em nm pic ip v = (y, v') \<Longrightarrow> kept sv b x v v'" for uid em nm pic ip y and v v' :: "'k world"
    using UpsertLogin_tables(1,2) [of e uid em nm pic ip v] UpsertLogin_db_ok [of v e uid em nm pic ip]
    by (simp add: kept_elsewhere)
  have s: "callback_session e jw g sm pp r (wr, v) = (p, wr', v') \<Longrightarrow> kept sv b x v v'" for pp and v v' :: "'k world"
    by (auto simp: callback_session_def Let_def split: prod.splits option.splits dest!: Issue_run intro: kept_db)
  have b: "kept sv b x w (bump w)" by simp
  show "kept sv b x w w'"
    using c b
    by (auto simp: Callback_def split: prod.splits sum.splits option.splits if_splits
        dest!: f u s) (auto simp: kept_def)
qed

lemma public_isolating: "rt \<in> set (public_routes sv) \<Longrightarrow> isolating sv b x ok (rt_handler rt)"
proof -
  have "isolating sv b x ok (handleHealthz sv)" "isolating sv b x ok (handleReadyz sv)"
    "isolating sv b x ok (auth_Status g)" "isolating sv b x ok (Logout sm)" "isolating sv b x ok (Me e jw sm)"
    "isolating sv b x ok (Begin e ol g sm)" for g sm jw ol e
    by (auto simp: handleHealthz_def handleReadyz_def auth_Status_def Logout_def Me_def Begin_def randomState_def
        Let_def time_Now_def intro!: isolatingI split: prod.splits sum.splits if_splits
        dest!: rand_Read_db intro: kept_db kept_user)
  then show "rt \<in> set (public_routes sv) \<Longrightarrow> isolating sv b x ok (rt_handler rt)"
    by (auto simp: public_routes_def route_to_def intro: callback_isolating visitor_isolating)
qed

lemma cloud_routes_isolating:
  "rt \<in> set (cloud_routes sv) \<Longrightarrow> isolating sv b x (stranger sv (e_owner x)) (rt_handler rt)"
  by (auto simp: cloud_routes_def cloud_table_def route_to_def intro!: active_isolating intro: cloud_isolating)

lemma hook_isolating: "isolating sv b x (\<lambda>r. PathValue r ''id'' \<noteq> b) (handleHookIngest sv)"
proof (rule isolatingI)
  fix r wr w p wr' w'
  assume k: "PathValue r ''id'' \<noteq> b" and e: "handleHookIngest sv r (wr, w) = (p, wr', w')"
  let ?k = "PathValue r ''id''"
  have "isolating sv b x (\<lambda>_. True) (capture sv ?k)"
    by (rule isolatingI) (auto simp: capture_def split: prod.splits sum.splits if_splits dest: kept_ops(8) [OF _ k])
  then have c: "isolating sv b x (\<lambda>_. True) (rate_limited sv (''hook:'' @ ?k) 120 Minute [] (capture sv ?k))"
    by (rule rate_limited_isolating)
  obtain y w1 where q: "PublicExists (sv_env sv) (hooks sv) ?k w = (y, w1)" by fastforce
  have 1: "kept sv b x w w1" by (rule kept_ops(9) [OF q])
  show "kept sv b x w w'"
    using e 1 isolating.keeps_after [OF c _ 1]
    by (auto simp: handleHookIngest_def Let_def q split: if_splits bool.splits)
qed


section \<open>Runs of requests\<close>

text \<open>A request of somebody else, and no hook of the bin.\<close>

definition foreign_request :: "'k server \<Rightarrow> string \<Rightarrow> string \<Rightarrow> request \<Rightarrow> bool" where
  "foreign_request sv u b r \<longleftrightarrow> stranger sv u r \<and> \<not> (\<exists>ss. segs r = ''hook'' # b # ss)"

interpretation others: isolating sv b x "foreign_request sv (e_owner x) b" "ServeMux (lib_clean sv) (routes sv)"
  for sv :: "'k server" and b x
proof (rule isolatingI)
  fix r wr w p wr' w'
  assume f: "foreign_request sv (e_owner x) b r" and m: "ServeMux (lib_clean sv) (routes sv) r (wr, w) = (p, wr', w')"
  show "kept sv b x w w'"
  proof (cases "lib_clean sv r = None \<and> find (route_matches r) (routes sv) \<noteq> None")
    case True
    then obtain rt where rt: "find (route_matches r) (routes sv) = Some rt" by blast
    then have in_table: "rt \<in> set (routes sv)" "route_matches r rt" using find_Some_mem by metis+
    then obtain vs where vs: "match_path (rt_path rt) (segs r) = Some vs" by (auto simp: route_matches_Some)
    then have run: "rt_handler rt (r\<lparr>path_vals := vs\<rparr>) (wr, w) = (p, wr', w')"
      using m True rt by (simp add: ServeMux_def run_route_def)
    have s: "stranger sv (e_owner x) (r\<lparr>path_vals := vs\<rparr>)" using f by (simp add: foreign_request_def)
    consider "rt \<in> set (public_routes sv)" | "rt \<in> set (cloud_routes sv)" | "rt \<in> set (hook_routes sv)"
      using in_table(1) by (auto simp: routes_def)
    then show ?thesis
    proof cases
      case 1
      show ?thesis by (rule isolating.keeps_run [OF public_isolating [OF 1, where ok = "\<lambda>_. True"] _ run]) simp
    next
      case 2
      show ?thesis by (rule isolating.keeps_run [OF cloud_routes_isolating [OF 2] s run])
    next
      case 3
      have h: "rt_handler rt = handleHookIngest sv" "PathValue (r\<lparr>path_vals := vs\<rparr>) ''id'' \<noteq> b"
        using match_hook [OF 3 vs] f by (auto simp: foreign_request_def PathValue_def)
      show ?thesis by (rule isolating.keeps_run [OF hook_isolating h(2) run [unfolded h(1)]])
    qed
  next
    case False
    then show ?thesis using m by (auto simp: ServeMux_def split: option.splits if_splits)
  qed
qed

lemma serve_kept:
  assumes "foreign_request sv (e_owner x) b r"
  shows "kept sv b x w (snd (serve sv r w))"
proof -
  obtain p wr w1 where i: "inner_handler sv r (front_writer (sv_origins sv) r, bump w) = (p, wr, w1)"
    by (metis prod.collapse)
  have "kept sv b x (bump w) w1"
    using i others.keeps_run [OF assms, of "front_writer (sv_origins sv) r" "bump w"]
    by (auto simp: inner_handler_def split: if_splits)
  then have "kept sv b x w w1" by (rule kept_trans [OF kept_db, rotated]) simp
  then show ?thesis by (rule kept_trans) (simp add: kept_db serve_inner [OF i])
qed

lemma requests_kept:
  "\<forall>r \<in> set rs. foreign_request sv (e_owner x) b r \<Longrightarrow> kept sv b x w (fold (\<lambda>r w. snd (serve sv r w)) rs w)"
  by (induction rs arbitrary: w) (auto intro: kept_trans serve_kept)

text \<open>
  C5. A user's bin is out of the reach of others: as long as it has not expired, no run of
  requests, whoever sends them and whatever fails, changes the bin's row or the set of its
  hits, if none of them carries a session of the owner and none goes to the bin's own hook.
\<close>

theorem bins_are_isolated:
  assumes "hooks_inv (db w)" "get_bin (db w) b = Some bin"
    and "\<forall>n. go_Now (sv_env sv) n \<le> b_expires bin \<and> pg_NOW (sv_env sv) n \<le> b_expires bin"
    and "\<forall>r \<in> set rs. foreign_request sv (b_user bin) b r"
  shows "get_bin (db (fold (\<lambda>r w. snd (serve sv r w)) rs w)) b = Some bin \<and>
    mset (hits_of b (db (fold (\<lambda>r w. snd (serve sv r w)) rs w))) = mset (hits_of b (db w))"
proof -
  let ?w = "fold (\<lambda>r w. snd (serve sv r w)) rs w" and ?x = "entry_of bin (hits_of b (db w))"
  have at: "abs_db (db w) b = Some ?x" by (rule abs_get [OF assms(2)])
  have "outlives (sv_env sv) ?x" using assms(3) by (simp add: outlives_def)
  then have inv: "hooks_inv (db ?w)" and x: "abs_db (db ?w) b = Some ?x"
    using requests_kept [of rs sv ?x b w] assms(1,4) at by (simp_all add: kept_def)
  then obtain bin' where bin': "get_bin (db ?w) b = Some bin'" "entry_of bin' (hits_of b (db ?w)) = ?x"
    by (auto simp: abs_db_def)
  then have "bin' = bin" using shown_entry [OF inv bin'(1)] shown_entry [OF assms(1,2)] by simp
  moreover have "mset (hits_of b (db ?w)) = mset (hits_of b (db w))"
    using arg_cong [OF bin'(2), of e_log] by simp
  ultimately show ?thesis using bin'(1) by simp
qed

lemma their_bin_db_inv: "hooks_inv their_bin_db"
  by (simp add: their_bin_db_def empty_db_def hooks_inv_def db_ok_def quota_ok_def hits_ok_def bins_of_def hits_of_def
      tbl_ok_def hits_fk_def visitors_fk_def MaxBinsPerUser_def MaxHitsPerBin_def) (simp add: demo_bin_def)

theorem bins_are_isolated_witness:
  "get_bin (db (fold (\<lambda>r w. snd (serve demo_server r w)) [delete_request, bins_request] (demo_world their_bin_db)))
     (demo_id 2) = Some (demo_bin\<lparr>b_user := ''u2''\<rparr>)"
proof -
  have t: "get_bin (db (demo_world their_bin_db)) (demo_id 2) = Some (demo_bin\<lparr>b_user := ''u2''\<rparr>)"
    by (simp add: their_bin_db_def get_bin_def tbl_lookup_def)
  have seen: "segs bins_request = [''api'', ''cloud'', ''webhook'', ''bins'']" "ctx_user bins_request = None"
    "segs delete_request = [''api'', ''cloud'', ''webhook'', ''bins'', demo_id 2]" "ctx_user delete_request = None"
    "ID demo_user = ''u1''"
    by (simp_all add: delete_request_def bins_request_def blank_request_def demo_user_def)
  have "foreign_request demo_server ''u2'' (demo_id 2) r" if "r \<in> set [delete_request, bins_request]" for r
    using that by (auto simp: foreign_request_def stranger_def demo_token_user delete_request_user seen)
  then show ?thesis
    using bins_are_isolated [OF _ t, of demo_server "[delete_request, bins_request]"] their_bin_db_inv
    by (simp add: Second_def)
qed

end
