(* ===== verification/Webhook_Race.thy ===== *)
theory Webhook_Race
  imports Webhook_Spec
begin

text \<open>
  Overlapping calls of \<^verbatim>\<open>Create\<close>. The count of a user's bins and the insertion are
  two statements without a transaction or a constraint around them, so calls of the same user
  interleave between them. This theory cuts \<^verbatim>\<open>Create\<close> at that point, bounds what
  overlapping calls can reach and shows that the bound beyond the quota is reached.
\<close>

section \<open>The two halves of Create\<close>

text \<open>From \<^verbatim>\<open>newID\<close> to the end.\<close>

definition create_insert :: "env \<Rightarrow> 'k store \<Rightarrow> string \<Rightarrow> string \<Rightarrow> 'k world \<Rightarrow> (go_error + bin) \<times> 'k world" where
  "create_insert e s userID name w =
     (case newID e w of
        (Inl er, w) \<Rightarrow> (Inl er, w)
      | (Inr bid, w) \<Rightarrow>
     (let (now, w) = time_Now e w;
          b = \<lparr>b_id = bid, b_user = userID, b_name = bin_name bid name, b_created = now,
               b_expires = now + BinTTL, b_hits = 0, b_last = None\<rparr>
      in
      case sql_exec e [b_id b, b_user b, b_name b] (stmt_insert_bin b) w of
        (Inl er, w) \<Rightarrow> (Inl er, w)
      | (Inr _, w) \<Rightarrow> (Inr b, cacheBin s (b_id b) BinTTL w)))"

lemma Create_split:
  "Create e s u name w =
     (case pruneExpired e s w of
        (Some er, w) \<Rightarrow> (Inl er, w)
      | (None, w) \<Rightarrow>
     (case sql_exec e [u] (stmt_count_bins u) w of
        (Inl er, w) \<Rightarrow> (Inl er, w)
      | (Inr c, w) \<Rightarrow> if MaxBinsPerUser \<le> c then (Inl ErrLimitBins, w) else create_insert e s u name w))"
  unfolding Create_def create_insert_def by (rule refl)

text \<open>
  Runs of overlapping calls of one user, at most \<open>K\<close> of them at a time between count and
  insertion: \<open>race_reach e s u K n w\<close> says that \<open>n\<close> calls have passed the count in
  world \<open>w\<close>. Anything else may happen in between that gives the user no bins.
\<close>

inductive race_reach :: "env \<Rightarrow> 'k store \<Rightarrow> string \<Rightarrow> nat \<Rightarrow> nat \<Rightarrow> 'k world \<Rightarrow> bool" for e s u K where
  start: "bins_of u (db w) = [] \<Longrightarrow> race_reach e s u K 0 w"
| passed: "race_reach e s u K n w \<Longrightarrow> n < K \<Longrightarrow> sql_exec e [u] (stmt_count_bins u) w = (Inr c, w')
    \<Longrightarrow> c < MaxBinsPerUser \<Longrightarrow> race_reach e s u K (Suc n) w'"
| inserted: "race_reach e s u K (Suc n) w \<Longrightarrow> race_reach e s u K n (snd (create_insert e s u name w))"
| others: "race_reach e s u K n w \<Longrightarrow> length (bins_of u (db w')) \<le> length (bins_of u (db w))
    \<Longrightarrow> race_reach e s u K n w'"

lemma create_insert_bins:
  "length (bins_of u (db (snd (create_insert e s u name w)))) \<le> Suc (length (bins_of u (db w)))"
proof -
  obtain r w1 where i: "newID e w = (r, w1)" by fastforce
  have w1: "db w1 = db w" using newID_frame(1) [of e w] i by simp
  show ?thesis
  proof (cases r)
    case (Inr bid)
    let ?b = "\<lparr>b_id = bid, b_user = u, b_name = bin_name bid name, b_created = go_Now e (tick w1),
               b_expires = go_Now e (tick w1) + BinTTL, b_hits = 0, b_last = None\<rparr>"
    have "length (bins_of u (db (snd (sql_exec e [bid, u, bin_name bid name] (stmt_insert_bin ?b) (bump w1)))))
        \<le> Suc (length (bins_of u (db w)))"
      by (rule stmt_effect_inv [OF sql_exec_effect])
        (auto simp: w1 bins_of_def dest!: insert_bin_effect(2))
    then show ?thesis
      by (auto simp: create_insert_def i Inr time_Now_def Let_def split: prod.splits sum.splits)
  qed (simp add: create_insert_def i w1)
qed

lemma race_sum:
  "race_reach e s u K n w \<Longrightarrow>
     n \<le> K \<and> (length (bins_of u (db w)) + n \<le> MaxBinsPerUser - 1 + K)"
proof (induction rule: race_reach.induct)
  case (passed n w c w')
  have "c = length (bins_of u (db w))" "db w' = db w"
    using sql_exec_Inr(3) [OF passed.hyps(3)] by (auto simp: stmt_count_bins_def)
  then show ?case using passed by simp
next
  case (inserted n w name)
  then show ?case using create_insert_bins [of u e s name w] by simp
qed simp_all

text \<open>
  C24. With at most \<open>K\<close> calls of a user in flight at any time, the user never has more
  than \<open>MaxBinsPerUser - 1 + K\<close> bins: the quota of 3 is exact for one call at a time and
  is exceeded by no more than the number of calls that overlap.
\<close>

theorem overlapping_creates_bound:
  assumes "race_reach e s u K n w"
  shows "length (bins_of u (db w)) + n \<le> MaxBinsPerUser - 1 + K"
  using race_sum [OF assms] by blast

lemma demo_id_inj: "n < 256 \<Longrightarrow> m < 256 \<Longrightarrow> demo_id n = demo_id m \<Longrightarrow> n = m"
proof -
  assume l: "n < 256" "m < 256" and "demo_id n = demo_id m"
  then have "map (rand_byte (demo_env 0) n) [0..<IDBytes] = map (rand_byte (demo_env 0) m) [0..<IDBytes]"
    by (simp add: demo_id_def hex_encode_inj)
  then have "(word_of_nat n :: 8 word) = word_of_nat m"
    by (simp add: IDBytes_def) (metis add.right_neutral atLeastLessThan_iff less_nat_zero_code neq0_conv zero_less_numeral)
  then have "unat (word_of_nat n :: 8 word) = unat (word_of_nat m :: 8 word)" by simp
  then show "n = m" using l by (simp add: unat_of_nat)
qed

lemma create_insert_demo:
  assumes "tick w < 200" "\<forall>r \<in> set (webhook_bins (db w)). \<exists>n < tick w. b_id r = demo_id n"
  shows "\<exists>w'. snd (create_insert (demo_env 0) None u name w) = w' \<and> tick w' = tick w + 3 \<and>
    (\<forall>r \<in> set (webhook_bins (db w')). \<exists>n < tick w'. b_id r = demo_id n) \<and>
    length (bins_of u (db w')) = Suc (length (bins_of u (db w)))"
proof -
  let ?b = "\<lparr>b_id = demo_id (tick w), b_user = u, b_name = bin_name (demo_id (tick w)) name,
      b_created = int (Suc (tick w)) * Second, b_expires = int (Suc (tick w)) * Second + BinTTL, b_hits = 0, b_last = None\<rparr>"
  let ?d = "(db w)\<lparr>webhook_bins := webhook_bins (db w) @ [bin_row ?b]\<rparr>"
  have i: "newID (demo_env 0) w = (Inr (demo_id (tick w)), bump w)"
    by (simp add: newID_def rand_Read_def demo_id_def)
  have fresh: "demo_id (tick w) \<notin> b_id ` set (webhook_bins (db w))"
  proof
    assume "demo_id (tick w) \<in> b_id ` set (webhook_bins (db w))"
    then obtain n where "n < tick w" "demo_id n = demo_id (tick w)" using assms(2) by (metis imageE)
    then show False using demo_id_inj [of n "tick w"] assms(1) by simp
  qed
  have "sql_exec (demo_env 0) [b_id ?b, b_user ?b, b_name ?b] (stmt_insert_bin ?b) (bump (bump w)) =
      (Inr (), bump ((bump (bump w))\<lparr>db := ?d\<rparr>))"
    by (rule sql_exec_ok) (use fresh in \<open>simp_all add: stmt_insert_bin_def tbl_insert_def\<close>)
  then have "snd (create_insert (demo_env 0) None u name w) = bump ((bump (bump w))\<lparr>db := ?d\<rparr>)"
    by (simp add: create_insert_def i time_Now_def Let_def cacheBin_def)
  then show ?thesis
    using assms(2) by (auto simp: bins_of_def) (metis less_SucI lessI)+
qed

lemma four_overlapping_creates:
  "\<exists>w :: kv_map world. race_reach (demo_env 0) None ''u'' 4 0 w \<and> length (bins_of ''u'' (db w)) = 4"
proof -
  let ?R = "race_reach (demo_env 0) None ''u'' 4 :: nat \<Rightarrow> kv_map world \<Rightarrow> bool"
  let ?ok = "\<lambda>w :: kv_map world. \<forall>r \<in> set (webhook_bins (db w)). \<exists>n < tick w. b_id r = demo_id n"
  have cnt: "sql_exec (demo_env 0) [''u''] (stmt_count_bins ''u'') w = (Inr (length (bins_of ''u'' (db w))), bump w)"
    for w :: "kv_map world" by (simp add: sql_exec_def sql_run_def stmt_count_bins_def bump_def)
  have count: "?R (Suc n) (bump w)" if "?R n w" "n < 4" "bins_of ''u'' (db w) = []" for n w
    using race_reach.passed [OF that(1,2) cnt] that(3) by (simp add: MaxBinsPerUser_def)
  let ?w = "demo_world empty_db"
  have e: "bins_of ''u'' (db ?w) = []" by (simp add: bins_of_def empty_db_def)
  have "?R 4 (bump (bump (bump (bump ?w))))"
    using count [OF count [OF count [OF count [OF race_reach.start [OF e]]]]] e
    by (simp add: eval_nat_numeral)
  moreover have "\<exists>w'. ?R n w' \<and> ?ok w' \<and> tick w' < 30 - 3 * n \<and> length (bins_of ''u'' (db w')) = Suc m"
    if "?R (Suc n) w" "?ok w" "tick w < 30 - 3 * Suc n" "n < 4" "length (bins_of ''u'' (db w)) = m" for n w m
  proof -
    have "tick w < 200" using that(3) by simp
    from create_insert_demo [OF this that(2), of "''u''" "[]"] that(5)
    obtain w' where "snd (create_insert (demo_env 0) None ''u'' [] w) = w'" "tick w' = tick w + 3" "?ok w'"
        "length (bins_of ''u'' (db w')) = Suc m" by blast
    then show ?thesis using race_reach.inserted [OF that(1), of "[]"] that(3,4) by (intro exI [of _ w']) auto
  qed
  note step = this
  ultimately obtain w1 where 1: "?R 3 w1" "?ok w1" "tick w1 < 30 - 9" "length (bins_of ''u'' (db w1)) = 1"
    using step [of 3 "bump (bump (bump (bump ?w)))" 0] e by (auto simp: empty_db_def)
  then obtain w2 where 2: "?R 2 w2" "?ok w2" "tick w2 < 30 - 6" "length (bins_of ''u'' (db w2)) = 2"
    using step [of 2 w1 1] by (auto simp: numeral_2_eq_2 numeral_3_eq_3)
  then obtain w3 where 3: "?R 1 w3" "?ok w3" "tick w3 < 30 - 3" "length (bins_of ''u'' (db w3)) = 3"
    using step [of 1 w2 2] by (auto simp: numeral_2_eq_2 numeral_3_eq_3)
  then obtain w4 where "?R 0 w4" "length (bins_of ''u'' (db w4)) = 4"
    using step [of 0 w3 3] by auto
  then show ?thesis by blast
qed

text \<open>
  The quota can be passed: on a healthy database, four calls of one user that all
  count before any of them inserts leave the user with four bins.
\<close>

theorem overlapping_creates_pass_quota:
  "\<exists>w :: kv_map world. race_reach (demo_env 0) None ''u'' 4 0 w \<and> length (bins_of ''u'' (db w)) = 4 \<and> MaxBinsPerUser < 4"
  using four_overlapping_creates by (simp add: MaxBinsPerUser_def)

text \<open>Four overlapping calls reach the bound of four calls within two.\<close>

theorem overlapping_creates_bound_witness:
  "\<exists>w :: kv_map world. length (bins_of ''u'' (db w)) = 4 \<and> length (bins_of ''u'' (db w)) + 0 \<le> MaxBinsPerUser - 1 + 4"
proof -
  obtain w :: "kv_map world" where "race_reach (demo_env 0) None ''u'' 4 0 w" "length (bins_of ''u'' (db w)) = 4"
    using four_overlapping_creates by blast
  with overlapping_creates_bound [OF this(1)] show ?thesis by blast
qed

end
