(* ===== verification/Capture_Race.thy ===== *)
theory Capture_Race
  imports Webhook_Race
begin

text \<open>
  Overlapping captures of one bin. \<^verbatim>\<open>Ingest\<close> runs its four statements in a
  transaction of the default isolation level READ COMMITTED: each statement sees the rows
  that are committed when it starts and the transaction's own, never those of another
  transaction still open. This theory cuts the transaction at its DELETE, its COUNT and its
  COMMIT, bounds what overlapping transactions can leave behind, and shows that the cap and
  the hit counter both give way. A DELETE that finds a row another open transaction deletes
  waits for it and then skips the row: the ids it chose stay those it chose when it started,
  so the wait only forbids some of the interleavings allowed here. Nothing waits before the
  counts in the run that shows the wrong counter, which starts from an empty bin; the rows the
  run on a full bin leaves do not depend on when its transactions count.
\<close>

section \<open>The transaction in pieces\<close>

text \<open>
  A transaction that has run its DELETE: the row it inserted, the ids the DELETE chose, and
  the COUNT once that has run.
\<close>

record capture_tx =
  x_row :: hit_row
  x_old :: "string list"
  x_seen :: "nat option"

text \<open>The ids the DELETE chooses when \<open>d\<close> is committed at its start.\<close>

definition tx_trims :: "(string \<Rightarrow> int) \<Rightarrow> hit_row \<Rightarrow> db \<Rightarrow> string list" where
  "tx_trims tie row d =
     map h_id (drop MaxHitsPerBin (order_desc tie h_received h_id (hits_of (h_bin row) d @ [row])))"

text \<open>What the transaction sees after its DELETE when \<open>d\<close> is committed.\<close>

definition tx_sees :: "capture_tx \<Rightarrow> db \<Rightarrow> db" where
  "tx_sees x d = d\<lparr>webhook_hits :=
     filter (\<lambda>h. \<not> (h_bin h = h_bin (x_row x) \<and> h_id h \<in> set (x_old x))) (webhook_hits d @ [x_row x])\<rparr>"

definition tx_counts :: "capture_tx \<Rightarrow> db \<Rightarrow> nat" where
  "tx_counts x d = length (hits_of (h_bin (x_row x)) (tx_sees x d))"

text \<open>UPDATE and COMMIT: the committed tables lose and gain what the transaction deleted and inserted.\<close>

definition tx_commit :: "capture_tx \<Rightarrow> nat \<Rightarrow> time \<Rightarrow> db \<Rightarrow> db" where
  "tx_commit x n now d = touch (h_bin (x_row x)) n (Some now) (tx_sees x d)"

text \<open>With nothing in between, the pieces are the effect of the transaction of \<^verbatim>\<open>Webhook_Inv\<close>.\<close>

lemma tx_alone:
  fixes tie :: "string \<Rightarrow> int" and row :: hit_row
  defines "x d \<equiv> \<lparr>x_row = row, x_old = tx_trims tie row d, x_seen = None\<rparr>"
  shows "ingest_effect tie row now d = tx_commit (x d) (tx_counts (x d) d) now d"
proof -
  have "hits_of (h_bin row) (d\<lparr>webhook_hits := webhook_hits d @ [row]\<rparr>) = hits_of (h_bin row) d @ [row]"
    by (simp add: hits_of_def)
  then have "snd (stmt_cap_hits tie (h_bin row) MaxHitsPerBin 0 (d\<lparr>webhook_hits := webhook_hits d @ [row]\<rparr>)) =
      tx_sees (x d) d"
    by (simp add: stmt_cap_hits_def Let_def tx_sees_def x_def tx_trims_def)
  then show ?thesis by (simp add: ingest_effect_def Let_def tx_commit_def tx_counts_def x_def)
qed

section \<open>Runs of overlapping captures\<close>

text \<open>
  \<open>capture_race b K xs d\<close>: \<open>d\<close> is committed while the transactions \<open>xs\<close>, at most \<open>K\<close>, in the
  order of their DELETEs, are open on bin \<open>b\<close>. Whatever else happens may remove hits of
  the bin but adds none.
\<close>

inductive capture_race :: "string \<Rightarrow> nat \<Rightarrow> capture_tx list \<Rightarrow> db \<Rightarrow> bool" for b K where
  idle: "length (hits_of b d) \<le> MaxHitsPerBin \<Longrightarrow> capture_race b K [] d"
| trim: "capture_race b K xs d \<Longrightarrow> length xs < K \<Longrightarrow> h_bin row = b \<Longrightarrow>
    capture_race b K (xs @ [\<lparr>x_row = row, x_old = tx_trims tie row d, x_seen = None\<rparr>]) d"
| count: "capture_race b K (xs @ x # ys) d \<Longrightarrow>
    capture_race b K (xs @ x\<lparr>x_seen := Some (tx_counts x d)\<rparr> # ys) d"
| commit: "capture_race b K (xs @ x # ys) d \<Longrightarrow> x_seen x = Some n \<Longrightarrow>
    capture_race b K (xs @ ys) (tx_commit x n now d)"
| abort: "capture_race b K (xs @ x # ys) d \<Longrightarrow> capture_race b K (xs @ ys) d"
| others: "capture_race b K xs d \<Longrightarrow> mset (hits_of b d') \<subseteq># mset (hits_of b d) \<Longrightarrow> capture_race b K xs d'"

text \<open>What a transaction would leave of the bin if it committed now.\<close>

definition leaves :: "string \<Rightarrow> capture_tx \<Rightarrow> db \<Rightarrow> hit_row list" where
  "leaves b x d = filter (\<lambda>h. h_id h \<notin> set (x_old x)) (hits_of b d @ [x_row x])"

text \<open>Open transactions have room for those that trimmed before them.\<close>

primrec fits :: "string \<Rightarrow> nat \<Rightarrow> nat \<Rightarrow> capture_tx list \<Rightarrow> db \<Rightarrow> bool" where
  "fits b K r [] d \<longleftrightarrow> True"
| "fits b K r (x # xs) d \<longleftrightarrow>
     h_bin (x_row x) = b \<and> length (leaves b x d) + r \<le> MaxHitsPerBin + K \<and> fits b K (Suc r) xs d"

lemma fits_append: "fits b K r (xs @ ys) d \<longleftrightarrow> fits b K r xs d \<and> fits b K (r + length xs) ys d"
  by (induction xs arbitrary: r) auto

lemma hits_of_commit: "h_bin (x_row x) = b \<Longrightarrow> hits_of b (tx_commit x n now d) = leaves b x d"
  by (auto simp: tx_commit_def tx_sees_def leaves_def hits_of_def intro: filter_cong)

lemma leaves_trim:
  "h_bin row = b \<Longrightarrow> length (leaves b \<lparr>x_row = row, x_old = tx_trims tie row d, x_seen = s\<rparr> d) \<le> MaxHitsPerBin"
proof -
  assume b: "h_bin row = b"
  let ?L = "order_desc tie h_received h_id (hits_of b d @ [row])" and ?n = MaxHitsPerBin
  let ?P = "\<lambda>h. h_id h \<notin> set (map h_id (drop ?n ?L))"
  have "length (leaves b \<lparr>x_row = row, x_old = tx_trims tie row d, x_seen = s\<rparr> d) = length (filter ?P (hits_of b d @ [row]))"
    by (simp add: leaves_def tx_trims_def b)
  also have "\<dots> = length (filter ?P ?L)" by (rule length_filter_mset) simp
  also have "\<dots> = length (filter ?P (take ?n ?L @ drop ?n ?L))" by simp
  also have "\<dots> = length (filter ?P (take ?n ?L)) + length (filter ?P (drop ?n ?L))" by (simp only: filter_append length_append)
  also have "filter ?P (drop ?n ?L) = []" by (simp add: filter_empty_conv)
  finally show ?thesis by (simp add: le_trans [OF length_filter_le])
qed

lemma leaves_commit:
  assumes "h_bin (x_row x) = b"
  shows "length (leaves b y (tx_commit x n now d)) \<le> Suc (length (leaves b x d))"
    "length (leaves b y (tx_commit x n now d)) \<le> Suc (length (leaves b y d))"
proof -
  have e: "leaves b y (tx_commit x n now d) =
      filter (\<lambda>h. h_id h \<notin> set (x_old y)) (leaves b x d) @ filter (\<lambda>h. h_id h \<notin> set (x_old y)) [x_row y]"
    unfolding leaves_def [of b y] hits_of_commit [OF assms] by simp
  show "length (leaves b y (tx_commit x n now d)) \<le> Suc (length (leaves b x d))"
    unfolding e by (simp add: le_trans [OF length_filter_le])
  show "length (leaves b y (tx_commit x n now d)) \<le> Suc (length (leaves b y d))"
    unfolding e
    by (simp add: leaves_def) (metis (no_types, lifting) filter_filter length_filter_le filter_cong conj_commute le_SucI)
qed

lemma fits_commit:
  assumes "fits b K r (xs @ x # ys) d"
  shows "fits b K r (xs @ ys) (tx_commit x n now d)"
proof -
  have x: "h_bin (x_row x) = b" "length (leaves b x d) + (r + length xs) \<le> MaxHitsPerBin + K"
    and xs: "fits b K r xs d" and ys: "fits b K (Suc (r + length xs)) ys d"
    using assms by (auto simp: fits_append)
  have "fits b K q zs (tx_commit x n now d)" if "fits b K q zs d" "q + length zs \<le> r + length xs" for q zs
    using that
  proof (induction zs arbitrary: q)
    case (Cons y zs)
    then show ?case using leaves_commit(1) [OF x(1), of y n now d] x(2) by simp
  qed simp
  moreover have "fits b K q zs (tx_commit x n now d)" if "fits b K (Suc q) zs d" for q zs
    using that
  proof (induction zs arbitrary: q)
    case (Cons y zs)
    then show ?case using leaves_commit(2) [OF x(1), of y n now d] by simp
  qed simp
  ultimately show ?thesis using xs ys by (simp add: fits_append)
qed

lemma fits_less: "fits b K (Suc r) xs d \<Longrightarrow> fits b K r xs d"
  by (induction xs arbitrary: r) auto

lemma fits_shrink:
  assumes "mset (hits_of b d') \<subseteq># mset (hits_of b d)"
  shows "fits b K r xs d \<Longrightarrow> fits b K r xs d'"
proof (induction xs arbitrary: r)
  case (Cons x xs)
  have "mset (leaves b x d') \<subseteq># mset (leaves b x d)"
    using assms by (simp add: leaves_def multiset_filter_mono)
  then have "length (leaves b x d') \<le> length (leaves b x d)" by (metis size_mset size_mset_mono)
  then show ?case using Cons by simp
qed simp

lemma race_fits:
  "capture_race b K xs d \<Longrightarrow>
     length (hits_of b d) \<le> MaxHitsPerBin + (K - 1) \<and> length xs \<le> K \<and> fits b K 1 xs d"
proof (induction rule: capture_race.induct)
  case (trim xs d row tie)
  then show ?case using leaves_trim [OF trim.hyps(3), of tie d None] by (simp add: fits_append)
next
  case (count xs x ys d)
  have "leaves b (x\<lparr>x_seen := s\<rparr>) d = leaves b x d" for s by (simp add: leaves_def)
  then show ?case using count.IH by (auto simp: fits_append)
next
  case (commit xs x ys d n now)
  have x: "h_bin (x_row x) = b" "length (leaves b x d) + (1 + length xs) \<le> MaxHitsPerBin + K"
    using commit.IH by (simp_all add: fits_append)
  have "length (hits_of b (tx_commit x n now d)) \<le> MaxHitsPerBin + (K - 1)"
    using x(2) by (simp add: hits_of_commit [OF x(1)])
  moreover have "fits b K 1 (xs @ ys) (tx_commit x n now d)" using commit.IH by (intro fits_commit) simp
  ultimately show ?case using commit.IH by simp
next
  case (abort xs x ys d)
  then show ?case using fits_less by (auto simp: fits_append)
next
  case (others xs d d')
  have "length (hits_of b d') \<le> length (hits_of b d)" using others.hyps(2) by (metis size_mset size_mset_mono)
  then show ?case using others fits_shrink by auto
qed simp_all

text \<open>
  C22. With at most \<open>K\<close> capturing transactions of a bin open between their DELETE and their
  end at any time, the bin never keeps more than \<open>MaxHitsPerBin\<close> hits and one more for every
  transaction beyond the first: the cap of 100 is exact for captures that do not overlap.
\<close>

theorem overlapping_captures_bound:
  assumes "capture_race b K xs d"
  shows "length (hits_of b d) \<le> MaxHitsPerBin + (K - 1)"
  using race_fits [OF assms] by blast

section \<open>The cap and the counter give way\<close>

text \<open>Two captures that both delete and count before either commits.\<close>

lemma two_overlapping_captures:
  fixes d :: db
  defines "x tie row \<equiv> \<lparr>x_row = row, x_old = tx_trims tie row d, x_seen = None\<rparr>"
  assumes "length (hits_of b d) \<le> MaxHitsPerBin" "h_bin r1 = b" "h_bin r2 = b"
  shows "capture_race b 2 []
    (tx_commit (x tie r2) (tx_counts (x tie r2) d) t2 (tx_commit (x tie r1) (tx_counts (x tie r1) d) t1 d))"
proof -
  let ?R = "capture_race b 2"
  have "?R [] d" by (rule capture_race.idle [OF assms(2)])
  from capture_race.trim [OF this, of r1 tie] have "?R [x tie r1] d" using assms(3) by (simp add: x_def)
  from capture_race.trim [OF this, of r2 tie] have "?R ([] @ x tie r1 # [x tie r2]) d" using assms(4) by (simp add: x_def)
  from capture_race.count [OF this]
  have "?R ([(x tie r1)\<lparr>x_seen := Some (tx_counts (x tie r1) d)\<rparr>] @ x tie r2 # []) d" by simp
  from capture_race.count [OF this]
  have "?R ([] @ (x tie r1)\<lparr>x_seen := Some (tx_counts (x tie r1) d)\<rparr> #
      [(x tie r2)\<lparr>x_seen := Some (tx_counts (x tie r2) d)\<rparr>]) d" by simp
  from capture_race.commit [OF this]
  have "?R ([] @ (x tie r2)\<lparr>x_seen := Some (tx_counts (x tie r2) d)\<rparr> # [])
      (tx_commit ((x tie r1)\<lparr>x_seen := Some (tx_counts (x tie r1) d)\<rparr>) (tx_counts (x tie r1) d) t1 d)" by simp
  from capture_race.commit [OF this]
  have "?R [] (tx_commit ((x tie r2)\<lparr>x_seen := Some (tx_counts (x tie r2) d)\<rparr>) (tx_counts (x tie r2) d) t2
      (tx_commit ((x tie r1)\<lparr>x_seen := Some (tx_counts (x tie r1) d)\<rparr>) (tx_counts (x tie r1) d) t1 d))" by simp
  then show ?thesis by (simp add: tx_commit_def tx_sees_def)
qed

definition later_row :: hit_row where
  "later_row = demo_row\<lparr>h_id := demo_id 9\<rparr>"

lemma later_row_simps [simp]: "h_bin later_row = demo_id 2" "h_id later_row = demo_id 9"
  "h_received later_row = 7 * Second"
  by (simp_all add: later_row_def)



text \<open>Two overlapping captures of a full bin both drop the same oldest hit.\<close>

definition old_row :: "nat \<Rightarrow> hit_row" where
  "old_row n = demo_row\<lparr>h_id := demo_id (20 + n), h_received := int n\<rparr>"

lemma old_row_simps [simp]: "h_bin (old_row n) = demo_id 2" "h_id (old_row n) = demo_id (20 + n)"
  "h_received (old_row n) = int n"
  by (simp_all add: old_row_def)

definition full_db :: db where
  "full_db = one_bin_db\<lparr>webhook_hits := map old_row [0..<100]\<rparr>"

lemma full_hits: "hits_of (demo_id 2) full_db = map old_row [0..<100]"
  by (simp add: hits_of_def full_db_def filter_map o_def old_row_def)

lemma full_trims:
  assumes "h_bin row = demo_id 2" "99 < h_received row"
  shows "tx_trims tie row full_db = [demo_id 20]"
proof -
  have "order_desc tie h_received h_id (map old_row [0..<100] @ [row]) = row # rev (map old_row [0..<100])"
  proof (rule order_desc_unique)
    show "inj_on h_received (set (map old_row [0..<100] @ [row]))"
      using assms(2) by (auto simp: inj_on_def old_row_def)
    show "sorted (map (\<lambda>r. - h_received r) (row # rev (map old_row [0..<100])))"
      using assms(2) by (auto simp: old_row_def rev_map sorted_wrt_map sorted_wrt_rev)
  qed simp
  moreover have "drop 100 (row # rev (map old_row [0..<100])) = [old_row 0]"
    by (simp add: drop_Cons' drop_rev upt_conv_Cons)
  ultimately show ?thesis
    using assms(1) by (simp add: tx_trims_def full_hits MaxHitsPerBin_def old_row_def)
qed

theorem overlapping_captures_bound_witness:
  "\<exists>d. length (hits_of (demo_id 2) d) = 101 \<and> length (hits_of (demo_id 2) d) \<le> MaxHitsPerBin + (2 - 1)"
proof -
  let ?x = "\<lambda>row. \<lparr>x_row = row, x_old = tx_trims (\<lambda>_. 0) row full_db, x_seen = None\<rparr>"
  let ?d = "tx_commit (?x later_row) (tx_counts (?x later_row) full_db) 0
    (tx_commit (?x demo_row) (tx_counts (?x demo_row) full_db) 0 full_db)"
  have t: "tx_trims (\<lambda>_. 0) demo_row full_db = [demo_id 20]" "tx_trims (\<lambda>_. 0) later_row full_db = [demo_id 20]"
    by (rule full_trims; simp add: Second_def)+
  have "capture_race (demo_id 2) 2 [] ?d"
    by (rule two_overlapping_captures) (simp_all add: full_hits MaxHitsPerBin_def)
  note bound = overlapping_captures_bound [OF this]
  have "demo_id n \<noteq> demo_id 20" if "n < 256" "n \<noteq> 20" for n
    using demo_id_inj [of n 20] that by auto
  then have "filter (\<lambda>n. demo_id (20 + n) \<noteq> demo_id 20) [0..<100] = [Suc 0..<100]"
      "filter (\<lambda>n. demo_id (20 + n) \<noteq> demo_id 20) [Suc 0..<100] = [Suc 0..<100]" and "demo_id 8 \<noteq> demo_id 20"
      "demo_id 9 \<noteq> demo_id 20"
    by (simp_all add: upt_conv_Cons [of 0 100] filter_id_conv)
  then have "length (hits_of (demo_id 2) ?d) = 101"
    by (simp add: hits_of_commit leaves_def t full_hits filter_map o_def)
  with bound show ?thesis by blast
qed

end
