(* ===== verification/Capture_Spec.thy ===== *)
theory Capture_Spec
  imports Server_Spec
begin

text \<open>
  What a request to the hook address leaves in the tables, through the whole server: which
  requests are stored and with which fields, and that a posted request is stored.
\<close>

section \<open>What a captured request stores\<close>

lemma ids_accepted: "looksLikeBinID b \<longleftrightarrow> is_bin_id b"
  by (simp add: looksLikeBinID_def is_bin_id_def is_hex_lower_def [abs_def] mult.commute)

lemma ingest_effect_hits: "set (webhook_hits (ingest_effect tie row now d)) \<subseteq> insert row (set (webhook_hits d))"
  using cap_hits_frame(4) [of tie "h_bin row" MaxHitsPerBin 0 "d\<lparr>webhook_hits := webhook_hits d @ [row]\<rparr>"]
  by (auto simp: ingest_effect_def Let_def)

lemma Ingest_new_hit:
  assumes "h \<in> set (webhook_hits (db (snd (Ingest e s b i w))))" "h \<notin> set (webhook_hits (db w))"
  obtains hid now where "hit_row_of e (make_hit e hid b now i) = Some h"
proof -
  obtain d where d: "pruned (db w) d" and c: "db (snd (Ingest e s b i w)) = d \<or>
     (\<exists>hid now row tie. hit_row_of e (make_hit e hid b now i) = Some row \<and>
        hid \<notin> h_id ` set (webhook_hits d) \<and> get_bin d b \<noteq> None \<and>
        db (snd (Ingest e s b i w)) = ingest_effect tie row now d)"
    using Ingest_db by blast
  have "h \<notin> set (webhook_hits d)" using hits_pruned [OF d] assms(2) by blast
  then obtain hid now row tie where r: "hit_row_of e (make_hit e hid b now i) = Some row"
      "db (snd (Ingest e s b i w)) = ingest_effect tie row now d"
    using c assms(1) by auto
  then have "h = row" using assms(1) \<open>h \<notin> set (webhook_hits d)\<close> ingest_effect_hits [of tie row now d] by auto
  then show ?thesis using that r(1) by blast
qed

lemma read_limited_all: "read_limited n r = Inr bytes \<Longrightarrow> length bytes < n \<Longrightarrow> bytes = body r"
  by (auto simp: read_limited_def split: if_splits option.splits)

lemma Allow_db: "Allow kv key limit window w = (x, w') \<Longrightarrow> db w' = db w"
  by (metis Allow_frame(1) snd_conv)

definition stored_as :: "env \<Rightarrow> request \<Rightarrow> string \<Rightarrow> hit_row \<Rightarrow> bool" where
  "stored_as e r b h \<longleftrightarrow>
     r_method r \<noteq> ''HEAD'' \<and> length (body r) \<le> MaxBodyBytes \<and>
     (\<exists>hid now. hit_row_of e (make_hit e hid b now (capture_of r b (body r))) = Some h)"

lemma capture_new_hit:
  assumes "capture sv b r (wr, w) = (p, wr', w')" "h \<in> set (webhook_hits (db w'))" "h \<notin> set (webhook_hits (db w))"
  shows "stored_as (sv_env sv) r b h"
proof -
  have hd: "r_method r \<noteq> ''HEAD''" using assms by (auto simp: capture_def)
  obtain bytes where rd: "read_limited (MaxBodyBytes + 1) r = Inr bytes"
    using assms hd by (auto simp: capture_def split: sum.splits)
  have len: "length bytes \<le> MaxBodyBytes"
    using assms hd rd by (auto simp: capture_def split: if_splits)
  then have bytes: "bytes = body r" using read_limited_all [OF rd] by simp
  have "db w' = db (snd (Ingest (sv_env sv) (hooks sv) b (capture_of r b bytes) w))"
    using assms(1) hd rd len by (auto simp: capture_def split: prod.splits sum.splits)
  then obtain hid now where "hit_row_of (sv_env sv) (make_hit (sv_env sv) hid b now (capture_of r b bytes)) = Some h"
    using assms(2,3) Ingest_new_hit by metis
  then show ?thesis using hd len unfolding stored_as_def bytes by blast
qed

lemma hook_new_hit:
  assumes "handleHookIngest sv r (wr, w) = (p, wr', w')" "h \<in> set (webhook_hits (db w'))" "h \<notin> set (webhook_hits (db w))"
  shows "is_bin_id (PathValue r ''id'') \<and> stored_as (sv_env sv) r (PathValue r ''id'') h"
proof -
  let ?b = "PathValue r ''id''"
  have id: "looksLikeBinID ?b" using assms by (auto simp: handleHookIngest_def Let_def split: if_splits)
  obtain x w1 where x: "PublicExists (sv_env sv) (hooks sv) ?b w = (x, w1)" by fastforce
  have ne: "?b \<noteq> []" using id by (auto simp: looksLikeBinID_def IDBytes_def)
  have 1: "h \<notin> set (webhook_hits (db w1))"
    using hits_pruned [OF PublicExists_db, of "sv_env sv" "hooks sv" ?b w] x assms(3) by auto
  have xt: "x" using assms 1 id ne x by (auto simp: handleHookIngest_def Let_def split: bool.splits)
  obtain ok retry w2 where a: "Allow (sv_kv sv) (''hook:'' @ ?b) 120 Minute w1 = ((ok, retry), w2)"
    by (metis prod.collapse)
  have 2: "db w2 = db w1" by (rule Allow_db [OF a])
  have run: "rate_limited sv (''hook:'' @ ?b) 120 Minute [] (capture sv ?b) r (wr, w1) = (p, wr', w')"
    using assms(1) id ne x xt by (simp add: handleHookIngest_def Let_def)
  show ?thesis
  proof (cases ok)
    case True
    then have "capture sv ?b r (wr, w2) = (p, wr', w')"
      using run unfolding rate_limited_def prod.case a by simp
    from capture_new_hit [OF this assms(2)] show ?thesis using 1 2 id ids_accepted by simp
  next
    case False
    then have "w' = w2" using run unfolding rate_limited_def prod.case a by simp
    then show ?thesis using assms(2) 1 2 by simp
  qed
qed

lemma stored_as_fields:
  assumes "stored_as e r b h"
  shows "h_bin h = b" "h_body h = body r" "\<not> h_trunc h" "h_bytes h = int (length (body r))"
    "h_query h = raw_query r" "h_ip h = clientIP r" "h_method h = ToUpper (uni_upper e) (TrimSpace (r_method r))"
    "h_path h = in_path (capture_of r b (body r))" "r_method r \<noteq> ''HEAD''" "length (body r) \<le> MaxBodyBytes"
    "pg_jsonb e (json_Marshal e (redactHeaders e (header_map (r_header r)))) = Some (h_headers h)"
  using assms hit_row_simps
  by (fastforce simp: stored_as_def make_hit_def capture_of_def Let_def)+

lemma serve_new_hit:
  assumes "h \<in> set (webhook_hits (db (snd (serve sv r w))))" "h \<notin> set (webhook_hits (db w))"
  obtains b ss vs where "segs r = ''hook'' # b # ss" "r_method r \<noteq> ''OPTIONS''" "is_bin_id b"
    "map_of vs ''path'' = (if ss = [] then None else Some (Join ss ''/''))"
    "stored_as (sv_env sv) (r\<lparr>path_vals := vs\<rparr>) b h"
proof -
  obtain p wr w1 where i: "inner_handler sv r (front_writer (sv_origins sv) r, bump w) = (p, wr, w1)"
    by (metis prod.collapse)
  have h1: "h \<in> set (webhook_hits (db w1))" using assms(1) serve_inner(2) [OF i] by simp
  have opt: "r_method r \<noteq> ''OPTIONS''" using h1 assms(2) i by (auto simp: inner_handler_def)
  then have m: "ServeMux (lib_clean sv) (routes sv) r (front_writer (sv_origins sv) r, bump w) = (p, wr, w1)"
    using i by (simp add: inner_handler_def)
  show ?thesis
  proof (rule mux_result [OF m front_writer_sent(1)])
    fix rt vs
    assume a: "rt \<in> set (routes sv)" "match_path (rt_path rt) (segs r) = Some vs"
      "rt_handler rt (r\<lparr>path_vals := vs\<rparr>) (front_writer (sv_origins sv) r, bump w) = (p, wr, w1)"
    have "rt \<in> set (hook_routes sv)"
    proof (rule ccontr)
      assume "rt \<notin> set (hook_routes sv)"
      then have "handler_contract False sv (rt_handler rt)"
        using a(1) public_contract cloud_contract unfolding routes_def by (metis UnE set_append)
      from store_steps_hits [OF handler_contract.run(3) [OF this a(3)]] h1 assms(2) show False by auto
    qed
    from match_hook [OF this a(2)] obtain b ss where rt: "rt_handler rt = handleHookIngest sv"
        "segs r = ''hook'' # b # ss" "map_of vs ''id'' = Some b"
        "map_of vs ''path'' = (if ss = [] then None else Some (Join ss ''/''))" by blast
    have "PathValue (r\<lparr>path_vals := vs\<rparr>) ''id'' = b" using rt(3) by (simp add: PathValue_def)
    with hook_new_hit [of sv "r\<lparr>path_vals := vs\<rparr>" _ "bump w" p wr w1 h] a(3) rt(1) h1 assms(2)
    show ?thesis using that [OF rt(2) opt _ rt(4)] by auto
  qed (use h1 assms(2) in auto)
qed

text \<open>
  C1. Only captured requests are stored, and as they came: a hit a request adds to the tables
  comes from a request to \<^verbatim>\<open>/hook/\<close> and a well-formed id that is neither HEAD nor
  OPTIONS and whose body is at most \<open>MaxBodyBytes\<close>; it has the request's method, path,
  query, client address and its whole body, never a truncated one, and redacted headers.
\<close>

theorem captures_are_faithful:
  assumes "h \<in> set (webhook_hits (db (snd (serve sv r w))))" and "h \<notin> set (webhook_hits (db w))"
  shows "\<exists>b ss. segs r = ''hook'' # b # ss \<and> is_bin_id b \<and> h_bin h = b \<and>
    r_method r \<notin> {''HEAD'', ''OPTIONS''} \<and> h_method h = ToUpper (uni_upper (sv_env sv)) (TrimSpace (r_method r)) \<and>
    h_path h = ''/hook/'' @ b @ (if Join ss ''/'' = [] then [] else ''/'' @ Join ss ''/'') \<and>
    length (body r) \<le> MaxBodyBytes \<and> h_body h = body r \<and> \<not> h_trunc h \<and> h_query h = raw_query r \<and>
    h_ip h = clientIP r \<and>
    pg_jsonb (sv_env sv) (json_Marshal (sv_env sv) (redactHeaders (sv_env sv) (header_map (r_header r)))) = Some (h_headers h)"
proof -
  obtain b ss vs where s: "segs r = ''hook'' # b # ss" "r_method r \<noteq> ''OPTIONS''" "is_bin_id b"
    "map_of vs ''path'' = (if ss = [] then None else Some (Join ss ''/''))"
    "stored_as (sv_env sv) (r\<lparr>path_vals := vs\<rparr>) b h"
    using assms by (rule serve_new_hit)
  have p: "PathValue (r\<lparr>path_vals := vs\<rparr>) ''path'' = Join ss ''/''"
    using s(4) by (simp add: PathValue_def)
  note f = stored_as_fields [OF s(5)]
  have "in_path (capture_of (r\<lparr>path_vals := vs\<rparr>) b (body r)) = ''/hook/'' @ b @ (if Join ss ''/'' = [] then [] else ''/'' @ Join ss ''/'')"
    using p by (simp add: capture_of_def)
  then show ?thesis
    using s(1-3) f by (intro exI [of _ b] exI [of _ ss]) (simp add: clientIP_def header_Get_def)
qed

section \<open>A posted request is stored\<close>

lemma find_filter_keep: "find P xs = Some x \<Longrightarrow> Q x \<Longrightarrow> find P (filter Q xs) = Some x"
  by (induction xs) (auto split: if_splits)

lemma get_bin_delete_bins: "get_bin d b = Some x \<Longrightarrow> \<not> P x \<Longrightarrow> get_bin (delete_bins P d) b = Some x"
  unfolding get_bin_def tbl_lookup_def delete_bins_def by (simp add: find_filter_keep)

lemma length_hits_delete: "length (hits_of b (delete_bins P d)) \<le> length (hits_of b d)"
proof -
  have "length (filter p (filter q xs)) \<le> length (filter p xs)" for p q and xs :: "hit_row list"
    by (induction xs) auto
  then show ?thesis by (simp add: hits_of_def delete_bins_def)
qed

text \<open>A bin whose time has not come, with room, through a pruning.\<close>

definition keeps_bin :: "string \<Rightarrow> bin \<Rightarrow> db \<Rightarrow> db \<Rightarrow> bool" where
  "keeps_bin b bin d d' \<longleftrightarrow>
     get_bin d' b = Some bin \<and> length (hits_of b d') \<le> length (hits_of b d) \<and>
     set (webhook_hits d') \<subseteq> set (webhook_hits d)"

lemma prune_keeps:
  assumes "get_bin (db w) b = Some bin" "\<forall>t. pg_NOW e t \<le> b_expires bin"
  shows "keeps_bin b bin (db w) (db (snd (pruneExpired e s w)))"
proof -
  have "db (snd (sql_query e [] stmt_prune w)) \<in> {db w, delete_bins (\<lambda>x. b_expires x < pg_NOW e (tick w)) (db w)}"
    by (auto simp: sql_query_def sql_run_def stmt_prune_def split: pg_outcome.split)
  moreover have "db (snd (pruneExpired e s w)) = db (snd (sql_query e [] stmt_prune w))"
    by (auto simp: pruneExpired_def split: prod.split sum.split)
  ultimately have "db (snd (pruneExpired e s w)) \<in> {db w, delete_bins (\<lambda>x. b_expires x < pg_NOW e (tick w)) (db w)}"
    by simp
  moreover have "\<not> b_expires bin < pg_NOW e (tick w)" using assms(2) by (simp add: not_less)
  ultimately show ?thesis
    using assms(1) get_bin_delete_bins [of "db w" b bin] length_hits_delete
    by (auto simp: keeps_bin_def dest: subsetD [OF delete_bins_hits])
qed

lemma PublicExists_alive:
  assumes "pg_healthy e" "pg_text_ok e b" "get_bin (db w) b = Some bin"
    and "\<forall>t. pg_NOW e t \<le> b_expires bin" "\<forall>t. go_Now e t \<le> b_expires bin"
  shows "fst (PublicExists e s b w) \<and> keeps_bin b bin (db w) (db (snd (PublicExists e s b w)))"
proof -
  define p where "p = (case s of None \<Rightarrow> (False, w)
      | Some kv \<Rightarrow> (case kv_do (\<lambda>t. kv_Exists kv t (binCacheKey b)) w of
          (Inl _, w) \<Rightarrow> (False, w) | (Inr n, w) \<Rightarrow> (0 < n, w)))"
  obtain hit w1 where h: "p = (hit, w1)" by fastforce
  have w1: "db w1 = db w"
    using h unfolding p_def by (auto split: option.splits prod.splits sum.splits dest!: kv_do_eqD)
  show ?thesis
  proof (cases hit)
    case True
    then have "PublicExists e s b w = (True, w1)"
      using h unfolding PublicExists_def p_def by simp
    then show ?thesis using w1 assms(3) by (simp add: keeps_bin_def)
  next
    case False
    let ?w2 = "snd (pruneExpired e s w1)"
    have k: "keeps_bin b bin (db w) (db ?w2)" using prune_keeps [of w1 b bin e s] assms(3,4) w1 by simp
    have q: "sql_row e [b] (stmt_select_expiry b) ?w2 = (Inr (b_expires bin), bump (?w2\<lparr>db := db ?w2\<rparr>))"
      using sql_row_ok [of e ?w2 "[b]" "stmt_select_expiry b" "Some (b_expires bin)" "db ?w2"] assms(1,2) k
      by (simp add: keeps_bin_def stmt_select_expiry_def pg_healthyD)
    have a: "\<not> After t (b_expires bin)" if "t \<in> range (go_Now e)" for t
      using that assms(5) by (auto simp: After_def not_less)
    have "PublicExists e s b w =
        (True, cacheBin s b (b_expires bin - go_Now e (Suc (Suc (tick ?w2)))) (bump (bump (bump (?w2\<lparr>db := db ?w2\<rparr>)))))"
      using h False a unfolding PublicExists_def p_def [symmetric] by (simp add: Let_def time_Now_def q)
    then show ?thesis using k by (simp add: keeps_bin_def)
  qed
qed

lemma cap_room:
  assumes "length (hits_of b d) \<le> n"
  shows "webhook_hits (snd (stmt_cap_hits tie b n t d)) = webhook_hits d"
  using assms by (simp add: stmt_cap_hits_def Let_def length_order_desc)

lemma ingest_room:
  assumes "length (hits_of (h_bin row) d) < MaxHitsPerBin"
  shows "row \<in> set (webhook_hits (ingest_effect tie row now d))"
proof -
  let ?d = "d\<lparr>webhook_hits := webhook_hits d @ [row]\<rparr>"
  have "length (hits_of (h_bin row) ?d) \<le> MaxHitsPerBin" using assms by (simp add: hits_of_def)
  from cap_room [OF this] show ?thesis by (simp add: ingest_effect_def Let_def)
qed

definition json_total :: "env \<Rightarrow> bool" where
  "json_total e \<longleftrightarrow> (\<forall>m. pg_jsonb e (json_Marshal e m) \<noteq> None)"

lemma Ingest_stores:
  assumes "pg_healthy e" "\<forall>t. pg_text_ok e t" "json_total e" "get_bin (db w) b = Some bin"
    and "\<forall>t. pg_NOW e t \<le> b_expires bin" "\<forall>t. go_Now e t \<le> b_expires bin"
    and "\<forall>t. hex_encode (map (rand_byte e t) [0..<IDBytes]) \<notin> h_id ` set (webhook_hits (db w))"
    and "length (hits_of b (db w)) < MaxHitsPerBin"
  shows "\<exists>h row w'. Ingest e s b i w = (Inr h, w') \<and> hit_row_of e h = Some row \<and> row \<in> set (webhook_hits (db w')) \<and>
    (\<exists>hid now. h = make_hit e hid b now i)"
proof -
  define wp where "wp = snd (pruneExpired e s w)"
  have k: "keeps_bin b bin (db w) (db wp)" unfolding wp_def by (rule prune_keeps [OF assms(4,5)])
  define h where "h = make_hit e (hex_encode (map (rand_byte e (tick wp + 2)) [0..<IDBytes])) b (go_Now e (tick wp + 1)) i"
  obtain row where row: "hit_row_of e h = Some row"
  proof -
    have "pg_jsonb e (json_Marshal e (h_params h)) \<noteq> None" "pg_jsonb e (json_Marshal e (h_headers h)) \<noteq> None"
      using assms(3) by (simp_all add: json_total_def)
    then show ?thesis using that by (auto simp: hit_row_of_def)
  qed
  have bin: "h_bin row = b" using hit_row_simps(2) [OF row] by (simp add: h_def)
  have "Ingest e s b i w =
      (Inr h, wp\<lparr>db := ingest_effect (pg_tie e (tick wp + 5)) row (go_Now e (tick wp + 1)) (db wp), tick := tick wp + 9\<rparr>)"
    unfolding h_def
  proof (rule Ingest_ok [OF assms(1) wp_def [symmetric]])
    show "get_bin (db wp) b = Some bin" using k by (simp add: keeps_bin_def)
    show "\<not> After (go_Now e (tick wp + 1)) (b_expires bin)" using assms(6) by (simp add: After_def not_less)
    show "h_id (make_hit e (hex_encode (map (rand_byte e (tick wp + 2)) [0..<IDBytes])) b (go_Now e (tick wp + 1)) i)
        \<notin> h_id ` set (webhook_hits (db wp))"
      using assms(7) k by (auto simp: keeps_bin_def)
  qed (use assms(2) row in \<open>auto simp: list_all_iff h_def\<close>)
  moreover have "row \<in> set (webhook_hits (ingest_effect tie row now (db wp)))" for tie now
    using ingest_room [of row "db wp"] k assms(8) by (simp add: keeps_bin_def bin)
  ultimately show ?thesis using row h_def by (metis (mono_tags, lifting) world.select_convs(1) world.surjective world.update_convs(1,3))
qed


lemma find_hook_route:
  assumes "segs r = [''hook'', b]" "b \<noteq> []"
  shows "find (route_matches r) (routes sv) = Some (route_to None [Lit ''hook'', Wild ''id''] (handleHookIngest sv))"
proof -
  have "\<forall>rt \<in> set (public_routes sv @ cloud_routes sv). \<not> route_matches r rt"
    using assms(1)
    by (simp add: public_routes_def cloud_routes_def cloud_table_def bins_path_def route_to_def route_matches_Some)
  then have "find (route_matches r) (public_routes sv @ cloud_routes sv) = None" by (simp add: find_None_all)
  moreover have "route_matches r (route_to None [Lit ''hook'', Wild ''id''] (handleHookIngest sv))"
    using assms by (simp add: route_matches_Some route_to_def method_match_def)
  ultimately show ?thesis
    using find_append [of "route_matches r" "public_routes sv @ cloud_routes sv" "hook_routes sv"]
    by (simp add: routes_def hook_routes_def del: find_append)
qed

lemma status_hook:
  assumes "capture sv b r (wr, w) = (None, writeJSON n j wr, w')" "fst (PublicExists (sv_env sv) (hooks sv) b w0)"
    and "fst (fst (Allow (sv_kv sv) (''hook:'' @ b) 120 Minute (snd (PublicExists (sv_env sv) (hooks sv) b w0))))"
    and "w = snd (Allow (sv_kv sv) (''hook:'' @ b) 120 Minute (snd (PublicExists (sv_env sv) (hooks sv) b w0)))"
    and "is_bin_id b" "PathValue r ''id'' = b"
  shows "handleHookIngest sv r (wr, w0) = (None, writeJSON n j wr, w')"
proof -
  obtain w1 where x: "PublicExists (sv_env sv) (hooks sv) b w0 = (True, w1)"
    using assms(2) by (metis (full_types) eq_fst_iff)
  obtain ok retry v where a0: "Allow (sv_kv sv) (''hook:'' @ b) 120 Minute w1 = ((ok, retry), v)"
    by (metis prod.collapse)
  have ok: "ok" "w = v" using assms(3,4) unfolding x snd_conv a0 by simp_all
  have a: "Allow (sv_kv sv) (''hook:'' @ b) 120 Minute w1 = ((True, retry), w)" using a0 by (simp only: ok)
  have "b \<noteq> []" using assms(5) by (auto simp: is_bin_id_def IDBytes_def)
  have "rate_limited sv (''hook:'' @ b) 120 Minute [] (capture sv b) r (wr, w1) = (None, writeJSON n j wr, w')"
    unfolding rate_limited_def prod.case a using assms(1) by simp
  then show ?thesis
    using assms(5,6) \<open>b \<noteq> []\<close> x by (simp add: handleHookIngest_def ids_accepted)
qed

lemma posted_stored:
  assumes "pg_healthy (sv_env sv)" and "\<forall>t. pg_text_ok (sv_env sv) t" and "json_total (sv_env sv)"
    and "get_bin (db w) b = Some bin" and "is_bin_id b"
    and "\<forall>t. pg_NOW (sv_env sv) t \<le> b_expires bin" and "\<forall>t. go_Now (sv_env sv) t \<le> b_expires bin"
    and "\<forall>t. hex_encode (map (rand_byte (sv_env sv) t) [0..<IDBytes]) \<notin> h_id ` set (webhook_hits (db w))"
    and "length (hits_of b (db w)) < MaxHitsPerBin"
    and "fst (fst (Allow (sv_kv sv) (''hook:'' @ b) 120 Minute (snd (PublicExists (sv_env sv) (hooks sv) b (bump w)))))"
    and "lib_clean sv r = None" and "segs r = [''hook'', b]" and "r_method r \<notin> {''HEAD'', ''OPTIONS''}"
    and "length (body r) \<le> MaxBodyBytes" and "body_err r = None"
  shows "status_of (fst (serve sv r w)) = 200 \<and>
    (\<exists>h \<in> set (webhook_hits (db (snd (serve sv r w)))). h_bin h = b \<and> h_body h = body r)"
proof -
  let ?e = "sv_env sv"
  let ?r = "r\<lparr>path_vals := [(''id'', b)]\<rparr>"
  let ?wr = "front_writer (sv_origins sv) r"
  define w1 where "w1 = snd (PublicExists ?e (hooks sv) b (bump w))"
  define w2 where "w2 = snd (Allow (sv_kv sv) (''hook:'' @ b) 120 Minute w1)"
  have pe: "fst (PublicExists ?e (hooks sv) b (bump w)) \<and> keeps_bin b bin (db w) (db w1)"
    unfolding w1_def using PublicExists_alive [of ?e b "bump w" bin "hooks sv"] assms(1,2,4,6,7) by simp
  have "db w2 = db w1" unfolding w2_def by simp
  with pe have k: "keeps_bin b bin (db w) (db w2)" by simp
  let ?i = "capture_of ?r b (body r)"
  have "\<exists>h row w'. Ingest ?e (hooks sv) b ?i w2 = (Inr h, w') \<and> hit_row_of ?e h = Some row \<and>
      row \<in> set (webhook_hits (db w')) \<and> (\<exists>hid now. h = make_hit ?e hid b now ?i)"
    by (rule Ingest_stores [OF assms(1-3) _ assms(6,7)])
      (use k assms(8,9) in \<open>auto simp: keeps_bin_def\<close>)
  then obtain h row w' hid now where ing: "Ingest ?e (hooks sv) b ?i w2 = (Inr h, w')" "hit_row_of ?e h = Some row"
      "row \<in> set (webhook_hits (db w'))" "h = make_hit ?e hid b now ?i" by blast
  let ?j = "JObj [(''ok'', JBool True), (''id'', JStr (h_id h)), (''bin'', JStr b)]"
  have "capture sv b ?r (?wr, w2) = (None, writeJSON 200 ?j ?wr, w')"
    using assms(13-15) ing(1) by (simp add: capture_def read_limited_def)
  then have "handleHookIngest sv ?r (?wr, bump w) = (None, writeJSON 200 ?j ?wr, w')"
    by (rule status_hook) (use pe assms(5,10) in \<open>auto simp: w1_def w2_def PathValue_def\<close>)
  moreover have "b \<noteq> []" using assms(5) by (auto simp: is_bin_id_def IDBytes_def)
  ultimately have i: "inner_handler sv r (?wr, bump w) = (None, writeJSON 200 ?j ?wr, w')"
    using assms(11-13) find_hook_route [OF assms(12), of sv]
    by (simp add: inner_handler_def ServeMux_def run_route_def) (simp add: route_to_def match_path.simps(1))
  have "h_bin row = b" "h_body row = body r"
    using hit_row_simps(2,4) [OF ing(2)] ing(4) assms(14) by (simp_all add: make_hit_def Let_def capture_of_def)
  then show ?thesis using serve_inner [OF i] ing(3) by auto
qed


section \<open>The concrete server\<close>

lemma still_env_json [simp]: "json_total still_env"
  by (simp add: json_total_def still_env_def demo_env_def)

text \<open>A fresh counter grants.\<close>

lemma Allow_fresh:
  assumes "vk w (rl_key key) = None" "1 \<le> limit"
  shows "fst (fst (Allow (mem_valkey clk (\<lambda>_. False)) key limit window w))"
  using assms by (simp add: Allow_def kv_do_def mem_valkey_def kv_reply_def kv_apply_def kv_incr_spec_def live_def Let_def)

lemma demo_id_ok: "is_bin_id (demo_id n)"
  by (simp add: is_bin_id_def demo_id_def hex_encode_hex IDBytes_def)

lemma one_bin_prune: "stmt_prune (10 * Second) one_bin_db = (Inr [], one_bin_db)"
  by (simp add: stmt_prune_def delete_bins_def one_bin_db_def empty_db_def demo_bin_def Second_def)

definition still_kv :: "kv_map valkey" where
  "still_kv = mem_valkey (\<lambda>_. 10 * Second) (\<lambda>_. False)"

lemma demo_exists_vk:
  "vk (snd (PublicExists still_env (Some still_kv) (demo_id 2) (bump (demo_world one_bin_db)))) (rl_key key) = None"
proof -
  let ?w = "bump (bump (demo_world one_bin_db)) :: kv_map world"
  have k: "kv_do (\<lambda>t. kv_Exists still_kv t (binCacheKey (demo_id 2))) (bump (demo_world one_bin_db)) = (Inr 0, ?w)"
    by (simp add: kv_do_def still_kv_def mem_valkey_def kv_reply_def live_def bump_def)
  have p: "pruneExpired still_env (Some still_kv) ?w = (None, bump ?w)"
    by (simp add: pruneExpired_def sql_query_def sql_run_def one_bin_prune bump_def demo_world_def)
  have q: "sql_row still_env [demo_id 2] (stmt_select_expiry (demo_id 2)) (bump ?w) = (Inr 259203000000000, bump (bump ?w))"
    by (simp add: sql_row_def sql_exec_def sql_run_def stmt_select_expiry_def)
  have ne: "binCacheKey b \<noteq> rl_key key" for b by (simp add: binCacheKey_def rl_key_def)
  have "\<not> After (10 * Second) 259203000000000" by (simp add: After_def Second_def)
  then show ?thesis
    by (simp add: PublicExists_def k p q time_Now_def Let_def cacheBin_def)
      (simp add: kv_do_def still_kv_def mem_valkey_def kv_apply_def kv_set_spec_def ne ne [symmetric])
qed

lemma demo_premises:
  "fst (fst (Allow (sv_kv demo_server) (''hook:'' @ demo_id 2) 120 Minute
      (snd (PublicExists (sv_env demo_server) (hooks demo_server) (demo_id 2) (bump (demo_world one_bin_db))))))"
  "get_bin (db (demo_world one_bin_db)) (demo_id 2) = Some demo_bin"
  "\<forall>t. pg_NOW (sv_env demo_server) t \<le> b_expires demo_bin" "\<forall>t. go_Now (sv_env demo_server) t \<le> b_expires demo_bin"
  "pg_healthy (sv_env demo_server)" "\<forall>t. pg_text_ok (sv_env demo_server) t" "json_total (sv_env demo_server)"
proof -
  show "fst (fst (Allow (sv_kv demo_server) (''hook:'' @ demo_id 2) 120 Minute
      (snd (PublicExists (sv_env demo_server) (hooks demo_server) (demo_id 2) (bump (demo_world one_bin_db))))))"
    unfolding demo_server_simps by (rule Allow_fresh) (use demo_exists_vk in \<open>simp_all add: still_kv_def\<close>)
qed (simp_all add: Second_def)

lemma demo_posted:
  "\<exists>h \<in> set (webhook_hits (db (snd (serve demo_server post_request (demo_world one_bin_db))))).
     h_bin h = demo_id 2 \<and> h_body h = ''hi''"
  using posted_stored [OF demo_premises(5-7,2) demo_id_ok demo_premises(3,4) _ _ demo_premises(1), of post_request]
  by (simp add: hits_of_def MaxHitsPerBin_def MaxBodyBytes_def)


theorem captures_are_faithful_witness:
  "\<exists>h \<in> set (webhook_hits (db (snd (serve demo_server post_request (demo_world one_bin_db))))).
     h_bin h = demo_id 2 \<and> h_path h = ''/hook/'' @ demo_id 2 \<and> \<not> h_trunc h"
proof -
  obtain h where h: "h \<in> set (webhook_hits (db (snd (serve demo_server post_request (demo_world one_bin_db)))))"
    using demo_posted by blast
  have "h \<notin> set (webhook_hits (db (demo_world one_bin_db)))" by simp
  from captures_are_faithful [OF h this] h show ?thesis by auto
qed

end
