(* ===== verification/Limit_Contract.thy ===== *)
theory Limit_Contract
  imports Server_Spec
begin

text \<open>
  Which steps of the server leave the counters of the limiter alone, and the lines the SMTP
  tester logs: all methods of the stores, the session and the login, whatever fails, under the
  documented behaviour of Valkey.
\<close>

section \<open>Steps that touch no counter\<close>

text \<open>The lines the handlers of the SMTP tester log before they connect.\<close>

definition smtp_line :: "string \<times> str_map \<Rightarrow> bool" where
  "smtp_line l \<longleftrightarrow> fst l \<in> {''smtp test requested'', ''smtp auth check requested''}"

text \<open>
  A quiet step takes its time, leaves every counter of the limiter alone and logs no such
  line.
\<close>

definition quiet :: "('k \<Rightarrow> kv_map) \<Rightarrow> 'k world \<Rightarrow> 'k world \<Rightarrow> bool" where
  "quiet view w w' \<longleftrightarrow>
     tick w \<le> tick w' \<and> (\<forall>k. view (vk w') (rl_key k) = view (vk w) (rl_key k)) \<and>
     filter smtp_line (logs w') = filter smtp_line (logs w)"

lemma quiet_refl [simp]: "quiet view w w"
  by (simp add: quiet_def)

lemma quiet_trans: "quiet view a b \<Longrightarrow> quiet view b c \<Longrightarrow> quiet view a c"
  by (simp add: quiet_def)

lemma quiet_same: "vk w' = vk w \<Longrightarrow> logs w' = logs w \<Longrightarrow> tick w \<le> tick w' \<Longrightarrow> quiet view w w'"
  by (simp add: quiet_def)

lemma quiet_log: "m \<notin> {''smtp test requested'', ''smtp auth check requested''} \<Longrightarrow> quiet view w (log_line m a w)"
  by (simp add: quiet_def log_line_def smtp_line_def)

locale counted_server =
  fixes sv :: "'k server" and view :: "'k \<Rightarrow> kv_map"
  assumes spec: "valkey_spec (sv_kv sv) view"
begin

lemma kv_quiet:
  assumes "\<And>k. k0 \<noteq> rl_key k"
  shows "quiet view w (snd (kv_do (\<lambda>t. kv_Set (sv_kv sv) t k0 ''1'' d) w))"
    "quiet view w (snd (kv_do (\<lambda>t. kv_SetNX (sv_kv sv) t k0 ''1'' d) w))"
    "quiet view w (snd (kv_do (\<lambda>t. kv_Del (sv_kv sv) t k0) w))"
    "quiet view w (snd (kv_do (\<lambda>t. kv_Exists (sv_kv sv) t k0) w))"
proof -
  have ne: "rl_key k \<noteq> k0" for k using assms [of k] by simp
  have s: "kv_set_spec t k0 d m (rl_key k) = m (rl_key k)" for t m k using ne by (simp add: kv_set_spec_def)
  show "quiet view w (snd (kv_do (\<lambda>t. kv_Set (sv_kv sv) t k0 ''1'' d) w))"
    by (cases "kv_Set (sv_kv sv) (tick w) k0 ''1'' d (vk w)")
      (auto simp: kv_do_def quiet_def kv_effect_def s dest!: valkey_Set [OF spec])
  show "quiet view w (snd (kv_do (\<lambda>t. kv_SetNX (sv_kv sv) t k0 ''1'' d) w))"
    by (cases "kv_SetNX (sv_kv sv) (tick w) k0 ''1'' d (vk w)")
      (auto simp: kv_do_def quiet_def kv_effect_def s dest!: valkey_SetNX [OF spec] split: if_splits)
  show "quiet view w (snd (kv_do (\<lambda>t. kv_Del (sv_kv sv) t k0) w))"
    by (cases "kv_Del (sv_kv sv) (tick w) k0 (vk w)")
      (auto simp: kv_do_def quiet_def kv_effect_def ne dest!: valkey_Del [OF spec])
  show "quiet view w (snd (kv_do (\<lambda>t. kv_Exists (sv_kv sv) t k0) w))"
    by (cases "kv_Exists (sv_kv sv) (tick w) k0 (vk w)")
      (auto simp: kv_do_def quiet_def dest!: valkey_Exists [OF spec])
qed

lemma cache_key: "binCacheKey b \<noteq> rl_key k" "marker f \<noteq> rl_key k"
  by (simp_all add: binCacheKey_def rl_key_def marker_def)

lemma cacheBin_quiet: "quiet view w (cacheBin (hooks sv) b d w)"
  by (simp add: cacheBin_def hooks_def kv_quiet(1) cache_key)

lemma uncacheBin_quiet: "quiet view w (uncacheBin (hooks sv) b w)"
  by (simp add: uncacheBin_def hooks_def kv_quiet(3) cache_key)

lemma fold_uncache_quiet: "quiet view w (fold (uncacheBin (hooks sv)) ids w)"
  by (induction ids arbitrary: w) (auto intro: quiet_trans uncacheBin_quiet)

text \<open>The single steps, as facts on results.\<close>

lemma sql_quiet:
  "sql_exec e ps st w = (x, w1) \<Longrightarrow> quiet view w w1"
  "sql_row e ps st' w = (x', w1) \<Longrightarrow> quiet view w w1"
  "sql_query e ps st'' w = (x'', w1) \<Longrightarrow> quiet view w w1"
  by (auto intro!: quiet_same dest: sql_exec_eqD sql_row_eqD sql_query_eqD)

lemma sql_tx_quiet:
  assumes "\<And>w x w1. bd w = (x, w1) \<Longrightarrow> quiet view w w1" "sql_tx e bd w = (r, w')"
  shows "quiet view w w'"
proof -
  obtain x w1 where b: "bd (bump w) = (x, w1)" by fastforce
  have "quiet view (bump w) w1" by (rule assms(1) [OF b])
  then show ?thesis
    using assms(2) b by (auto simp: sql_tx_def quiet_def split: pg_outcome.splits sum.splits)
qed

lemma prune_quiet: "pruneExpired e (hooks sv) w = (x, w1) \<Longrightarrow> quiet view w w1"
  by (auto simp: pruneExpired_def split: prod.splits sum.splits dest!: sql_quiet(3)
      intro: quiet_trans fold_uncache_quiet)

lemma prune_snd_quiet: "quiet view w (snd (pruneExpired e (hooks sv) w))"
  using prune_quiet by (metis prod.collapse)

lemma newID_quiet: "newID e w = (x, w1) \<Longrightarrow> quiet view w w1"
  by (auto simp: newID_def intro!: quiet_same split: prod.splits sum.splits dest!: rand_Read_eqD)

lemma bump_quiet: "quiet view w (bump w)"
  by (simp add: quiet_same)

lemma getOwned_quiet: "getOwned e (hooks sv) u b w = (x, w1) \<Longrightarrow> quiet view w w1"
proof -
  assume g: "getOwned e (hooks sv) u b w = (x, w1)"
  obtain y w2 where s: "sql_row e [b] (stmt_select_bin b) w = (y, w2)" by fastforce
  have 2: "quiet view w w2" by (rule sql_quiet(2) [OF s])
  have 3: "quiet view w (bump w2)" by (rule quiet_trans [OF 2 bump_quiet])
  obtain z w4 where d: "sql_exec e [b] (stmt_delete_bin b) (bump w2) = (z, w4)" by fastforce
  have "quiet view w (uncacheBin (hooks sv) b w4)"
    by (rule quiet_trans [OF quiet_trans [OF 3 sql_quiet(1) [OF d]] uncacheBin_quiet])
  then show ?thesis
    using g 2 3 by (auto simp: getOwned_def s d time_Now_def Let_def split: sum.splits if_splits)
qed

lemmas quiet_steps = sql_quiet prune_quiet newID_quiet getOwned_quiet

lemma store_quiet:
  "Create e (hooks sv) u n w = (x1, w') \<Longrightarrow> quiet view w w'"
  "List_bins e (hooks sv) u w = (x2, w') \<Longrightarrow> quiet view w w'"
  "Get_bin e (hooks sv) u b w = (x3, w') \<Longrightarrow> quiet view w w'"
  "Delete_bin e (hooks sv) u b w = (x4, w') \<Longrightarrow> quiet view w w'"
  "ListHits e (hooks sv) u b l a w = (x7, w') \<Longrightarrow> quiet view w w'"
  "GetHit e (hooks sv) u b h w = (x8, w') \<Longrightarrow> quiet view w w'"
proof -
  show "Create e (hooks sv) u n w = (x1, w') \<Longrightarrow> quiet view w w'"
    by (auto simp: Create_def Let_def time_Now_def split: prod.splits option.splits sum.splits if_splits
        dest!: quiet_steps intro!: quiet_trans [OF _ cacheBin_quiet]) (auto simp: quiet_def)
  show "List_bins e (hooks sv) u w = (x2, w') \<Longrightarrow> quiet view w w'"
    using prune_snd_quiet [of w e]
    by (auto simp: List_bins_def Let_def split: prod.splits sum.splits dest!: quiet_steps intro: quiet_trans)
  show "Get_bin e (hooks sv) u b w = (x3, w') \<Longrightarrow> quiet view w w'"
    using prune_snd_quiet [of w e] by (auto simp: Get_bin_def dest!: quiet_steps intro: quiet_trans)
  show "Delete_bin e (hooks sv) u b w = (x4, w') \<Longrightarrow> quiet view w w'"
    by (auto simp: Delete_bin_def split: prod.splits sum.splits
        dest!: quiet_steps intro!: quiet_trans [OF _ uncacheBin_quiet]) (auto simp: quiet_def)
  show "ListHits e (hooks sv) u b l a w = (x7, w') \<Longrightarrow> quiet view w w'"
    by (auto simp: ListHits_def Let_def split: prod.splits sum.splits if_splits
        dest!: quiet_steps intro: quiet_trans)
  show "GetHit e (hooks sv) u b h w = (x8, w') \<Longrightarrow> quiet view w w'"
    by (auto simp: GetHit_def split: prod.splits sum.splits if_splits
        dest!: quiet_steps intro: quiet_trans)
qed

lemma clear_tx_quiet: "clear_tx e b w = (x, w1) \<Longrightarrow> quiet view w w1"
  by (auto simp: clear_tx_def split: prod.splits sum.splits dest!: quiet_steps intro: quiet_trans)

lemma ingest_tx_quiet: "ingest_tx e h now w = (x, w1) \<Longrightarrow> quiet view w w1"
  by (auto simp: ingest_tx_def split: prod.splits sum.splits dest!: quiet_steps) (auto simp: quiet_def)

lemma ClearHits_quiet: "ClearHits e (hooks sv) u b w = (x, w') \<Longrightarrow> quiet view w w'"
  by (auto simp: ClearHits_def split: prod.splits sum.splits
      dest!: quiet_steps sql_tx_quiet [rotated, where bd = "clear_tx e b"] clear_tx_quiet)
    (auto simp: quiet_def)

lemma Ingest_quiet: "Ingest e (hooks sv) b i w = (x, w') \<Longrightarrow> quiet view w w'"
proof -
  assume g: "Ingest e (hooks sv) b i w = (x, w')"
  have p: "quiet view w (snd (pruneExpired e (hooks sv) w))" by (rule prune_snd_quiet)
  have t: "sql_tx e (ingest_tx e h now) v = (y, v') \<Longrightarrow> quiet view v v'" for h now v y v'
    by (rule sql_tx_quiet [OF ingest_tx_quiet])
  have d: "quiet view v (snd (sql_exec e [b] (stmt_delete_bin b) v))" for v
    using sql_quiet(1) by (metis prod.collapse)
  show ?thesis
    using g p
    by (auto simp: Ingest_def Let_def time_Now_def split: prod.splits sum.splits if_splits
        dest!: quiet_steps t intro!: quiet_trans [OF _ d]) (auto simp: quiet_def)
qed

lemma PublicExists_quiet: "PublicExists e (hooks sv) b w = (x, w') \<Longrightarrow> quiet view w w'"
proof -
  assume g: "PublicExists e (hooks sv) b w = (x, w')"
  obtain y w1 where k: "kv_do (\<lambda>t. kv_Exists (sv_kv sv) t (binCacheKey b)) w = (y, w1)" by fastforce
  have 1: "quiet view w w1" using kv_quiet(4) [of "binCacheKey b" w] cache_key k by (metis snd_conv)
  have 2: "quiet view w (snd (pruneExpired e (hooks sv) w1))" by (rule quiet_trans [OF 1 prune_snd_quiet])
  have h: "(case hooks sv of None \<Rightarrow> (False, w)
      | Some kv \<Rightarrow> (case kv_do (\<lambda>t. kv_Exists kv t (binCacheKey b)) w of
          (Inl _, w) \<Rightarrow> (False, w) | (Inr n, w) \<Rightarrow> (0 < n, w))) =
      (case y of Inl _ \<Rightarrow> False | Inr n \<Rightarrow> 0 < n, w1)"
    by (simp add: hooks_def k split: sum.split)
  show ?thesis
    using g 1 2 unfolding PublicExists_def h
    by (auto simp: Let_def time_Now_def split: prod.splits sum.splits if_splits
        dest!: quiet_steps intro!: quiet_trans [OF _ cacheBin_quiet] quiet_trans [OF _ uncacheBin_quiet])
      (auto simp: quiet_def)
qed

text \<open>Users, sessions, visitors and the tester.\<close>

lemma user_quiet:
  "IsBanned e u w = (x, w') \<Longrightarrow> quiet view w w'"
  "UpsertLogin e uid em nm pic ip w = (x1, w') \<Longrightarrow> quiet view w w'"
  "UserFromRequest e jw sm r w = (x2, w') \<Longrightarrow> quiet view w w'"
  "fetchUser ol tok w = (x3, w') \<Longrightarrow> quiet view w w'"
  "randomState e n w = (x4, w') \<Longrightarrow> quiet view w w'"
  "Issue e jw sm su (wr, w) = (x5, wr', w') \<Longrightarrow> quiet view w w'"
proof -
  show "IsBanned e u w = (x, w') \<Longrightarrow> quiet view w w'"
    by (auto simp: IsBanned_def split: prod.splits sum.splits if_splits dest!: quiet_steps)
  show "UpsertLogin e uid em nm pic ip w = (x1, w') \<Longrightarrow> quiet view w w'"
    by (auto simp: UpsertLogin_def time_Now_def Let_def split: prod.splits sum.splits if_splits
        dest!: quiet_steps intro: quiet_trans [OF bump_quiet])
  show "UserFromRequest e jw sm r w = (x2, w') \<Longrightarrow> quiet view w w'"
    by (auto simp: UserFromRequest_def time_Now_def Let_def bump_quiet split: option.splits if_splits)
  show "fetchUser ol tok w = (x3, w') \<Longrightarrow> quiet view w w'"
    by (auto simp: fetchUser_def Let_def bump_quiet split: prod.splits sum.splits if_splits)
  show "randomState e n w = (x4, w') \<Longrightarrow> quiet view w w'"
    by (auto simp: randomState_def intro!: quiet_same split: prod.splits sum.splits dest!: rand_Read_eqD)
  show "Issue e jw sm su (wr, w) = (x5, wr', w') \<Longrightarrow> quiet view w w'"
    by (auto simp: Issue_def time_Now_def Let_def bump_quiet split: prod.splits sum.splits if_splits)
qed

lemma visitor_steps_quiet:
  "visitor_insert e v fp w = (x, w') \<Longrightarrow> quiet view w w'"
  "updateSeen e v fp w = (x', w') \<Longrightarrow> quiet view w w'"
  by (auto simp: visitor_insert_def updateSeen_def time_Now_def Let_def
      split: prod.splits sum.splits if_splits dest!: quiet_steps intro: quiet_trans [OF bump_quiet])

lemma track_quiet: "track e sha (hooks sv) v w = (x, w') \<Longrightarrow> quiet view w w'"
proof -
  assume g: "track e sha (hooks sv) v w = (x, w')"
  have k: "kv_do (\<lambda>t. kv_SetNX (sv_kv sv) t (marker fp) ''1'' 0) v = (y, v') \<Longrightarrow> quiet view v v'" for fp v y v'
    using kv_quiet(2) [of "marker fp" v 0] cache_key by (metis snd_conv)
  show ?thesis
    using g
    by (auto simp: track_def hooks_def persist_def Let_def split: prod.splits sum.splits if_splits
        dest!: k visitor_steps_quiet) (auto simp: quiet_def)
qed

lemma track_job_quiet: "quiet view w (track_job e sha (hooks sv) v w)"
  by (auto simp: track_job_def split: prod.split sum.split dest!: track_quiet
      intro: quiet_trans [OF _ quiet_log])

lemma RunTest_quiet: "RunTest e f peer bad64 req w = (x, w') \<Longrightarrow> quiet view w w'"
  by (auto simp: RunTest_def Let_def step_def time_Now_def quiet_def split: if_splits prod.splits sum.splits)

end

end
