(* ===== verification/Limit_Spec.thy ===== *)
theory Limit_Spec
  imports Limit_Contract
begin

text \<open>
  The rate limits of the SMTP tester through the whole server: what a user may still do is a
  budget that every handler keeps or pays from, so any run of requests in a window stays
  within it.
\<close>

section \<open>What the tester of a user may still do\<close>

text \<open>How often a user was let through to the SMTP tester.\<close>

definition asked :: "string \<Rightarrow> string \<Rightarrow> 'k world \<Rightarrow> nat" where
  "asked m uid w = length (filter (\<lambda>l. fst l = m \<and> map_of (snd l) ''user_id'' = Some uid) (logs w))"

definition smtp_kinds :: "string \<Rightarrow> (string \<times> string \<times> int) list" where
  "smtp_kinds uid =
     [(''smtp test requested'', ''smtp:'' @ uid, 10), (''smtp auth check requested'', ''smtp-auth:'' @ uid, 30)]"

lemma asked_smtp_log:
  assumes "(m, key, L) \<in> set (smtp_kinds uid)" "filter smtp_line (logs w') = filter smtp_line (logs w)"
  shows "asked m uid w' = asked m uid w"
proof -
  have "fst l = m \<and> map_of (snd l) ''user_id'' = Some uid \<longleftrightarrow> smtp_line l \<and> fst l = m \<and> map_of (snd l) ''user_id'' = Some uid" for l
    using assms(1) by (auto simp: smtp_kinds_def smtp_line_def)
  then have A: "asked m uid v = length (filter (\<lambda>l. fst l = m \<and> map_of (snd l) ''user_id'' = Some uid) (filter smtp_line (logs v)))"
    for v :: "'c world"
    unfolding asked_def filter_filter by (intro arg_cong [where f = length] filter_cong) auto
  show ?thesis unfolding A assms(2) by (rule refl)
qed

locale smtp_budget = counted_server sv view for sv :: "'k server" and view :: "'k \<Rightarrow> kv_map" +
  fixes m key uid :: string and L :: int and t0 :: nat and D :: time
  assumes kind: "(m, key, L) \<in> set (smtp_kinds uid)"
    and mono: "mono (kv_clock (sv_kv sv))"
    and window: "D \<le> kv_clock (sv_kv sv) t0 + Hour"
begin

definition left :: "'k world \<Rightarrow> int" where
  "left w = budget D L (counter (sv_kv sv) view key w)"

text \<open>In the window, being let through is paid from what is left.\<close>

definition charged :: "'k world \<Rightarrow> 'k world \<Rightarrow> bool" where
  "charged w w' \<longleftrightarrow> tick w \<le> tick w' \<and>
     (t0 \<le> tick w \<longrightarrow> kv_clock (sv_kv sv) (tick w') < D \<longrightarrow>
        int (asked m uid w') + left w' \<le> int (asked m uid w) + left w)"

lemma clock_le: "i \<le> j \<Longrightarrow> kv_clock (sv_kv sv) i \<le> kv_clock (sv_kv sv) j"
  using mono by (rule monoD)

lemma charged_trans: "charged a b \<Longrightarrow> charged b c \<Longrightarrow> charged a c"
  using clock_le [of "tick b" "tick c"] by (auto simp: charged_def)

lemma charged_quiet: "quiet view w w' \<Longrightarrow> charged w w'"
  using clock_le [of "tick w" "tick w'"] asked_smtp_log [OF kind, of w' w]
    budget_time [of "kv_clock (sv_kv sv) (tick w)" "kv_clock (sv_kv sv) (tick w')" D L "rl_key key" "view (vk w)"]
  by (auto simp: charged_def quiet_def left_def live_def)

lemma charged_refl [simp]: "charged w w"
  by (simp add: charged_def)

lemma charged_after: "quiet view a b \<Longrightarrow> charged b c \<Longrightarrow> charged a c"
  and charged_before: "charged a b \<Longrightarrow> quiet view b c \<Longrightarrow> charged a c"
  by (blast intro: charged_trans charged_quiet)+

lemma Allow_left:
  assumes a: "Allow (sv_kv sv) k l n w = ((ok, r), w1)" and k: "k = key \<Longrightarrow> l = L \<and> n = Hour"
    and t: "t0 \<le> tick w" "kv_clock (sv_kv sv) (tick w1) < D"
  shows "(if k = key \<and> ok then 1 else 0) + left w1 \<le> left w"
proof -
  let ?c = "kv_clock (sv_kv sv)"
  note step = Allow_counter [OF spec a]
  have now: "?c (tick w) \<le> ?c (tick w1)" "?c t0 \<le> ?c (Suc (tick w))"
    using clock_le [of "tick w" "tick w1"] clock_le [of t0 "Suc (tick w)"] step(1) t(1) by auto
  have "left w1 \<le> budget D L (live (?c (tick w)) (rl_key key) (view (vk w1)))"
    unfolding left_def by (rule budget_time [OF now(1) t(2)])
  moreover have "(if k = key \<and> ok then 1 else 0) + budget D L (live (?c (tick w)) (rl_key key) (view (vk w1))) \<le> left w"
  proof (cases "k = key")
    case True
    have "?c (tick w) < D" "D \<le> ?c (Suc (tick w)) + Hour" using now t window by auto
    then show ?thesis
      using step(2) counted_budget [of "sv_kv sv" view key Hour w w1 D ok L] k True by (auto simp: left_def)
  next
    case False
    then have "view (vk w1) (rl_key key) = view (vk w) (rl_key key)" using step(2) counted_other by metis
    then show ?thesis using False by (simp add: left_def live_def)
  qed
  ultimately show ?thesis by auto
qed

lemma Allow_logs: "Allow kv k l n w = (x, w1) \<Longrightarrow> logs w1 = logs w"
  by (auto simp: Allow_def Let_def dest!: kv_do_eqD split: prod.splits sum.splits if_splits)

lemma Allow_charged:
  assumes "Allow (sv_kv sv) k l n w = ((ok, r), w1)" "k = key \<Longrightarrow> l = L \<and> n = Hour"
  shows "charged w w1"
  using Allow_left [OF assms] Allow_counter(1) [OF spec assms(1)] Allow_logs [OF assms(1)]
  by (auto simp: charged_def asked_def split: if_splits)

text \<open>A call that is granted, and the line it allows.\<close>

lemma granted_line:
  assumes "Allow (sv_kv sv) k l n w = ((True, r), w1)" "k = key \<Longrightarrow> l = L \<and> n = Hour"
    and "msg = m \<Longrightarrow> map_of attrs ''user_id'' = Some uid \<Longrightarrow> k = key"
  shows "charged w (log_line msg attrs w1)"
proof -
  have "asked m uid (log_line msg attrs w1) = asked m uid w + (if msg = m \<and> map_of attrs ''user_id'' = Some uid then 1 else 0)"
    using Allow_logs [OF assms(1)] by (simp add: asked_def log_line_def)
  moreover have "left (log_line msg attrs w1) = left w1" by (simp add: left_def)
  ultimately show ?thesis
    using Allow_left [OF assms(1,2)] Allow_counter(1) [OF spec assms(1)] assms(3)
    by (auto simp: charged_def split: if_splits)
qed

section \<open>Every handler pays\<close>

definition pays :: "'k handler \<Rightarrow> bool" where
  "pays h \<longleftrightarrow> (\<forall>r wr w p wr' w'. h r (wr, w) = (p, wr', w') \<longrightarrow> charged w w')"

lemma paysI: "(\<And>r wr w p wr' w'. h r (wr, w) = (p, wr', w') \<Longrightarrow> charged w w') \<Longrightarrow> pays h"
  by (simp add: pays_def)

lemma paysD: "pays h \<Longrightarrow> h r (wr, w) = (p, wr', w') \<Longrightarrow> charged w w'"
  unfolding pays_def by blast

lemma quiet_pays: "(\<And>r wr w p wr' w'. h r (wr, w) = (p, wr', w') \<Longrightarrow> quiet view w w') \<Longrightarrow> pays h"
  by (rule paysI) (blast intro: charged_quiet)

lemma with_user_pays: "(\<And>u. pays (h u)) \<Longrightarrow> pays (with_user h)"
  by (rule paysI) (auto simp: with_user_def split: option.splits dest: paysD)

lemma rate_limited_pays:
  assumes "pays h" "k \<noteq> key"
  shows "pays (rate_limited sv k l n extra h)"
proof (rule paysI)
  fix r wr w p wr' w'
  assume e: "rate_limited sv k l n extra h r (wr, w) = (p, wr', w')"
  obtain ok retry w1 where a: "Allow (sv_kv sv) k l n w = ((ok, retry), w1)" by (metis prod.collapse)
  have "charged w w1" by (rule Allow_charged [OF a]) (use assms(2) in simp)
  then show "charged w w'"
    using e by (cases ok) (auto simp: rate_limited_def a intro: charged_trans dest: paysD [OF assms(1)])
qed

lemma RequireUser_pays: "pays h \<Longrightarrow> pays (RequireUser e jw sm h)"
  by (rule paysI) (auto simp: RequireUser_def split: prod.splits sum.splits dest!: user_quiet(3)
      intro: charged_quiet charged_after dest: paysD)

lemma active_pays:
  assumes "pays h"
  shows "pays (RequireActiveUser sv h)"
  unfolding RequireActiveUser_def
  by (rule RequireUser_pays, rule with_user_pays, rule paysI)
    (auto split: prod.splits sum.splits bool.splits dest!: user_quiet(1) paysD [OF assms]
      intro: charged_quiet quiet_trans [OF _ quiet_log] charged_after)

lemma foreign_keys: "''webhook:create:'' @ u \<noteq> key" "''hook:'' @ b \<noteq> key" "visitor_key r \<noteq> key"
  using kind by (auto simp: smtp_kinds_def visitor_key_def)

lemma bins_pay:
  "pays (handleCreateBin sv)" "pays (handleListBins sv)" "pays (handleGetBin sv)" "pays (handleDeleteBin sv)"
  "pays (handleClearHits sv)" "pays (handleListHits sv)" "pays (handleGetHit sv)"
proof -
  show "pays (handleCreateBin sv)"
    unfolding handleCreateBin_def
    by (rule with_user_pays, rule rate_limited_pays [OF _ foreign_keys(1)], rule quiet_pays)
      (auto split: prod.splits sum.splits dest!: store_quiet)
  show "pays (handleListBins sv)" "pays (handleDeleteBin sv)" "pays (handleClearHits sv)" "pays (handleGetHit sv)"
    unfolding handleListBins_def handleDeleteBin_def handleClearHits_def handleGetHit_def Let_def
    by (rule with_user_pays, rule quiet_pays, auto split: prod.splits sum.splits dest!: store_quiet ClearHits_quiet)+
  show "pays (handleGetBin sv)" "pays (handleListHits sv)"
    unfolding handleGetBin_def handleListHits_def Let_def
    by (rule with_user_pays, rule quiet_pays, auto split: prod.splits sum.splits dest!: store_quiet intro: quiet_trans)+
qed

lemma ingest_pays: "pays (handleHookIngest sv)"
proof (rule paysI)
  fix r wr w p wr' w'
  assume e: "handleHookIngest sv r (wr, w) = (p, wr', w')"
  let ?b = "PathValue r ''id''"
  have c: "pays (capture sv ?b)"
    by (rule quiet_pays) (auto simp: capture_def split: prod.splits sum.splits if_splits dest!: Ingest_quiet)
  have rl: "pays (rate_limited sv (''hook:'' @ ?b) 120 Minute [] (capture sv ?b))"
    by (rule rate_limited_pays [OF c foreign_keys(2)])
  obtain x w1 where a: "PublicExists (sv_env sv) (hooks sv) ?b w = (x, w1)" by fastforce
  have q: "quiet view w w1" by (rule PublicExists_quiet [OF a])
  show "charged w w'"
    using e q charged_after [OF q] paysD [OF rl, of r wr w1]
    by (auto simp: handleHookIngest_def Let_def a charged_quiet split: if_splits bool.splits)
qed

lemma visitor_pays: "pays (handleVisitorEvent sv)"
proof (rule paysI)
  fix r wr w p wr' w'
  assume e: "handleVisitorEvent sv r (wr, w) = (p, wr', w')"
  obtain ok retry w1 where a: "Allow (sv_kv sv) (visitor_key r) 60 Minute w = ((ok, retry), w1)"
    by (metis prod.collapse)
  have 1: "charged w w1" by (rule Allow_charged [OF a]) (use foreign_keys(3) in simp)
  have q: "quiet view w1 w'" if ok
    using e that
    by (auto simp: handleVisitorEvent_def a visitor_event_def hooks_def [symmetric] Let_def
        split: prod.splits sum.splits option.splits if_splits dest!: user_quiet(3)
        intro: quiet_trans [OF _ track_job_quiet])
  show "charged w w'"
    using e 1 charged_before [OF 1 q] by (cases ok) (auto simp: handleVisitorEvent_def a)
qed

lemma public_pay:
  "pays (handleHealthz sv)" "pays (handleReadyz sv)" "pays (auth_Status g)" "pays (Logout sm)" "pays (Me e jw sm)"
  "pays (Begin e ol g sm)"
proof -
  show "pays (handleHealthz sv)" "pays (handleReadyz sv)" "pays (auth_Status g)" "pays (Logout sm)"
    by (rule quiet_pays, auto simp: handleHealthz_def handleReadyz_def auth_Status_def Logout_def Let_def time_Now_def
        intro: quiet_same)+
  show "pays (Me e jw sm)"
    by (rule quiet_pays) (auto simp: Me_def split: prod.splits sum.splits dest!: user_quiet(3))
  show "pays (Begin e ol g sm)"
    by (rule quiet_pays) (auto simp: Begin_def Let_def split: prod.splits sum.splits if_splits dest!: user_quiet(5)
        intro: quiet_trans [OF _ quiet_log])
qed

lemma callback_pays: "pays (Callback e jw ol g sm)"
proof (rule quiet_pays)
  fix r wr p wr' and w w' :: "'k world"
  assume e: "Callback e jw ol g sm r (wr, w) = (p, wr', w')"
  have b: "quiet view w (bump w)" by (rule bump_quiet)
  have s: "callback_session e jw g sm pp r (wr, v) = (p, wr', v') \<Longrightarrow> quiet view v v'" for pp and v v' :: "'k world"
    by (auto simp: callback_session_def Let_def split: prod.splits option.splits dest!: user_quiet(6)
        intro: quiet_trans [OF _ quiet_log])
  show "quiet view w w'"
    using e b
    by (auto simp: Callback_def quiet_log split: prod.splits sum.splits option.splits if_splits
        dest!: user_quiet(2,4) s intro!: quiet_trans [OF _ quiet_log]) (auto simp: quiet_def)
qed

lemma tester_pays:
  assumes h: "\<And>r wr w p wr' w'. h r (wr, w) = (p, wr', w') \<Longrightarrow>
      w' = w \<or> (\<exists>attrs. map_of attrs ''user_id'' = Some (ID u) \<and> quiet view (log_line msg attrs w) w')"
    and k: "(msg, k, l) \<in> set (smtp_kinds (ID u))"
  shows "pays (rate_limited sv k l Hour extra h)"
proof (rule paysI)
  fix r wr w p wr' w'
  assume e: "rate_limited sv k l Hour extra h r (wr, w) = (p, wr', w')"
  obtain ok retry w1 where a: "Allow (sv_kv sv) k l Hour w = ((ok, retry), w1)" by (metis prod.collapse)
  have lim: "k = key \<Longrightarrow> l = L \<and> Hour = Hour" using k kind by (auto simp: smtp_kinds_def)
  have line: "msg = m \<Longrightarrow> ID u = uid \<Longrightarrow> k = key" using k kind by (auto simp: smtp_kinds_def)
  have 1: "charged w w1" by (rule Allow_charged [OF a lim])
  show "charged w w'"
  proof (cases ok)
    case True
    then have "h r (wr, w1) = (p, wr', w')" using e by (simp add: rate_limited_def a)
    from h [OF this] show ?thesis
    proof
      assume "\<exists>attrs. map_of attrs ''user_id'' = Some (ID u) \<and> quiet view (log_line msg attrs w1) w'"
      then obtain attrs where at: "map_of attrs ''user_id'' = Some (ID u)" "quiet view (log_line msg attrs w1) w'" by blast
      have "charged w (log_line msg attrs w1)"
        by (rule granted_line [OF a [unfolded eqTrueI [OF True]] lim]) (use line at(1) in auto)
      then show ?thesis by (rule charged_before [OF _ at(2)])
    qed (use 1 in simp)
  qed (use e 1 in \<open>simp add: rate_limited_def a\<close>)
qed

lemma smtp_pays: "pays (handleSMTPTest sv)" "pays (handleSMTPCheckAuth sv)"
proof -
  show "pays (handleSMTPTest sv)"
    unfolding handleSMTPTest_def
  proof (rule with_user_pays)
    fix u
    show "pays (rate_limited sv (''smtp:'' @ ID u) 10 Hour [(''limitPerHour'', JInt 10)]
       (\<lambda>r s. case s of (wr, w) \<Rightarrow>
          (case read_limited 65536 r of
             Inl _ \<Rightarrow> (None, writeJSON 400 (err_obj ''invalid body'') wr, w)
           | Inr bytes \<Rightarrow>
          (case lib_smtp sv bytes of
             None \<Rightarrow> (None, writeJSON 400 (err_obj ''invalid JSON body'') wr, w)
           | Some req \<Rightarrow>
               (let w = log_line ''smtp test requested''
                      [(''user_id'', ID u), (''host'', rq_host req), (''port'', Itoa (rq_port req)),
                       (''security'', rq_security req), (''from'', rq_from req), (''to'', rq_to req)] w
                in case RunTest (sv_env sv) (lib_rfc3339 sv) (lib_peer sv (tick w)) (lib_bad64 sv) req w of
                     ((res, _), w) \<Rightarrow> (None, writeJSON (if r_ok res then 200 else 422) (result_json res) wr, w))))))"
      by (rule tester_pays [where msg = "''smtp test requested''"])
        (auto simp: Let_def smtp_kinds_def split: sum.splits option.splits prod.splits dest!: RunTest_quiet
          intro!: exI [of _ "(''user_id'', ID u) # attrs" for attrs])
  qed
  show "pays (handleSMTPCheckAuth sv)"
    unfolding handleSMTPCheckAuth_def
  proof (rule with_user_pays)
    fix u
    show "pays (rate_limited sv (''smtp-auth:'' @ ID u) 30 Hour [(''limitPerHour'', JInt 30)]
       (\<lambda>r s. case s of (wr, w) \<Rightarrow>
          (case read_limited 16384 r of
             Inl _ \<Rightarrow> (None, writeJSON 400 (err_obj ''invalid body'') wr, w)
           | Inr bytes \<Rightarrow>
          (case lib_check sv bytes of
             None \<Rightarrow> (None, writeJSON 400 (err_obj ''invalid JSON body'') wr, w)
           | Some req \<Rightarrow>
               (let w = log_line ''smtp auth check requested''
                      [(''user_id'', ID u), (''host'', ac_host req), (''port'', Itoa (ac_port req)),
                       (''security'', ac_security req)] w
                in case CheckAuth (lib_peer sv (tick w)) (lib_bad64 sv) req of
                     (res, _) \<Rightarrow> (None, writeJSON (if a_ok res then 200 else 422) (check_json res) wr, bump w))))))"
      by (rule tester_pays [where msg = "''smtp auth check requested''"])
        (auto simp: Let_def smtp_kinds_def split: sum.splits option.splits prod.splits
          intro!: bump_quiet exI [of _ "(''user_id'', ID u) # attrs" for attrs])
  qed
qed

section \<open>Every request pays\<close>

lemma public_route_pays: "rt \<in> set (public_routes sv) \<Longrightarrow> pays (rt_handler rt)"
  by (auto simp: public_routes_def route_to_def intro: public_pay callback_pays visitor_pays)

lemma cloud_table_pays: "(t, p, h) \<in> set (cloud_table sv) \<Longrightarrow> pays h"
  by (auto simp: cloud_table_def intro: smtp_pays bins_pay)

lemma cloud_route_pays: "rt \<in> set (cloud_routes sv) \<Longrightarrow> pays (rt_handler rt)"
  unfolding cloud_routes_def by (auto simp: route_to_def intro!: active_pays dest: cloud_table_pays)

lemma hook_route_pays: "rt \<in> set (hook_routes sv) \<Longrightarrow> pays (rt_handler rt)"
  by (auto simp: hook_routes_def route_to_def intro: ingest_pays)

lemma route_pays: "rt \<in> set (routes sv) \<Longrightarrow> pays (rt_handler rt)"
  using public_route_pays cloud_route_pays hook_route_pays unfolding routes_def by auto

lemma mux_pays: "pays (ServeMux clean (routes sv))"
proof (rule paysI)
  fix r wr w p wr' w'
  assume e: "ServeMux clean (routes sv) r (wr, w) = (p, wr', w')"
  show "charged w w'"
  proof (cases "clean r = None \<and> find (route_matches r) (routes sv) \<noteq> None")
    case True
    then obtain rt where rt: "find (route_matches r) (routes sv) = Some rt" by blast
    have "pays (rt_handler rt)" by (rule route_pays) (use find_Some_mem [OF rt] in simp)
    from paysD [OF this] show ?thesis using e True rt by (simp add: ServeMux_def run_route_def)
  qed (use e in \<open>auto simp: ServeMux_def split: option.splits if_splits\<close>)
qed

lemma serve_charged: "charged w (snd (serve sv r w))"
proof -
  obtain p wr w1 where i: "inner_handler sv r (front_writer (sv_origins sv) r, bump w) = (p, wr, w1)"
    by (metis prod.collapse)
  have 1: "charged (bump w) w1"
    using i paysD [OF mux_pays] by (auto simp: inner_handler_def split: if_splits)
  have 2: "quiet view w1 (snd (serve sv r w))"
    unfolding serve_result [OF i] snd_conv by (rule quiet_trans [OF bump_quiet quiet_log]) simp
  show ?thesis by (rule charged_after [OF bump_quiet charged_before [OF 1 2]])
qed

lemma requests_charged: "charged w (fold (\<lambda>r w. snd (serve sv r w)) rs w)"
  by (induction rs arbitrary: w) (auto intro: charged_trans serve_charged)

end

text \<open>
  C12. The SMTP tester is rationed through the whole server: in any run of requests by anyone
  that takes less than an hour, whatever fails, a user gets through to at most twice 10 test
  mails and twice 30 credential checks, and to at most 10 and 30 if the user's counter was
  not running at the start.
\<close>

theorem smtp_tests_are_rationed:
  assumes "valkey_spec (sv_kv sv) view" and "mono (kv_clock (sv_kv sv))"
    and "(m, key, L) \<in> set (smtp_kinds uid)"
    and "fold (\<lambda>r w. snd (serve sv r w)) rs w = w'"
    and "kv_clock (sv_kv sv) (tick w') < kv_clock (sv_kv sv) (tick w) + Hour"
    and "0 \<le> count_of (counter (sv_kv sv) view key w)"
  shows "int (asked m uid w') \<le> int (asked m uid w) + 2 * L \<and>
    (counter (sv_kv sv) view key w = None \<longrightarrow> int (asked m uid w') \<le> int (asked m uid w) + L)"
proof -
  let ?D = "kv_clock (sv_kv sv) (tick w) + Hour"
  have b: "smtp_budget sv view m key uid L (tick w) ?D"
    by unfold_locales (use assms(1-3) in auto)
  have "smtp_budget.charged sv view m key uid L (tick w) ?D w w'"
    using smtp_budget.requests_charged [OF b, of w rs] unfolding assms(4) .
  then have c: "int (asked m uid w') + smtp_budget.left sv view key L ?D w' \<le> int (asked m uid w) + smtp_budget.left sv view key L ?D w"
    using assms(5) by (simp add: smtp_budget.charged_def [OF b])
  have L: "0 \<le> L" using assms(3) by (auto simp: smtp_kinds_def)
  have "0 \<le> smtp_budget.left sv view key L ?D w'" "smtp_budget.left sv view key L ?D w \<le> 2 * L"
    using budget_nonneg budget_le [OF assms(6) L] by (simp_all add: smtp_budget.left_def [OF b])
  moreover have "smtp_budget.left sv view key L ?D w \<le> L" if "counter (sv_kv sv) view key w = None"
    using that L by (simp add: smtp_budget.left_def [OF b] budget_def)
  ultimately show ?thesis using c by auto
qed

text \<open>Both rations on a Valkey in memory that takes a millisecond for each interaction.\<close>

interpretation tests: smtp_budget "sv\<lparr>sv_kv := mem_valkey (\<lambda>n. T + 1000000 * int n) down\<rparr>" id
    "''smtp test requested''" "''smtp:'' @ uid" uid 10 t0 "T + 1000000 * int t0 + Hour" for sv T down uid t0
  by unfold_locales (simp_all add: mem_valkey_spec smtp_kinds_def mono_def, simp_all add: mem_valkey_def)

interpretation checks: smtp_budget "sv\<lparr>sv_kv := mem_valkey (\<lambda>n. T + 1000000 * int n) down\<rparr>" id
    "''smtp auth check requested''" "''smtp-auth:'' @ uid" uid 30 t0 "T + 1000000 * int t0 + Hour" for sv T down uid t0
  by unfold_locales (simp_all add: mem_valkey_spec smtp_kinds_def mono_def, simp_all add: mem_valkey_def)

theorem smtp_tests_are_rationed_witness:
  "asked ''smtp test requested'' ''u1''
     (fold (\<lambda>r w. snd (serve demo_server r w)) (replicate 50 bins_request) (demo_world empty_db)) \<le> 10"
proof -
  let ?w = "fold (\<lambda>r w. snd (serve demo_server r w)) (replicate 50 bins_request) (demo_world empty_db)"
  have n: "counter (mem_valkey (\<lambda>_. 10 * Second) (\<lambda>_. False)) id (''smtp:'' @ ''u1'') (demo_world empty_db) = None"
    by (simp add: live_def demo_world_def)
  have k: "(''smtp test requested'', ''smtp:'' @ ''u1'', 10) \<in> set (smtp_kinds ''u1'')"
    by (simp add: smtp_kinds_def)
  have c: "mono (kv_clock (sv_kv demo_server))" "kv_clock (sv_kv demo_server) i < kv_clock (sv_kv demo_server) j + Hour" for i j
    by (simp_all add: mem_valkey_def mono_def Hour_def Minute_def Second_def)
  have "valkey_spec (sv_kv demo_server) id" by (simp add: mem_valkey_spec)
  from smtp_tests_are_rationed [OF this c(1) k refl c(2), where rs = "replicate 50 bins_request" and w = "demo_world empty_db"] n
  have "int (asked ''smtp test requested'' ''u1'' ?w) \<le> int (asked ''smtp test requested'' ''u1'' (demo_world empty_db)) + 10"
    by (simp add: count_of_def)
  then show ?thesis by (simp add: asked_def demo_world_def)
qed

end
