(* ===== verification/Smtp_Exchange.thy ===== *)
theory Smtp_Exchange
  imports Smtp_Tester
begin

text \<open>
  The length of an SMTP conversation. No call of \<^verbatim>\<open>internal/smtp\<close> sets a deadline on
  its connection, so how often it waits for the far end is what bounds it. Whatever the server
  answers, no refusal, missing extension or failed handshake makes the code repeat itself.
\<close>

section \<open>Events a step adds\<close>

text \<open>\<open>adds n c c'\<close>: at most \<open>n\<close> events, and a finished EHLO stays finished.\<close>

definition adds :: "nat \<Rightarrow> client \<Rightarrow> client \<Rightarrow> bool" where
  "adds n c c' \<longleftrightarrow> length (c_log c') \<le> length (c_log c) + n \<and> (c_hello c \<longrightarrow> c_hello c')"

lemma adds_refl [simp]: "adds n c c"
  by (simp add: adds_def)

lemma adds_trans: "adds m a b \<Longrightarrow> adds n b c \<Longrightarrow> m + n \<le> k \<Longrightarrow> adds k a c"
  by (simp add: adds_def)

lemma adds_le: "adds m a b \<Longrightarrow> m \<le> n \<Longrightarrow> adds n a b"
  by (simp add: adds_def)

lemma adds_upd [simp]:
  "adds n (c\<lparr>c_tls := x\<rparr>) c' = adds n c c'" "adds n c (c'\<lparr>c_tls := x\<rparr>) = adds n c c'"
  "adds n (c\<lparr>c_ext := y\<rparr>) c' = adds n c c'" "adds n c (c'\<lparr>c_ext := y\<rparr>) = adds n c c'"
  "adds n c (c'\<lparr>c_hello_err := u\<rparr>) = adds n c c'"
  by (simp_all add: adds_def)

lemma ask_adds: "ask peer ev n c = (r, c') \<Longrightarrow> adds 1 c c'"
  by (auto simp: adds_def dest!: ask_eqD)

lemma ehlo_adds: "ehlo peer c = (r, c') \<Longrightarrow> adds 1 c c'"
  by (auto simp: ehlo_def split: prod.splits sum.splits dest!: ask_adds)

lemma helo_adds: "helo peer c = (r, c') \<Longrightarrow> adds 1 c c' \<and> c_ext c' = None"
proof -
  assume h: "helo peer c = (r, c')"
  obtain q c1 where q: "ask peer (Cmd ''HELO localhost'') 250 (c\<lparr>c_ext := None\<rparr>) = (q, c1)" by fastforce
  then have "c' = c1" using h by (auto simp: helo_def split: sum.splits)
  then show ?thesis using ask_adds [OF q] ask_eqD [OF q] by simp
qed

lemma hello_known [simp]: "c_hello c \<Longrightarrow> hello peer c = (c_hello_err c, c)"
  by (simp add: hello_def)

text \<open>Finding an extension cost one EHLO; a HELO after a refused EHLO finds none.\<close>

lemma Extension_adds:
  assumes "Extension peer x c = (found, c')"
  shows "c_hello c'" "adds (if c_hello c then 0 else if found then 1 else 2) c c'"
proof -
  obtain h c1 where h: "hello peer c = (h, c1)" by fastforce
  then have c': "c' = c1" "found \<Longrightarrow> has_ext c1 x" using assms by (auto simp: Extension_def split: option.splits)
  show hd: "c_hello c'" using hello_done [of peer c] h c' by simp
  show "adds (if c_hello c then 0 else if found then 1 else 2) c c'"
  proof (cases "c_hello c")
    case True
    then show ?thesis using h c' by simp
  next
    case False
    obtain r1 c2 where 1: "ehlo peer (c\<lparr>c_hello := True\<rparr>) = (r1, c2)" by fastforce
    obtain r2 c3 where 2: "helo peer c2 = (r2, c3)" by fastforce
    have l: "length (c_log c2) \<le> length (c_log c) + 1" "length (c_log c3) \<le> length (c_log c2) + 1" "c_ext c3 = None"
      using ehlo_adds [OF 1] helo_adds [OF 2] by (simp_all add: adds_def)
    have "c1 = (case r1 of Inr _ \<Rightarrow> c2 | Inl _ \<Rightarrow>
        (case r2 of Inl er \<Rightarrow> c3\<lparr>c_hello_err := Some er\<rparr> | Inr _ \<Rightarrow> c3\<lparr>c_hello_err := None\<rparr>))"
      using h False 1 2 by (auto simp: hello_def split: sum.splits)
    then show ?thesis
      using l c' False hd by (auto simp: adds_def has_ext_def split: sum.splits)
  qed
qed

lemma Quit_adds: "c_hello c \<Longrightarrow> Quit peer c = (r, c') \<Longrightarrow> adds 1 c c'"
  by (auto simp: Quit_def cmd_line_def split: option.splits prod.splits sum.splits dest!: ask_adds)

lemma StartTLS_adds:
  assumes "c_hello c" "StartTLS peer name c = (r, c')"
  shows "adds 3 c c'"
proof -
  obtain r1 c1 where 1: "ask peer (Cmd ''STARTTLS'') 220 c = (r1, c1)" by fastforce
  obtain r2 c2 where 2: "ask peer (Handshake name) 0 c1 = (r2, c2)" by fastforce
  obtain r3 c3 where 3: "ehlo peer (c2\<lparr>c_tls := True\<rparr>) = (r3, c3)" by fastforce
  have "c' \<in> {c, c1, c2\<lparr>c_tls := True\<rparr>, c3}"
    using assms 1 2 3 by (auto simp: StartTLS_def cmd_line_def split: option.splits sum.splits)
  then show ?thesis
    using ask_adds [OF 1] ask_adds [OF 2] ehlo_adds [OF 3] by (auto simp: adds_def)
qed

lemma Auth_adds:
  assumes "c_hello c" "Auth peer bad64 a c = (r, c')"
  shows "adds (if isl r then 3 else 1) c c'"
proof (cases "c_hello_err c")
  case (Some er)
  then show ?thesis using assms by (simp add: Auth_def)
next
  case None
  show ?thesis
  proof (cases "plain_Start a c")
    case (Inl er)
    then have "r = Inl er" "c' = snd (Quit peer c)" using assms None by (simp_all add: Auth_def)
    moreover have "adds 1 c (snd (Quit peer c))" using Quit_adds [OF assms(1)] by (metis prod.collapse)
    ultimately show ?thesis by (auto intro: adds_le)
  next
    case (Inr resp)
    obtain x c1 where 1: "cmd_line peer 0 (auth_cmd resp) c = (x, c1)" by fastforce
    obtain y c2 where 2: "cmd_line peer 501 ''*'' c1 = (y, c2)" by fastforce
    obtain z c3 where 3: "Quit peer c2 = (z, c3)" by fastforce
    note a1 = ask_adds [OF 1 [unfolded cmd_line_def]] and a2 = ask_adds [OF 2 [unfolded cmd_line_def]]
    have "c_hello c2" using a1 a2 assms(1) by (simp add: adds_def)
    note a3 = Quit_adds [OF this 3]
    have "c' = c1 \<or> isl r \<and> c' = c3"
      using assms None Inr 1 2 3 by (auto simp: Auth_def Let_def split: sum.splits prod.splits if_splits)
    then show ?thesis using a1 a2 a3 by (auto simp: adds_def)
  qed
qed

lemma wrapf_pair: "wrapf p x = (r, c') \<Longrightarrow> \<exists>q. x = (q, c') \<and> (isl r \<longleftrightarrow> isl q)"
  by (cases x; cases "fst x") (auto simp: wrapf_def)

lemma doAuth_adds:
  assumes "doAuth peer bad64 a c = (r, c')"
  shows "c_hello c'" "adds ((if c_hello c then 0 else 1) + (if isl r then 3 else 1)) c c'"
proof -
  obtain f c1 where e: "Extension peer ''AUTH'' c = (f, c1)" by fastforce
  note x = Extension_adds [OF e]
  consider "\<not> f" "isl r" "c' = c1" | q where "f" "Auth peer bad64 a c1 = (q, c')" "isl r \<longleftrightarrow> isl q"
    using assms e by (cases f) (auto simp: doAuth_def dest: wrapf_pair)
  then have "c_hello c' \<and> adds ((if c_hello c then 0 else 1) + (if isl r then 3 else 1)) c c'"
  proof cases
    case 1
    then show ?thesis using x by (auto split: if_splits elim: adds_le)
  next
    case 2
    note y = Auth_adds [OF x(1) 2(2)]
    have "c_hello c'" using y x(1) by (simp add: adds_def)
    then show ?thesis using x y 2 by (auto intro!: adds_trans [OF x(2) y])
  qed
  then show "c_hello c'" "adds ((if c_hello c then 0 else 1) + (if isl r then 3 else 1)) c c'" by blast+
qed

lemma upgrade_adds:
  assumes "upgrade peer host c = (r, c')"
  shows "c_hello c'" "adds 4 c c'"
proof -
  obtain f c1 where e: "Extension peer ''STARTTLS'' c = (f, c1)" by fastforce
  note x = Extension_adds [OF e]
  consider "c' = c1" "\<not> f" | q where "f" "StartTLS peer host c1 = (q, c')"
    using assms e by (cases f) (auto simp: upgrade_def dest: wrapf_pair)
  then have "c_hello c' \<and> adds 4 c c'"
  proof cases
    case 2
    note y = StartTLS_adds [OF x(1) 2(2)]
    then show ?thesis using x 2 by (auto simp: adds_def split: if_splits)
  qed (use x in \<open>auto elim: adds_le split: if_splits\<close>)
  then show "c_hello c'" "adds 4 c c'" by blast+
qed

lemma unit_result_pair: "unit_result x = (r, c') \<Longrightarrow> \<exists>q. x = (q, c')"
  by (cases x) (auto simp: unit_result_def)

lemma Mail_adds: "c_hello c \<Longrightarrow> Mail peer sender c = (r, c') \<Longrightarrow> adds 1 c c'"
  by (auto simp: Mail_def cmd_line_def split: option.splits prod.splits sum.splits dest!: ask_adds)

lemma Rcpt_adds: "Rcpt peer rcpt c = (r, c') \<Longrightarrow> adds 1 c c'"
  by (auto simp: Rcpt_def cmd_line_def split: option.splits prod.splits sum.splits dest!: ask_adds)

lemma data_adds:
  "Data peer c = (r, c') \<Longrightarrow> adds 1 c c'" "data_Write peer msg c = (r, c') \<Longrightarrow> adds 1 c c'"
  "data_Close peer c = (r, c') \<Longrightarrow> adds 1 c c'"
  by (auto simp: Data_def data_Write_def data_Close_def cmd_line_def dest!: unit_result_pair ask_adds)

lemma dataSend_adds:
  assumes "c_hello c" "dataSend peer sender rcpt msg c = (r, c')"
  shows "adds 6 c c'"
proof -
  obtain r1 c1 where 1: "wrapf ''MAIL FROM'' (Mail peer sender c) = (r1, c1)" by fastforce
  obtain r2 c2 where 2: "wrapf ''RCPT TO'' (Rcpt peer rcpt c1) = (r2, c2)" by fastforce
  obtain r3 c3 where 3: "wrapf ''DATA'' (Data peer c2) = (r3, c3)" by fastforce
  obtain r4 c4 where 4: "wrapf ''write body'' (data_Write peer msg c3) = (r4, c4)" by fastforce
  obtain r5 c5 where 5: "wrapf ''end DATA'' (data_Close peer c4) = (r5, c5)" by fastforce
  obtain r6 c6 where 6: "wrapf ''QUIT'' (Quit peer c5) = (r6, c6)" by fastforce
  have a: "adds 1 c c1" "adds 1 c1 c2" "adds 1 c2 c3" "adds 1 c3 c4" "adds 1 c4 c5"
    using wrapf_pair [OF 1] wrapf_pair [OF 2] wrapf_pair [OF 3] wrapf_pair [OF 4] wrapf_pair [OF 5]
    by (auto dest: Mail_adds [OF assms(1)] Rcpt_adds data_adds)
  then have "c_hello c5" using assms(1) by (simp add: adds_def)
  then have "adds 1 c5 c6" using wrapf_pair [OF 6] Quit_adds by blast
  moreover have "c' \<in> {c1, c2, c3, c4, c5, c6}"
    using assms(2) 1 2 3 4 5 6 by (auto simp: dataSend_def split: sum.splits)
  ultimately show ?thesis using a by (auto simp: adds_def)
qed

section \<open>Whole conversations\<close>

lemma dial_length:
  assumes "\<And>r c'. act (fresh_client host tls [ev, Greeting]) = (r, c') \<Longrightarrow> adds n (fresh_client host tls [ev, Greeting]) c'"
  shows "length (snd (dial peer ev what (with_client peer host tls act))) \<le> n + 3"
proof -
  obtain r c' where c: "act (fresh_client host tls [ev, Greeting]) = (r, c')" by fastforce
  then show ?thesis
    using dial_log [of peer ev what host tls act] assms [OF c] by (auto simp: adds_def fresh_client_def)
qed

lemma fresh_hello [simp]: "c_hello (fresh_client host tls log) = False"
  by (simp add: fresh_client_def)

lemma authOverConn_adds:
  assumes "\<not> c_hello c" "authOverConn peer bad64 a c = (r, c')"
  shows "adds 4 c c'"
proof -
  obtain r1 c1 where 1: "doAuth peer bad64 a c = (r1, c1)" by fastforce
  obtain r2 c2 where 2: "Quit peer c1 = (r2, c2)" by fastforce
  show ?thesis
    using assms doAuth_adds [OF 1] Quit_adds [OF doAuth_adds(1) [OF 1] 2] 1 2
    by (cases r1) (auto simp: authOverConn_def adds_def)
qed

lemma smtpOverConn_adds:
  assumes "\<not> c_hello c" "smtpOverConn peer bad64 a sender rcpt msg c = (r, c')"
  shows "adds 8 c c'"
proof -
  obtain r1 c1 where 1: "doAuth peer bad64 a c = (r1, c1)" by fastforce
  show ?thesis
    using assms doAuth_adds [OF 1] dataSend_adds [OF doAuth_adds(1) [OF 1]] 1
    by (cases r1) (fastforce simp: smtpOverConn_def adds_def)+
qed

lemma starttls_check_adds:
  assumes "(case upgrade peer host c of (Inl er, c) \<Rightarrow> (Inl er, c) | (Inr _, c) \<Rightarrow> doAuth peer bad64 a c) = (r, c')"
  shows "adds 7 c c'"
proof -
  obtain r1 c1 where 1: "upgrade peer host c = (r1, c1)" by fastforce
  show ?thesis
    using assms upgrade_adds [OF 1] doAuth_adds(2) [of peer bad64 a c1] 1
    by (cases r1) (fastforce simp: adds_def split: if_splits)+
qed

lemma starttls_send_adds:
  assumes "(case upgrade peer host c of (Inl er, c) \<Rightarrow> (Inl er, c)
    | (Inr _, c) \<Rightarrow> (case doAuth peer bad64 a c of (Inl er, c) \<Rightarrow> (Inl er, c)
        | (Inr _, c) \<Rightarrow> dataSend peer sender rcpt msg c)) = (r, c')"
  shows "adds 11 c c'"
proof -
  obtain r1 c1 where 1: "upgrade peer host c = (r1, c1)" by fastforce
  obtain r2 c2 where 2: "doAuth peer bad64 a c1 = (r2, c2)" by fastforce
  note u = upgrade_adds [OF 1] and d = doAuth_adds [OF 2]
  consider "c' = c1" | "c' = c2" "isl r2" | "\<not> isl r2" "dataSend peer sender rcpt msg c2 = (r, c')"
    using assms 1 2 by (cases r1; cases r2) auto
  then show ?thesis
    using u d dataSend_adds [OF d(1)] by cases (fastforce simp: adds_def)+
qed

lemma send_lengths:
  "length (snd (sendImplicitTLS peer bad64 addr host a sender rcpt msg)) \<le> 11"
  "length (snd (sendPlain peer bad64 addr host a sender rcpt msg)) \<le> 11"
  "length (snd (sendSTARTTLS peer bad64 addr host a sender rcpt msg)) \<le> 14"
proof -
  have over: "length (snd (dial peer ev what (with_client peer host tls (smtpOverConn peer bad64 a sender rcpt msg)))) \<le> 8 + 3"
    for ev what tls by (rule dial_length) (erule smtpOverConn_adds [rotated], simp)
  show "length (snd (sendImplicitTLS peer bad64 addr host a sender rcpt msg)) \<le> 11"
    "length (snd (sendPlain peer bad64 addr host a sender rcpt msg)) \<le> 11"
    using over by (simp_all add: sendImplicitTLS_def sendPlain_def)
  have "length (snd (sendSTARTTLS peer bad64 addr host a sender rcpt msg)) \<le> 11 + 3"
    unfolding sendSTARTTLS_def by (rule dial_length) (erule starttls_send_adds)
  then show "length (snd (sendSTARTTLS peer bad64 addr host a sender rcpt msg)) \<le> 14" by simp
qed

lemma check_lengths:
  "length (snd (authImplicitTLS peer bad64 addr host a)) \<le> 7"
  "length (snd (authPlain peer bad64 addr host a)) \<le> 7"
  "length (snd (authSTARTTLS peer bad64 addr host a)) \<le> 10"
proof -
  have over: "length (snd (dial peer ev what (with_client peer host tls (authOverConn peer bad64 a)))) \<le> 4 + 3"
    for ev what tls by (rule dial_length) (erule authOverConn_adds [rotated], simp)
  show "length (snd (authImplicitTLS peer bad64 addr host a)) \<le> 7" "length (snd (authPlain peer bad64 addr host a)) \<le> 7"
    using over by (simp_all add: authImplicitTLS_def authPlain_def)
  have "length (snd (authSTARTTLS peer bad64 addr host a)) \<le> 7 + 3"
    unfolding authSTARTTLS_def by (rule dial_length) (erule starttls_check_adds)
  then show "length (snd (authSTARTTLS peer bad64 addr host a)) \<le> 10" by simp
qed

text \<open>
  C28. An SMTP conversation comes to an end: whatever the server answers, and wherever it
  breaks off, a test mail is at most 14 steps on the wire and a credential check at most 10,
  counting dialing, the greeting, every command, the handshake, the message and closing. Each
  step waits for the server once, so a server that answers every step cannot keep the code
  busy.
\<close>

theorem smtp_conversations_end:
  "length (snd (fst (RunTest e rfc3339 peer bad64 req w))) \<le> 14 \<and>
   length (snd (CheckAuth peer bad64 chk)) \<le> 10"
proof
  obtain res log w' where r: "RunTest e rfc3339 peer bad64 req w = ((res, log), w')" by (metis prod.collapse)
  have "length (snd (send_by peer bad64 sec addr host a sender rcpt msg)) \<le> 14" for sec addr host a sender rcpt msg
    using send_lengths [of peer bad64 addr host a sender rcpt msg] by (simp add: send_by_def)
  then have "send_by peer bad64 sec addr host a sender rcpt msg = (x, log) \<Longrightarrow> length log \<le> 14"
    for sec addr host a sender rcpt msg x by (metis snd_conv)
  then show "length (snd (fst (RunTest e rfc3339 peer bad64 req w))) \<le> 14"
    using RunTest_run [OF r] by (auto simp: r)
next
  obtain res log where r: "CheckAuth peer bad64 chk = (res, log)" by fastforce
  show "length (snd (CheckAuth peer bad64 chk)) \<le> 10"
    using CheckAuth_run [OF r] check_lengths
    by (auto simp: r split: if_splits intro: order_trans [of _ 7 "10 :: nat"])
qed

text \<open>The bound is reached: a server with STARTTLS that takes the message.\<close>

definition upgrade_peer :: peer where
  "upgrade_peer log =
     (if last log = Cmd ''EHLO localhost''
      then Inr (250, ''ok'' @ [CHR 0x0A] @ ''AUTH PLAIN'' @ [CHR 0x0A] @ ''STARTTLS'')
      else if last log = Cmd ''STARTTLS'' then Inr (220, []) else kind_peer log)"

lemma longest_conversation:
  "length (snd (fst (RunTest (demo_env 0) (\<lambda>_. []) upgrade_peer (\<lambda>_. None)
     (local_request\<lparr>rq_security := ''starttls''\<rparr>) (demo_world empty_db)))) = 14"
  by code_simp

end
