(* ===== verification/Migrations.thy ===== *)
theory Migrations
  imports Visitor_Store
begin

text \<open>
  The schema migrations of \<^verbatim>\<open>internal/db/migrations\<close> as functions on the tables:
  each Up and Down with the statements that can fail or change rows. A migration runs in a
  transaction, so a failing statement (\<^const>\<open>None\<close>) undoes it. Shown is that the backfill
  of the fingerprint column agrees with the Go code, that 00003 can be undone as long as
  nothing was tracked, and that it cannot once a visitor came back in another context.
\<close>

section \<open>Visitors before the fingerprint\<close>

text \<open>The row of table \<^verbatim>\<open>visitors\<close> as 00002 creates it, keyed by the visitor id.\<close>

record visitor2 =
  w_visitor :: string
  w_session :: string
  w_ip :: string
  w_agent :: string
  w_referer :: string
  w_origin :: string
  w_country :: string
  w_city :: string
  w_user :: "string option"
  w_first_seen :: time
  w_last_seen :: time
  w_path :: string

definition set_fingerprint :: "string \<Rightarrow> visitor2 \<Rightarrow> visitor_row" where
  "set_fingerprint fp r =
     \<lparr>v_fp = fp, v_visitor = w_visitor r, v_session = w_session r, v_ip = w_ip r, v_agent = w_agent r,
      v_referer = w_referer r, v_origin = w_origin r, v_country = w_country r, v_city = w_city r,
      v_user = w_user r, v_first_seen = w_first_seen r, v_last_seen = w_last_seen r, v_path = w_path r\<rparr>"

definition drop_fingerprint :: "visitor_row \<Rightarrow> visitor2" where
  "drop_fingerprint r =
     \<lparr>w_visitor = v_visitor r, w_session = v_session r, w_ip = v_ip r, w_agent = v_agent r,
      w_referer = v_referer r, w_origin = v_origin r, w_country = v_country r, w_city = v_city r,
      w_user = v_user r, w_first_seen = v_first_seen r, w_last_seen = v_last_seen r, w_path = v_path r\<rparr>"

section \<open>The migrations\<close>

text \<open>ALTER TABLE ... ADD PRIMARY KEY fails on duplicates.\<close>

definition add_primary_key :: "('r \<Rightarrow> string) \<Rightarrow> 'r list \<Rightarrow> 'r list option" where
  "add_primary_key pk rows = (if tbl_ok pk rows then Some rows else None)"

text \<open>The document the backfill hashes: the columns as they are, joined by \<^verbatim>\<open>E'\x1f'\<close>.\<close>

definition backfill_text :: "visitor2 \<Rightarrow> string" where
  "backfill_text r =
     w_visitor r @ [CHR 0x1F] @ w_ip r @ [CHR 0x1F] @ w_country r @ [CHR 0x1F] @ w_city r @ [CHR 0x1F] @
     w_agent r @ [CHR 0x1F] @ w_referer r"

definition backfill :: "(string \<Rightarrow> 8 word list) \<Rightarrow> visitor2 \<Rightarrow> string" where
  "backfill sha r = hex_encode (sha (backfill_text r))"

text \<open>00003 Up: the new column is NULL, filled, made NOT NULL and the primary key.\<close>

definition up_fingerprint :: "(string \<Rightarrow> 8 word list) \<Rightarrow> visitor2 list \<Rightarrow> visitor_row list option" where
  "up_fingerprint sha vs =
     (let cells = map (\<lambda>r. (None, r)) vs;
          cells = map (\<lambda>(fp, r). if fp = None \<or> fp = Some '''' then (Some (backfill sha r), r) else (fp, r)) cells
      in if list_ex (\<lambda>(fp, r). fp = None) cells then None
         else add_primary_key v_fp (map (\<lambda>(fp, r). set_fingerprint (the fp) r) cells))"

text \<open>00003 Down: the column goes, the visitor id is the primary key again.\<close>

definition down_fingerprint :: "visitor_row list \<Rightarrow> visitor2 list option" where
  "down_fingerprint rows = add_primary_key w_visitor (map drop_fingerprint rows)"

text \<open>The tables after each migration.\<close>

datatype schema =
    Blank
  | Hooks "bin list" "hit_row list"
  | Visits "bin list" "hit_row list" "user_row list" "visitor2 list"
  | Current db

fun migrate_up :: "(string \<Rightarrow> 8 word list) \<Rightarrow> schema \<Rightarrow> schema option" where
  "migrate_up sha Blank = Some (Hooks [] [])"
| "migrate_up sha (Hooks bs hs) = Some (Visits bs hs [] [])"
| "migrate_up sha (Visits bs hs us vs) =
     map_option (\<lambda>rows. Current \<lparr>webhook_bins = bs, webhook_hits = hs, users = us, visitors = rows\<rparr>)
       (up_fingerprint sha vs)"
| "migrate_up sha (Current d) = Some (Current d)"

fun migrate_down :: "schema \<Rightarrow> schema option" where
  "migrate_down Blank = Some Blank"
| "migrate_down (Hooks bs hs) = Some Blank"
| "migrate_down (Visits bs hs us vs) = Some (Hooks bs hs)"
| "migrate_down (Current d) =
     map_option (Visits (webhook_bins d) (webhook_hits d) (users d)) (down_fingerprint (visitors d))"

text \<open>\<^verbatim>\<open>goose.Up\<close>: the pending migrations in order, up to the first that fails.\<close>

fun goose_up :: "(string \<Rightarrow> 8 word list) \<Rightarrow> nat \<Rightarrow> schema \<Rightarrow> schema option" where
  "goose_up sha 0 s = Some s"
| "goose_up sha (Suc n) s = Option.bind (migrate_up sha s) (goose_up sha n)"

lemma fresh_database: "goose_up sha 3 Blank = Some (Current empty_db)"
  by (simp add: numeral_3_eq_3 up_fingerprint_def add_primary_key_def tbl_ok_def empty_db_def)

section \<open>The backfill and the Go fingerprint\<close>

text \<open>The visit a stored row is about.\<close>

definition stored_visit :: "visitor2 \<Rightarrow> visit" where
  "stored_visit r = \<lparr>VisitorID = w_visitor r, SessionID = w_session r, IP = w_ip r, UserAgent = w_agent r,
     Referer = w_referer r, Origin = w_origin r, Country = w_country r, City = w_city r,
     UserID = (case w_user r of None \<Rightarrow> [] | Some u \<Rightarrow> u), FirstPath = w_path r\<rparr>"

definition context_of :: "visitor2 \<Rightarrow> string list" where
  "context_of r = [w_visitor r, w_ip r, w_country r, w_city r, w_agent r, w_referer r]"

lemma backfill_text_Join: "backfill_text r = Join (context_of r) [CHR 0x1F]"
  by (simp add: backfill_text_def context_of_def)

lemma fp_fields_stored_visit: "fp_fields (stored_visit r) = map TrimSpace (context_of r)"
  by (simp add: fp_fields_def stored_visit_def context_of_def)

lemma TrimSpace_same_length:
  assumes "length (TrimSpace s) = length s"
  shows "TrimSpace s = s"
proof -
  obtain p q where e: "s = p @ TrimSpace s @ q" using TrimSpace_sublist by (metis sublist_def)
  then have "length s = length p + length (TrimSpace s) + length q" by (metis length_append add.assoc)
  then have "p = []" "q = []" using assms by simp_all
  then show ?thesis using e by simp
qed

lemma length_Join: "length (Join ps [c]) = sum_list (map length ps) + (length ps - 1)"
  by (induction ps "[c]" rule: Join.induct) simp_all

lemma map_TrimSpace_id:
  assumes "sum_list (map length (map TrimSpace fs)) = sum_list (map length fs)"
  shows "map TrimSpace fs = fs"
  using assms
proof (induction fs)
  case (Cons f fs)
  have "sum_list (map length (map TrimSpace gs)) \<le> sum_list (map length gs)" for gs
    by (induction gs) (simp_all add: length_TrimSpace add_mono)
  from this [of fs] Cons.prems length_TrimSpace [of f]
  have "length (TrimSpace f) = length f" "sum_list (map length (map TrimSpace fs)) = sum_list (map length fs)"
    by simp_all
  then show ?case using Cons.IH TrimSpace_same_length by simp
qed simp

text \<open>
  C26. The backfill of 00003 writes the fingerprint the Go code computes for the row exactly
  when the six context columns hold no surrounding white space (unless SHA-256 collides): the
  statement joins the columns as they are, \<^verbatim>\<open>Fingerprint\<close> trims them.
\<close>

theorem backfill_matches_go:
  assumes "inj_on sha {backfill_text r, Join (fp_fields (stored_visit r)) [CHR 0x1F]}"
  shows "backfill sha r = Fingerprint sha (stored_visit r) \<longleftrightarrow> (\<forall>f \<in> set (context_of r). TrimSpace f = f)"
proof -
  have "backfill sha r = Fingerprint sha (stored_visit r) \<longleftrightarrow>
      Join (context_of r) [CHR 0x1F] = Join (map TrimSpace (context_of r)) [CHR 0x1F]"
    using assms by (auto simp: backfill_def Fingerprint_def hex_encode_inj backfill_text_Join fp_fields_stored_visit dest: inj_onD)
  also have "\<dots> \<longleftrightarrow> map TrimSpace (context_of r) = context_of r"
  proof
    assume "Join (context_of r) [CHR 0x1F] = Join (map TrimSpace (context_of r)) [CHR 0x1F]"
    then have "length (Join (context_of r) [CHR 0x1F]) = length (Join (map TrimSpace (context_of r)) [CHR 0x1F])" by simp
    then show "map TrimSpace (context_of r) = context_of r"
      by (intro map_TrimSpace_id) (simp only: length_Join length_map)
  qed simp
  also have "\<dots> \<longleftrightarrow> (\<forall>f \<in> set (context_of r). TrimSpace f = f)"
    by (metis map_eq_conv map_ident)
  finally show ?thesis .
qed

definition demo_visitor2 :: visitor2 where
  "demo_visitor2 = \<lparr>w_visitor = ''visitor-1'', w_session = ''session-1'', w_ip = ''1.2.3.4'', w_agent = ''ua'',
     w_referer = [], w_origin = [], w_country = ''ID'', w_city = ''Jakarta'', w_user = None,
     w_first_seen = 0, w_last_seen = 0, w_path = ''/''\<rparr>"

lemma demo_sha_inj: "inj_on demo_sha A"
proof (rule inj_onI)
  fix s t assume "demo_sha s = demo_sha t"
  moreover have "inj (\<lambda>c. word_of_nat (of_char c) :: 8 word)"
  proof (rule injI)
    fix c d :: char assume "(word_of_nat (of_char c) :: 8 word) = word_of_nat (of_char d)"
    then have "unat (word_of_nat (of_char c) :: 8 word) = unat (word_of_nat (of_char d) :: 8 word)" by simp
    then show "c = d" by (simp add: unat_of_nat)
  qed
  ultimately show "s = t" unfolding demo_sha_def by (metis inj_map_eq_map)
qed

lemma TrimSpace_demo2: "TrimSpace ''ua '' = ''ua''"
  by code_simp

theorem backfill_matches_go_witness:
  "backfill demo_sha demo_visitor2 = Fingerprint demo_sha (stored_visit demo_visitor2) \<and>
   backfill demo_sha (demo_visitor2\<lparr>w_agent := ''ua ''\<rparr>) \<noteq> Fingerprint demo_sha (stored_visit (demo_visitor2\<lparr>w_agent := ''ua ''\<rparr>))"
  using backfill_matches_go [OF demo_sha_inj, of demo_visitor2]
    backfill_matches_go [OF demo_sha_inj, of "demo_visitor2\<lparr>w_agent := ''ua ''\<rparr>"]
  by (simp add: context_of_def demo_visitor2_def TrimSpace_demo2)

section \<open>Applying and undoing 00003\<close>

lemma set_drop [simp]: "drop_fingerprint (set_fingerprint fp r) = r"
  by (simp add: drop_fingerprint_def set_fingerprint_def)

lemma set_fingerprint_key [simp]: "v_fp (set_fingerprint fp r) = fp"
  by (simp add: set_fingerprint_def)

lemma up_fingerprint_eq:
  "up_fingerprint sha vs = add_primary_key v_fp (map (\<lambda>r. set_fingerprint (backfill sha r) r) vs)"
  by (simp add: up_fingerprint_def Let_def list_ex_iff o_def)

lemma backfill_visitor:
  assumes "backfill_text r = backfill_text q" "CHR 0x1F \<notin> set (w_visitor r)" "CHR 0x1F \<notin> set (w_visitor q)"
  shows "w_visitor r = w_visitor q"
proof -
  have t: "takeWhile (\<lambda>c. c \<noteq> CHR 0x1F) (backfill_text x) = w_visitor x" if "CHR 0x1F \<notin> set (w_visitor x)" for x
    using that unfolding backfill_text_def by (subst takeWhile_append2) auto
  show ?thesis using t [OF assms(2)] t [OF assms(3)] assms(1) by simp
qed

lemma migration_applies:
  assumes "tbl_ok w_visitor vs" and "\<forall>r \<in> set vs. CHR 0x1F \<notin> set (w_visitor r)"
    and "inj_on sha (backfill_text ` set vs)"
  shows "up_fingerprint sha vs = Some (map (\<lambda>r. set_fingerprint (backfill sha r) r) vs)"
proof -
  have "inj_on w_visitor (set vs)" "distinct vs" using assms(1) by (simp_all add: tbl_ok_def distinct_map)
  moreover have "inj_on (backfill sha) (set vs)"
  proof (rule inj_onI)
    fix r q assume "r \<in> set vs" "q \<in> set vs" "backfill sha r = backfill sha q"
    then have "backfill_text r = backfill_text q"
      using assms(3) by (auto simp: backfill_def hex_encode_inj dest: inj_onD)
    then show "r = q"
      using backfill_visitor \<open>r \<in> set vs\<close> \<open>q \<in> set vs\<close> assms(2) calculation(1) by (auto dest: inj_onD)
  qed
  ultimately have "distinct (map (backfill sha) vs)" by (simp add: distinct_map)
  then show ?thesis by (simp add: up_fingerprint_eq add_primary_key_def tbl_ok_def o_def)
qed

text \<open>
  C27. Migration 00003 applies to every table the previous version can hold (distinct visitor
  ids without the separator, no SHA-256 collision), and undoing it gives the same rows back,
  with all other tables untouched.
\<close>

theorem migration_round_trip:
  assumes "tbl_ok w_visitor vs" and "\<forall>r \<in> set vs. CHR 0x1F \<notin> set (w_visitor r)"
    and "inj_on sha (backfill_text ` set vs)"
  shows "\<exists>d. migrate_up sha (Visits bs hs us vs) = Some (Current d) \<and>
    webhook_bins d = bs \<and> webhook_hits d = hs \<and> users d = us \<and> tbl_ok v_fp (visitors d) \<and>
    migrate_down (Current d) = Some (Visits bs hs us vs)"
proof -
  note up = migration_applies [OF assms]
  moreover have "tbl_ok v_fp (map (\<lambda>r. set_fingerprint (backfill sha r) r) vs)"
    using up by (auto simp: up_fingerprint_eq add_primary_key_def split: if_splits)
  moreover have "down_fingerprint (map (\<lambda>r. set_fingerprint (backfill sha r) r) vs) = Some vs"
    using assms(1) by (simp add: down_fingerprint_def add_primary_key_def o_def)
  ultimately show ?thesis by simp
qed

theorem migration_round_trip_witness:
  "\<exists>d. migrate_up demo_sha (Visits [] [] [] [demo_visitor2, demo_visitor2\<lparr>w_visitor := ''visitor-2''\<rparr>]) = Some (Current d) \<and>
     migrate_down (Current d) = Some (Visits [] [] [] [demo_visitor2, demo_visitor2\<lparr>w_visitor := ''visitor-2''\<rparr>])"
  using migration_round_trip [OF _ _ demo_sha_inj, where vs = "[demo_visitor2, demo_visitor2\<lparr>w_visitor := ''visitor-2''\<rparr>]"
      and bs = "[]" and hs = "[]" and us = "[]"]
  by (auto simp: tbl_ok_def demo_visitor2_def)

text \<open>
  00003 has no way back once a visitor came back in another context: the two rows the Go code
  keeps for it violate the old primary key.
\<close>

lemma down_needs_one_context:
  "r \<in> set rows \<Longrightarrow> r' \<in> set rows \<Longrightarrow> v_visitor r = v_visitor r' \<Longrightarrow> v_fp r \<noteq> v_fp r' \<Longrightarrow>
     down_fingerprint rows = None"
proof -
  assume r: "r \<in> set rows" "r' \<in> set rows" "v_visitor r = v_visitor r'" "v_fp r \<noteq> v_fp r'"
  have "w_visitor \<circ> drop_fingerprint = v_visitor" by (rule ext) (simp add: drop_fingerprint_def)
  moreover have "\<not> distinct (map v_visitor rows)" using distinct_map_unique [of v_visitor rows r r'] r by auto
  ultimately show ?thesis unfolding down_fingerprint_def add_primary_key_def tbl_ok_def map_map by simp
qed

lemma track_appends:
  assumes "pg_healthy e" "\<forall>t. pg_text_ok e t" "cut_visit (trim_visit r) = r" "UserID r = []"
    and "ValidID (VisitorID (trim_visit r))" "ValidID (SessionID (trim_visit r))"
    and "tbl_lookup v_fp (Fingerprint sha r) (visitors (db w)) = None"
  shows "\<exists>row. visitors (db (snd (track e sha None r w))) = visitors (db w) @ [row] \<and>
    v_visitor row = VisitorID r \<and> v_fp row = Fingerprint sha r"
  using visitor_insert_new [OF assms(1,2) _ assms(7), of r] assms(3-6)
  by (auto simp: track_def Let_def persist_eq user_param_def dest: tbl_lookup_mem)

definition moved_visit :: visit where
  "moved_visit = demo_visit\<lparr>IP := ''5.6.7.8''\<rparr>"

definition two_visits :: "kv_map world" where
  "two_visits = snd (track (demo_env 0) demo_sha None moved_visit
     (snd (track (demo_env 0) demo_sha None demo_visit (demo_world empty_db))))"

lemma down_fails_after_move: "migrate_down (Current (db two_visits)) = None"
proof -
  let ?w1 = "snd (track (demo_env 0) demo_sha None demo_visit (demo_world empty_db))"
  have m: "cut_visit (trim_visit moved_visit) = moved_visit" "UserID moved_visit = []"
    "ValidID (VisitorID (trim_visit moved_visit))" "ValidID (SessionID (trim_visit moved_visit))"
    "VisitorID moved_visit = VisitorID demo_visit"
    by (simp_all add: moved_visit_def cut_visit_def trim_visit_def demo_visit_def cut_def ValidID_demo)
  have ne: "Fingerprint demo_sha moved_visit \<noteq> Fingerprint demo_sha demo_visit"
    by (simp add: Fingerprint_def hex_encode_inj demo_sha_def fp_fields_def demo_visit_def moved_visit_def)
  have e: "visitors empty_db = []" "tbl_lookup (v_fp :: visitor_row \<Rightarrow> string) fp [] = None" "UserID demo_visit = []" for fp
    by (simp_all add: empty_db_def tbl_lookup_def demo_visit_def)
  obtain r where 1: "visitors (db ?w1) = [r]" "v_visitor r = VisitorID demo_visit" "v_fp r = Fingerprint demo_sha demo_visit"
    using track_appends [of "demo_env 0" demo_visit demo_sha "demo_world empty_db"] e by auto
  obtain r' where r: "visitors (db two_visits) = [r, r']" "v_visitor r = v_visitor r'" "v_fp r \<noteq> v_fp r'"
    using track_appends [of "demo_env 0" moved_visit demo_sha ?w1] m ne 1
    by (auto simp: tbl_lookup_def two_visits_def)
  have "down_fingerprint [r, r'] = None" by (rule down_needs_one_context [of r _ r']) (use r in simp_all)
  then show ?thesis using r(1) by simp
qed

end
