(* ===== verification/Source_Tests.thy ===== *)
theory Source_Tests
  imports Auth_Spec Smtp_Tester Migrations
begin

text \<open>
  The test files of the repository that need no database, run on the model: each lemma is one
  test function with its inputs and expectations, evaluated by the simplifier.
  \<^verbatim>\<open>TestSessionIssueAndParse\<close> is an instance of the round trip of sessions in
  \<^verbatim>\<open>Auth_Spec\<close>, and the tests of \<^verbatim>\<open>webhook/store_test.go\<close> are the runs
  \<^verbatim>\<open>demo_create\<close> and \<^verbatim>\<open>demo_ingest\<close> of \<^verbatim>\<open>Webhook_Spec\<close> and the quota of
  \<^verbatim>\<open>Webhook_Inv\<close>.
\<close>

section \<open>\<^verbatim>\<open>internal/auth/session_test.go\<close>\<close>

lemma TestSanitizeNext:
  "map sanitizeNext ['''', ''/t/smtp-tester'', ''//evil.com'', ''https://evil.com'', ''/ok?x=1'', ''relative'',
     ''/has'' @ [CHR 0x0A] @ ''newline''] =
   [''/'', ''/t/smtp-tester'', ''/'', ''/'', ''/ok?x=1'', ''/'', ''/'']"
  by code_simp

section \<open>\<^verbatim>\<open>internal/smtp/test_test.go\<close>\<close>

lemma TestLooksLikeEmail:
  "list_all looksLikeEmail [''a@b.co'', ''user.name+tag@example.com''] \<and>
   list_all (\<lambda>s. \<not> looksLikeEmail s) ['''', ''nope'', ''@x.com'', ''a@'', ''a@b'']"
  by code_simp

definition zero_request :: smtp_request where
  "zero_request = \<lparr>rq_host = [], rq_port = 0, rq_security = [], rq_username = [], rq_password = [], rq_from = [],
     rq_to = [], rq_subject = [], rq_text = [], rq_html = False\<rparr>"

lemma TestRunTestValidation:
  "\<not> r_ok (fst (fst (RunTest e f peer bad64 zero_request w))) \<and>
   r_error (fst (fst (RunTest e f peer bad64 zero_request w))) \<noteq> []"
  by (simp add: RunTest_def zero_request_def Let_def)

definition zero_check :: auth_check_request where
  "zero_check = \<lparr>ac_host = [], ac_port = 0, ac_security = [], ac_username = [], ac_password = []\<rparr>"

lemma TestCheckAuthValidation:
  "\<not> a_ok (fst (CheckAuth peer bad64 zero_check)) \<and> a_error (fst (CheckAuth peer bad64 zero_check)) \<noteq> []"
  by (simp add: CheckAuth_def zero_check_def check_fail_def Let_def)


text \<open>The second half: a user name without a password.\<close>

lemma TestCheckAuthValidation_password:
  fixes peer bad64
  defines "res \<equiv> fst (CheckAuth peer bad64
    (zero_check\<lparr>ac_host := ''smtp.example.com'', ac_port := 587, ac_username := ''u''\<rparr>))"
  shows "\<not> a_ok res \<and> sublist ''password'' (a_error res)"
proof -
  have t: "TrimSpace ''smtp.example.com'' = ''smtp.example.com''" "TrimSpace ''u'' = ''u''" by code_simp+
  have "a_error res = ''Username and '' @ ''password'' @ '' are required'' \<and> \<not> a_ok res"
    unfolding res_def by (simp add: CheckAuth_def zero_check_def check_fail_def Let_def t)
  then show ?thesis by (metis sublist_appendI)
qed

section \<open>\<^verbatim>\<open>internal/visitor/store_test.go\<close>\<close>

definition base_visit :: visit where
  "base_visit = \<lparr>VisitorID = ''aaaaaaaa-bbbb-cccc-dddd-eeeeeeeeeeee'', SessionID = [], IP = ''1.2.3.4'',
     UserAgent = ''Mozilla/5.0'', Referer = ''https://google.com/'', Origin = [], Country = ''ID'',
     City = ''Jakarta'', UserID = [], FirstPath = []\<rparr>"

lemma TestFingerprintChangesWithContext:
  "list_all (\<lambda>v. Fingerprint demo_sha v \<noteq> Fingerprint demo_sha base_visit)
     [base_visit\<lparr>IP := ''5.6.7.8''\<rparr>, base_visit\<lparr>UserAgent := ''curl/8.0''\<rparr>,
      base_visit\<lparr>Referer := ''https://bing.com/''\<rparr>, base_visit\<lparr>City := ''Bandung''\<rparr>]"
  "Fingerprint sha (base_visit\<lparr>SessionID := ''different-session-id-xxxxx'', Origin := ''https://other.example'',
     FirstPath := ''/t/other''\<rparr>) = Fingerprint sha base_visit"
proof -
  have "list_all (\<lambda>v. Join (fp_fields v) [CHR 0x1F] \<noteq> Join (fp_fields base_visit) [CHR 0x1F])
     [base_visit\<lparr>IP := ''5.6.7.8''\<rparr>, base_visit\<lparr>UserAgent := ''curl/8.0''\<rparr>,
      base_visit\<lparr>Referer := ''https://bing.com/''\<rparr>, base_visit\<lparr>City := ''Bandung''\<rparr>]"
    by code_simp
  then show "list_all (\<lambda>v. Fingerprint demo_sha v \<noteq> Fingerprint demo_sha base_visit)
     [base_visit\<lparr>IP := ''5.6.7.8''\<rparr>, base_visit\<lparr>UserAgent := ''curl/8.0''\<rparr>,
      base_visit\<lparr>Referer := ''https://bing.com/''\<rparr>, base_visit\<lparr>City := ''Bandung''\<rparr>]"
    using demo_sha_inj [of UNIV] by (simp add: Fingerprint_def hex_encode_inj inj_eq)
qed (simp add: Fingerprint_def fp_fields_def)

end
