(* ===== verification/Boot.thy ===== *)
theory Boot
  imports Config Server_Spec
begin

text \<open>
  The start of the process: \<^verbatim>\<open>cmd/server/main.go\<close>, \<^verbatim>\<open>internal/db/postgres.go\<close>
  and the connection part of \<^verbatim>\<open>internal/ratelimit\<close>. What happens is a list of events;
  the libraries (godotenv, pgx, goose, go-redis) and the end of the HTTP server are arguments.
  Log lines keep their message and error, the other attributes are left out.
\<close>

section \<open>Libraries and events\<close>

record pool_config =
  pc_url :: string
  pc_MaxConns :: nat
  pc_MinConns :: nat
  pc_MaxConnLifetime :: duration

record http_server =
  hs_Addr :: string
  hs_ReadHeaderTimeout :: duration
  hs_ReadTimeout :: duration
  hs_WriteTimeout :: duration
  hs_IdleTimeout :: duration

text \<open>
  Calls that may fail return the text of their error. \<open>dotenv\<close> is the environment after
  \<^verbatim>\<open>godotenv.Load\<close>, whose error is dropped.
\<close>

record boot_lib =
  dotenv :: "(string \<Rightarrow> string) \<Rightarrow> string \<Rightarrow> string"
  pgx_ParseConfig :: "string \<Rightarrow> string + pool_config"
  pgx_NewWithConfig :: "pool_config \<Rightarrow> string option"
  pgx_Ping :: "pool_config \<Rightarrow> string option"
  goose_SetDialect :: "string \<Rightarrow> string option"
  goose_Up :: "string \<Rightarrow> string option"
  redis_ParseURL :: "string \<Rightarrow> string + string"
  redis_Ping :: "string \<Rightarrow> string option"
  http_Shutdown :: "string option"

datatype boot_event =
    PoolOpened | PoolClosed | DbOpened | DbClosed | Migrated
  | ClientOpened | ClientClosed | Listening http_server
  | LogInfo string | LogError string string

text \<open>How serving ends: by a signal, or because \<^verbatim>\<open>ListenAndServe\<close> fails.\<close>

datatype ending = Signalled | ListenFailed string

section \<open>Connections\<close>

definition migrate :: "boot_lib \<Rightarrow> go_error option \<times> boot_event list" where
  "migrate L =
     (case goose_SetDialect L ''postgres'' of
        Some m \<Rightarrow> (Some (Wrap ''goose dialect'' (Errorf m)), [DbOpened, DbClosed])
      | None \<Rightarrow>
          (case goose_Up L ''migrations'' of
             Some m \<Rightarrow> (Some (Wrap ''goose up'' (Errorf m)), [DbOpened, DbClosed])
           | None \<Rightarrow> (None, [DbOpened, Migrated, DbClosed])))"

definition Connect :: "boot_lib \<Rightarrow> string \<Rightarrow> (go_error + pool_config) \<times> boot_event list" where
  "Connect L databaseURL =
     (case pgx_ParseConfig L databaseURL of
        Inl m \<Rightarrow> (Inl (Wrap ''parse DATABASE_URL'' (Errorf m)), [])
      | Inr pc \<Rightarrow>
          (let cfg = pc\<lparr>pc_MaxConns := 10, pc_MinConns := 1, pc_MaxConnLifetime := Hour\<rparr> in
           case pgx_NewWithConfig L cfg of
             Some m \<Rightarrow> (Inl (Wrap ''connect postgres'' (Errorf m)), [])
           | None \<Rightarrow>
               (case pgx_Ping L cfg of
                  Some m \<Rightarrow> (Inl (Wrap ''ping postgres'' (Errorf m)), [PoolOpened, PoolClosed])
                | None \<Rightarrow>
                    (case migrate L of
                       (Some er, ev) \<Rightarrow> (Inl er, PoolOpened # ev @ [PoolClosed])
                     | (None, ev) \<Rightarrow> (Inr cfg, PoolOpened # ev)))))"

definition ConnectValkey :: "boot_lib \<Rightarrow> string \<Rightarrow> (go_error + string) \<times> boot_event list" where
  "ConnectValkey L url =
     (case redis_ParseURL L url of
        Inl m \<Rightarrow> (Inl (Wrap ''parse VALKEY_URL'' (Errorf m)), [])
      | Inr opts \<Rightarrow>
          (case redis_Ping L opts of
             Some m \<Rightarrow> (Inl (Wrap ''ping valkey'' (Errorf m)), [ClientOpened, ClientClosed])
           | None \<Rightarrow> (Inr opts, [ClientOpened])))"

section \<open>main\<close>

text \<open>
  The server of a configuration: \<open>lib\<close> brings the libraries and connections, the rest comes
  from the configuration and the clock.
\<close>

definition start_server :: "config \<Rightarrow> time \<Rightarrow> 'k server \<Rightarrow> 'k server" where
  "start_server cfg now lib =
     lib\<lparr>sv_mode := cfg_Env cfg, sv_front := cfg_FrontendURL cfg, sv_base := cfg_PublicBaseURL cfg,
         sv_origins := cfg_AllowedOrigins cfg,
         sv_google := NewGoogleAuth (cfg_GoogleClientID cfg) (cfg_GoogleSecret cfg)
           (cfg_PublicBaseURL cfg) (cfg_FrontendURL cfg),
         sv_sessions := NewSessionManager (cfg_SessionSecret cfg) (cfg_CookieName cfg)
           (cfg_CookieSecure cfg) (cfg_SessionTTL cfg),
         sv_started := now\<rparr>"

definition http_server_of :: "config \<Rightarrow> http_server" where
  "http_server_of cfg =
     \<lparr>hs_Addr = cfg_Addr cfg, hs_ReadHeaderTimeout = 5 * Second, hs_ReadTimeout = 20 * Second,
      hs_WriteTimeout = 45 * Second, hs_IdleTimeout = 60 * Second\<rparr>"

text \<open>
  Serving and the way down, with the exit status; \<^verbatim>\<open>os.Exit\<close> runs no deferred call.
\<close>

definition serve_until :: "boot_lib \<Rightarrow> config \<Rightarrow> ending \<Rightarrow> boot_event list \<times> nat" where
  "serve_until L cfg e =
     (case e of
        ListenFailed m \<Rightarrow>
          ([LogInfo ''tools-api listening'', Listening (http_server_of cfg), LogError ''server failed'' m], 1)
      | Signalled \<Rightarrow>
          (case http_Shutdown L of
             Some m \<Rightarrow>
               ([LogInfo ''tools-api listening'', Listening (http_server_of cfg), LogInfo ''shutting down'',
                 LogError ''shutdown error'' m], 1)
           | None \<Rightarrow>
               ([LogInfo ''tools-api listening'', Listening (http_server_of cfg), LogInfo ''shutting down'',
                 ClientClosed, PoolClosed], 0)))"

definition main :: "boot_lib \<Rightarrow> (string \<Rightarrow> string) \<Rightarrow> (string \<Rightarrow> string) \<Rightarrow> 'k server \<Rightarrow> time \<Rightarrow> ending
    \<Rightarrow> 'k server option \<times> boot_event list \<times> nat" where
  "main L getenv uni lib now e =
     (case Load (dotenv L getenv) uni of
        Inl er \<Rightarrow> (None, [LogError ''invalid config'' (error_text er)], 1)
      | Inr cfg \<Rightarrow>
          (case Connect L (cfg_DatabaseURL cfg) of
             (Inl er, ev) \<Rightarrow> (None, ev @ [LogError ''postgres'' (error_text er)], 1)
           | (Inr _, ev) \<Rightarrow>
               (case ConnectValkey L (cfg_ValkeyURL cfg) of
                  (Inl er, ev') \<Rightarrow> (None, ev @ ev' @ [LogError ''valkey'' (error_text er)], 1)
                | (Inr _, ev') \<Rightarrow>
                    (let sv = start_server cfg now lib; (ev'', status) = serve_until L cfg e
                     in (Some sv, ev @ ev' @ ev'', status)))))"

section \<open>The server starts only when it can serve\<close>

text \<open>What is open at the end of a run, and the steps that matter.\<close>

definition left_open :: "boot_event \<Rightarrow> boot_event \<Rightarrow> boot_event list \<Rightarrow> int" where
  "left_open up down ev = int (length (filter (\<lambda>x. x = up) ev)) - int (length (filter (\<lambda>x. x = down) ev))"

definition milestone :: "boot_event \<Rightarrow> bool" where
  "milestone x \<longleftrightarrow> x \<in> {Migrated, ClientOpened} \<or> (case x of Listening _ \<Rightarrow> True | _ \<Rightarrow> False)"

lemma left_open_append [simp]: "left_open u d (xs @ ys) = left_open u d xs + left_open u d ys"
  by (simp add: left_open_def)

lemma left_open_Cons [simp]:
  "left_open u d (x # xs) = (if x = u then 1 else 0) - (if x = d then 1 else 0) + left_open u d xs"
  by (simp add: left_open_def)

lemma left_open_Nil [simp]: "left_open u d [] = 0"
  by (simp add: left_open_def)

lemma milestone_simps [simp]:
  "milestone Migrated" "milestone ClientOpened" "milestone (Listening h)" "\<not> milestone PoolOpened"
  "\<not> milestone PoolClosed" "\<not> milestone DbOpened" "\<not> milestone DbClosed" "\<not> milestone ClientClosed"
  "\<not> milestone (LogInfo m)" "\<not> milestone (LogError m n)"
  by (simp_all add: milestone_def)

lemma Connect_Inl:
  "Connect L u = (Inl er, ev) \<Longrightarrow> \<forall>h. Listening h \<notin> set ev \<and> left_open PoolOpened PoolClosed ev = 0 \<and> left_open DbOpened DbClosed ev = 0"
  by (auto simp: Connect_def migrate_def Let_def split: sum.splits option.splits)

lemma Connect_Inr: "Connect L u = (Inr c, ev) \<Longrightarrow> ev = [PoolOpened, DbOpened, Migrated, DbClosed] \<and> pgx_Ping L c = None \<and> pc_MaxConns c = 10"
  by (auto simp: Connect_def migrate_def Let_def split: sum.splits option.splits)

lemma ConnectValkey_Inl:
  "ConnectValkey L u = (Inl er, ev) \<Longrightarrow> \<forall>h. Listening h \<notin> set ev \<and> left_open ClientOpened ClientClosed ev = 0 \<and> left_open DbOpened DbClosed ev = 0"
  by (auto simp: ConnectValkey_def split: sum.splits option.splits)

lemma ConnectValkey_Inr: "ConnectValkey L u = (Inr c, ev) \<Longrightarrow> ev = [ClientOpened] \<and> redis_Ping L c = None"
  by (auto simp: ConnectValkey_def split: sum.splits option.splits)

text \<open>A run that gets to serving.\<close>

lemma main_Some:
  assumes "main L getenv uni lib now e = (Some sv, ev, st)"
  obtains cfg where "Load (dotenv L getenv) uni = Inr cfg" "sv = start_server cfg now lib"
    "ev = [PoolOpened, DbOpened, Migrated, DbClosed, ClientOpened] @ fst (serve_until L cfg e)"
    "st = snd (serve_until L cfg e)"
  using assms
  by (auto simp: main_def Let_def split: sum.splits prod.splits dest!: Connect_Inr ConnectValkey_Inr)

lemma main_None:
  assumes "main L getenv uni lib now e = (None, ev, st)"
  shows "st = 1 \<and> Listening h \<notin> set ev \<and> left_open DbOpened DbClosed ev = 0"
  using assms Connect_Inl [of L] ConnectValkey_Inl [of L]
  by (auto simp: main_def Let_def split: sum.splits prod.splits dest!: Connect_Inr)


text \<open>A start in production on the environment \<open>demo_getenv\<close>, stopped by a signal.\<close>

definition demo_boot :: boot_lib where
  "demo_boot =
     \<lparr>dotenv = (\<lambda>g. g),
      pgx_ParseConfig = (\<lambda>u. Inr \<lparr>pc_url = u, pc_MaxConns = 4, pc_MinConns = 0, pc_MaxConnLifetime = 0\<rparr>),
      pgx_NewWithConfig = (\<lambda>_. None), pgx_Ping = (\<lambda>_. None), goose_SetDialect = (\<lambda>_. None), goose_Up = (\<lambda>_. None),
      redis_ParseURL = Inr, redis_Ping = (\<lambda>_. None), http_Shutdown = None\<rparr>"

lemma demo_main:
  "main demo_boot demo_getenv (\<lambda>s. s) lib now Signalled =
     (Some (start_server (read_config demo_getenv (\<lambda>s. s)) now lib),
      [PoolOpened, DbOpened, Migrated, DbClosed, ClientOpened] @
        fst (serve_until demo_boot (read_config demo_getenv (\<lambda>s. s)) Signalled), 0)"
  by (simp add: main_def demo_boot_def demo_load Connect_def migrate_def ConnectValkey_def serve_until_def Let_def)


end
