(* ===== verification/Spec2Isabelle.thy ===== *)
theory Spec2Isabelle
  imports Tenant_Spec Capture_Race Capture_Spec Limit_Spec Smtp_Exchange Source_Tests Boot
begin

text \<open>
  A verification development for the Go service \<^verbatim>\<open>tools-api\<close>: login with Google,
  webhook bins, an SMTP tester, visitor analytics and rate limits, on Postgres and Valkey.

  \<^bold>\<open>The program.\<close> \<^verbatim>\<open>cmd/server/main.go\<close> loads the configuration, connects
  the database (which runs the migrations) and Valkey, and builds the server of
  \<^verbatim>\<open>internal/httpapi\<close>. A request passes the middleware (recover, access log, security
  headers, CORS) to the multiplexer, and from there to a handler; cloud tools go through the
  session and ban checks first. Handlers call the stores (\<^verbatim>\<open>webhook\<close>,
  \<^verbatim>\<open>user\<close>, \<^verbatim>\<open>visitor\<close>), the limiter and the SMTP tester; stores talk to Postgres by
  single statements and transactions, and to Valkey by single commands.

  \<^bold>\<open>How it is modelled.\<close> A Go string is a list of bytes, an instant or a duration is an
  integer of nanoseconds, an error is a value of \<^verbatim>\<open>go_error\<close>. The state is a world: the
  tables, the Valkey service, a counter of interactions, and the log. The environment decides,
  by interaction number, what the world outside does: whether a statement runs, fails, or runs
  with its answer lost, what the clocks say, which random bytes come, which texts Postgres
  accepts. So a theorem about all environments holds for every pattern of failures. Handlers
  take a request and a response writer with the world, and may panic.

  \<^bold>\<open>Theories.\<close>
  \<^item> \<^verbatim>\<open>Tools_Prelude\<close>, \<^verbatim>\<open>Go_Strings\<close>: errors, times, the used part of
    \<^verbatim>\<open>strings\<close>, \<^verbatim>\<open>strconv\<close>, \<^verbatim>\<open>encoding\<close> and UTF-8.
  \<^item> \<^verbatim>\<open>Schema\<close>, \<^verbatim>\<open>Valkey\<close>, \<^verbatim>\<open>Effects\<close>: the tables of
    \<^verbatim>\<open>internal/db/migrations\<close> with their keys and references (interface
    \<^verbatim>\<open>keyed_table\<close>), the laws of the Valkey commands with a map that satisfies them,
    and the world with statements, rows and transactions.
  \<^item> \<^verbatim>\<open>Webhook_Store\<close> (the definitions of \<^verbatim>\<open>internal/webhook/store.go\<close>),
    \<^verbatim>\<open>Webhook_Inv\<close> (reachable states and their invariants), \<^verbatim>\<open>Webhook_Spec\<close>
    (what each method does: ownership, refinement of a bounded log, paging, reading back).
    \<^verbatim>\<open>Bin_Service\<close> is the contract of the whole store, a service of bins with
    multisets of hits that knows no tables, and the proof that every run of calls is one of its
    histories (interface \<^verbatim>\<open>service_impl\<close>). \<^verbatim>\<open>Webhook_Race\<close> and
    \<^verbatim>\<open>Capture_Race\<close> are about overlapping creations and captures.
  \<^item> \<^verbatim>\<open>User_Store\<close>, \<^verbatim>\<open>Visitor_Store\<close>, \<^verbatim>\<open>Rate_Limit\<close>, \<^verbatim>\<open>Smtp_Tester\<close>:
    the packages \<^verbatim>\<open>user\<close>, \<^verbatim>\<open>visitor\<close>, \<^verbatim>\<open>ratelimit\<close> and \<^verbatim>\<open>smtp\<close>, each
    with its properties. The SMTP server is an arbitrary peer; a conversation is the list of its
    events, and \<^verbatim>\<open>Smtp_Exchange\<close> bounds its length. \<^verbatim>\<open>Migrations\<close>: the
    steps of \<^verbatim>\<open>internal/db/migrations\<close>, forth and back, and their backfill.
  \<^item> \<^verbatim>\<open>Http_Model\<close>: requests, response writers, cookies and
    \<^verbatim>\<open>internal/httpapi/middleware.go\<close>. \<^verbatim>\<open>Auth\<close> and \<^verbatim>\<open>Auth_Spec\<close>:
    \<^verbatim>\<open>internal/auth\<close>, sessions and the login flow.
  \<^item> \<^verbatim>\<open>Handlers\<close> and \<^verbatim>\<open>Router\<close>: the handlers of \<^verbatim>\<open>internal/httpapi\<close>, the
    multiplexer and the server. \<^verbatim>\<open>Server_Contract\<close>: the contract every handler keeps
    (interface \<^verbatim>\<open>handler_contract\<close>: no panic, no foreign header, the stores change only
    by their own operations), proved for each handler and for the multiplexer.
    \<^verbatim>\<open>Server_Spec\<close>, \<^verbatim>\<open>Capture_Spec\<close>, \<^verbatim>\<open>Routing_Spec\<close>: what follows
    for every request: the invariants in all states the server reaches, CORS, the guard of the
    cloud tools, what is captured, and that the route table is unambiguous.
    \<^verbatim>\<open>Response_Spec\<close> gives the responses a type (interface \<^verbatim>\<open>answering\<close>),
    \<^verbatim>\<open>Owner_Spec\<close> says what a user gets for a bin that is not theirs, and
    \<^verbatim>\<open>Tenant_Spec\<close> that no run of requests of others changes it (interface
    \<^verbatim>\<open>isolating\<close>, on top of the service of \<^verbatim>\<open>Bin_Service\<close>).
    \<^verbatim>\<open>Limit_Contract\<close> and \<^verbatim>\<open>Limit_Spec\<close>: the rations of the SMTP tester over any
    run of requests, by a budget every handler keeps or pays from.
  \<^item> \<^verbatim>\<open>Config\<close> and \<^verbatim>\<open>Boot\<close>: \<^verbatim>\<open>internal/config\<close> and the start of the
    process. This theory has the properties from the environment to the response.
  \<^item> \<^verbatim>\<open>Source_Tests\<close>: the repository's own tests, run on the model.

  \<^bold>\<open>Bounds.\<close> Loops are structural recursion over their data, so no fuel is used; trimming
  recurses over the remaining length. An SMTP conversation has at most 14 steps. Limits are the constants of the code: 3 bins per user,
  100 hits per bin, 256 KiB per body, 72 hours per bin. Lifetimes from
  \<^verbatim>\<open>SESSION_TTL_HOURS\<close> are products of 64-bit words; other durations stay far below
  the width and are integers.

  \<^bold>\<open>Parameters.\<close> Not under \<^verbatim>\<open>src/\<close> and therefore arguments: the JWT library (what
  is relied on is \<^verbatim>\<open>jwt_spec\<close>), the OAuth client and Google's user info service, JSON
  encoders and decoders, SHA-256, the Unicode case tables outside ASCII, Postgres' outcome and
  encoding check, the drivers and goose at the start. Valkey is a record of commands; theorems
  that need its answers assume \<^verbatim>\<open>valkey_spec\<close>, which a map satisfies.

  \<^bold>\<open>Not modelled.\<close> Contexts and timeouts appear only as the failures they cause. The HTML
  body of a redirect, the rewriting of relative redirects, the validation of cookie values and
  the cleaning of paths belong to \<^verbatim>\<open>net/http\<close>; a path that is not clean is redirected to
  a clean one that is an argument. Requests are answered one after the other; the places
  where interleaving matters are modelled as such: overlapping creations
  (\<^verbatim>\<open>Webhook_Race\<close>) and captures (\<^verbatim>\<open>Capture_Race\<close>), and the job of a
  visitor event, which runs at once in a handler and in any order in \<^verbatim>\<open>track_jobs\<close>.
  Indexes, the process environment file, Docker and nginx files are left out.
\<close>

section \<open>From the environment to the response\<close>

text \<open>An origin as it is written in \<^verbatim>\<open>CORS_ORIGINS\<close>: visible ASCII without a comma.\<close>

definition written_origin :: "string \<Rightarrow> bool" where
  "written_origin p \<longleftrightarrow> p \<noteq> [] \<and> list_all plain_byte p \<and> CHR '','' \<notin> set p"

lemma written_trim: "list_all plain_byte p \<Longrightarrow> TrimSpace p = p"
  by (rule TrimSpace_plain_ends) (auto simp: list_all_iff)

lemma written_join:
  "os \<noteq> [] \<Longrightarrow> list_all written_origin os \<Longrightarrow> list_all plain_byte (Join os '','') \<and> Join os '','' \<noteq> []"
proof (induction os "'',''" rule: Join.induct)
  case (3 p q os)
  then show ?case by (simp add: written_origin_def) (simp add: plain_byte_def)
qed (auto simp: written_origin_def)

lemma started_origins:
  assumes "main L getenv uni lib now e = (Some sv, ev, st)"
    and "dotenv L getenv ''CORS_ORIGINS'' = Join os '',''" and "os \<noteq> []" and "list_all written_origin os"
  shows "sv_origins sv = os"
proof -
  obtain cfg where c: "Load (dotenv L getenv) uni = Inr cfg" "sv = start_server cfg now lib"
    using assms(1) by (blast elim: main_Some)
  have j: "TrimSpace (Join os '','') = Join os '',''" "Join os '','' \<noteq> []"
    using written_join [OF assms(3,4)] written_trim by auto
  have "\<forall>p \<in> set os. p \<noteq> [] \<and> TrimSpace p = p \<and> CHR '','' \<notin> set p"
    using assms(4) written_trim by (auto simp: written_origin_def list_all_iff)
  then have "splitCSV (Join os '','') = os" by (rule splitCSV_Join [OF assms(3)])
  then show ?thesis
    using Load_fields(2) [OF c(1)] j by (simp add: c(2) start_server_def getenv_or_set assms(2))
qed

text \<open>
  C39. What \<^verbatim>\<open>CORS_ORIGINS\<close> means: a server that a process started with a
  comma-separated list of origins answers every request, whatever it is, with its origin allowed
  if that origin is one of the list (up to slashes at the end), and with no origin allowed if
  it is not.
\<close>

theorem listed_origins_are_allowed:
  assumes "main L getenv uni lib now e = (Some sv, ev, st)"
    and "dotenv L getenv ''CORS_ORIGINS'' = Join os '',''" and "os \<noteq> []" and "list_all written_origin os"
  shows "map_of (head_of (fst (serve sv r w))) ''Access-Control-Allow-Origin'' =
    (let origin = TrimRight (header_Get r ''Origin'') ''/'' in
     if origin \<noteq> [] \<and> origin \<in> set (map (\<lambda>p. TrimRight p ''/'') os) then Some origin else None)"
  using started_origins [OF assms] by (simp add: serve_cors cors_allowed_def)

definition origin_request :: request where
  "origin_request = blank_request\<lparr>r_header := [(''Origin'', [''https://b''])]\<rparr>"

theorem listed_origins_are_allowed_witness:
  "map_of (head_of (fst (serve (start_server (read_config demo_getenv (\<lambda>s. s)) 0 demo_server) origin_request
     (demo_world empty_db)))) ''Access-Control-Allow-Origin'' = Some ''https://b''"
proof -
  have d: "dotenv demo_boot demo_getenv ''CORS_ORIGINS'' = Join [''https://a'', ''https://b''] '',''"
    by (simp add: demo_boot_def demo_getenv_def)
  have os: "list_all written_origin [''https://a'', ''https://b'']"
    by (simp add: written_origin_def plain_byte_def)
  have t: "TrimRight ''https://b'' ''/'' = ''https://b''" by code_simp
  have "header_Get origin_request ''Origin'' = ''https://b''"
    by (simp add: origin_request_def header_Get_def values_Get_def)
  with listed_origins_are_allowed [OF demo_main [of demo_server 0] d _ os, of origin_request "demo_world empty_db"]
  show ?thesis by (simp add: t)
qed

end
